theory Spec2Isabelle
  imports Complex_Main
begin

section \<open>Preliminaries: Python values and exceptions\<close>

text \<open>
  The physics engine computes with Python floats. Geometry, control flow and the store are
  modelled over the real numbers: there rounding, overflow, infinities other than an infinite
  mass, and NaN are left out. The vector kernel and the velocity step of the resolver are
  modelled a second time on IEEE doubles, further below, for the claims about their
  arithmetic.
  Every operation of the source that can raise is a function into \<open>error + 'a\<close>, with the
  exception on the left.
\<close>

datatype error = ZeroDivisionError | ValueError | AttributeError | IndexError

definition bindE :: "error + 'a \<Rightarrow> ('a \<Rightarrow> error + 'b) \<Rightarrow> error + 'b" where
  "bindE r f = (case r of Inl e \<Rightarrow> Inl e | Inr v \<Rightarrow> f v)"

text \<open>Python's \<^verbatim>\<open>a / b\<close> on floats raises \<^verbatim>\<open>ZeroDivisionError\<close> when \<^verbatim>\<open>b == 0\<close>.\<close>

definition py_truediv :: "real \<Rightarrow> real \<Rightarrow> error + real" where
  "py_truediv a b = (if b = 0 then Inl ZeroDivisionError else Inr (a / b))"

text \<open>\<^verbatim>\<open>math.sqrt\<close> raises \<^verbatim>\<open>ValueError\<close> on a negative argument.\<close>

definition py_sqrt :: "real \<Rightarrow> error + real" where
  "py_sqrt a = (if a < 0 then Inl ValueError else Inr (sqrt a))"

section \<open>Vector kernel (core/vector.py)\<close>

text \<open>
  \<^verbatim>\<open>Vector2D\<close> has the two slots \<^verbatim>\<open>x\<close> and \<^verbatim>\<open>y\<close>; the selectors are named \<open>vx\<close> and
  \<open>vy\<close> so that \<open>x\<close> and \<open>y\<close> stay available as variables.
\<close>

datatype Vector2D = Vector2D (vx: real) (vy: real)

definition add :: "Vector2D \<Rightarrow> Vector2D \<Rightarrow> Vector2D" where
  "add a b = Vector2D (vx a + vx b) (vy a + vy b)"

definition sub :: "Vector2D \<Rightarrow> Vector2D \<Rightarrow> Vector2D" where
  "sub a b = Vector2D (vx a - vx b) (vy a - vy b)"

definition mul :: "Vector2D \<Rightarrow> real \<Rightarrow> Vector2D" where
  "mul a s = Vector2D (vx a * s) (vy a * s)"

definition truediv :: "Vector2D \<Rightarrow> real \<Rightarrow> error + Vector2D" where
  "truediv a s =
     bindE (py_truediv (vx a) s) (\<lambda>qx.
     bindE (py_truediv (vy a) s) (\<lambda>qy. Inr (Vector2D qx qy)))"

definition neg :: "Vector2D \<Rightarrow> Vector2D" where
  "neg a = Vector2D (- vx a) (- vy a)"

text \<open>The argument of \<^verbatim>\<open>math.sqrt\<close> is a sum of two squares, so the call cannot raise.\<close>

definition magnitude :: "Vector2D \<Rightarrow> real" where
  "magnitude a = sqrt (vx a * vx a + vy a * vy a)"

definition magnitude_squared :: "Vector2D \<Rightarrow> real" where
  "magnitude_squared a = vx a * vx a + vy a * vy a"

definition normalized :: "Vector2D \<Rightarrow> error + Vector2D" where
  "normalized a =
     (let mag = magnitude a in
      if mag = 0 then Inr (Vector2D 0 0)
      else bindE (py_truediv (vx a) mag) (\<lambda>qx.
           bindE (py_truediv (vy a) mag) (\<lambda>qy. Inr (Vector2D qx qy))))"

text \<open>
  \<^verbatim>\<open>normalize\<close> works in place: \<^verbatim>\<open>self.x /= mag\<close>, then \<^verbatim>\<open>self.y /= mag\<close>. The model
  returns the vector after the call, or the exception.
\<close>

definition normalize :: "Vector2D \<Rightarrow> error + Vector2D" where
  "normalize a =
     (let mag = magnitude a in
      if mag > 0 then
        bindE (py_truediv (vx a) mag) (\<lambda>qx.
        bindE (py_truediv (vy a) mag) (\<lambda>qy. Inr (Vector2D qx qy)))
      else Inr a)"

definition dot :: "Vector2D \<Rightarrow> Vector2D \<Rightarrow> real" where
  "dot a b = vx a * vx b + vy a * vy b"

definition distance_to :: "Vector2D \<Rightarrow> Vector2D \<Rightarrow> real" where
  "distance_to a b =
     (let dx = vx a - vx b; dy = vy a - vy b in sqrt (dx * dx + dy * dy))"

definition copy :: "Vector2D \<Rightarrow> Vector2D" where
  "copy a = Vector2D (vx a) (vy a)"

section \<open>Body model (physics/body.py)\<close>

text \<open>
  A mass is a float that may be \<^verbatim>\<open>float('inf')\<close>: segments and rings are built with it.
  Dividing a finite float by infinity gives zero.
\<close>

datatype mass = FiniteMass real | InfiniteMass

definition inv_of_mass :: "mass \<Rightarrow> error + real" where
  "inv_of_mass m = (case m of FiniteMass r \<Rightarrow> py_truediv 1 r | InfiniteMass \<Rightarrow> Inr 0)"

definition truediv_mass :: "Vector2D \<Rightarrow> mass \<Rightarrow> error + Vector2D" where
  "truediv_mass a m =
     (case m of FiniteMass r \<Rightarrow> truediv a r | InfiniteMass \<Rightarrow> Inr (Vector2D 0 0))"

text \<open>
  The class hierarchy is modelled by record extension. The visual attributes (colour,
  trail, glow, pulse) play no part in the physics and are left out; the collision callback
  \<^verbatim>\<open>on_collision\<close> stays \<^verbatim>\<open>None\<close>, as the constructor sets it.
\<close>

record PhysicsBody =
  position :: Vector2D
  velocity :: Vector2D
  acceleration :: Vector2D
  mass :: mass
  inv_mass :: real
  static :: bool
  restitution :: real
  friction :: real
  drag_coefficient :: real
  forces :: "Vector2D list"

record Circle = PhysicsBody +
  radius :: real

text \<open>The attribute \<^verbatim>\<open>end\<close> of a segment is named \<open>end'\<close> here.\<close>

record Segment = PhysicsBody +
  start :: Vector2D
  end' :: Vector2D
  thickness :: real

record Ring = PhysicsBody +
  inner_radius :: real
  outer_radius :: real
  gap_angle :: real
  gap_start :: real
  rotation :: real

text \<open>\<^verbatim>\<open>PhysicsBody.__init__\<close>, generic in the fields the subclass adds.\<close>

definition PhysicsBody_init ::
  "Vector2D \<Rightarrow> mass \<Rightarrow> bool \<Rightarrow> 'a \<Rightarrow> error + 'a PhysicsBody_scheme" where
  "PhysicsBody_init pos m st ext =
     bindE (if st then Inr 0 else inv_of_mass m) (\<lambda>im.
       Inr (PhysicsBody.extend
         \<lparr> position = copy pos, velocity = Vector2D 0 0, acceleration = Vector2D 0 0,
           mass = m, inv_mass = im, static = st,
           restitution = 8 / 10, friction = 3 / 10, drag_coefficient = 1 / 10,
           forces = [] \<rparr> ext))"

definition Circle_init :: "Vector2D \<Rightarrow> real \<Rightarrow> mass \<Rightarrow> bool \<Rightarrow> error + Circle" where
  "Circle_init pos r m st = PhysicsBody_init pos m st (Circle.fields r)"

definition Segment_init :: "Vector2D \<Rightarrow> Vector2D \<Rightarrow> real \<Rightarrow> bool \<Rightarrow> error + Segment" where
  "Segment_init s e th st =
     bindE (truediv (add s e) 2) (\<lambda>center.
       PhysicsBody_init center InfiniteMass st (Segment.fields (copy s) (copy e) th))"

definition Ring_init ::
  "Vector2D \<Rightarrow> real \<Rightarrow> real \<Rightarrow> real \<Rightarrow> real \<Rightarrow> bool \<Rightarrow> error + Ring" where
  "Ring_init center inner outer ga gs st =
     PhysicsBody_init center InfiniteMass st (Ring.fields inner outer ga gs 0)"

definition add_impulse :: "'a PhysicsBody_scheme \<Rightarrow> Vector2D \<Rightarrow> 'a PhysicsBody_scheme" where
  "add_impulse self impulse =
     (if \<not> static self
      then self\<lparr>velocity := add (velocity self) (mul impulse (inv_mass self))\<rparr>
      else self)"

subsection \<open>Circle and segment geometry\<close>

definition circle_bounding_box :: "Circle \<Rightarrow> Vector2D \<times> Vector2D" where
  "circle_bounding_box self =
     (Vector2D (vx (position self) - radius self) (vy (position self) - radius self),
      Vector2D (vx (position self) + radius self) (vy (position self) + radius self))"

definition get_direction :: "Segment \<Rightarrow> error + Vector2D" where
  "get_direction self = normalized (sub (end' self) (start self))"

definition get_normal :: "Segment \<Rightarrow> error + Vector2D" where
  "get_normal self =
     bindE (get_direction self) (\<lambda>direction. Inr (Vector2D (- vy direction) (vx direction)))"

definition closest_point_on_segment :: "Segment \<Rightarrow> Vector2D \<Rightarrow> error + Vector2D" where
  "closest_point_on_segment self point =
     (let line_vec = sub (end' self) (start self);
          point_vec = sub point (start self)
      in if magnitude_squared line_vec = 0 then Inr (copy (start self))
         else bindE (py_truediv (dot point_vec line_vec) (magnitude_squared line_vec)) (\<lambda>q.
                let t = max 0 (min 1 q) in Inr (add (start self) (mul line_vec t))))"

definition segment_bounding_box :: "Segment \<Rightarrow> Vector2D \<times> Vector2D" where
  "segment_bounding_box self =
     (let min_x = min (vx (start self)) (vx (end' self)) - thickness self;
          min_y = min (vy (start self)) (vy (end' self)) - thickness self;
          max_x = max (vx (start self)) (vx (end' self)) + thickness self;
          max_y = max (vy (start self)) (vy (end' self)) + thickness self
      in (Vector2D min_x min_y, Vector2D max_x max_y))"

subsection \<open>Ring geometry\<close>

text \<open>
  \<^verbatim>\<open>math.atan2(y, x)\<close> over the reals: the angle of the point \<open>(x, y)\<close> in \<open>(-\<pi>, \<pi>]\<close>,
  and 0 at the origin. \<^verbatim>\<open>math.degrees\<close> converts to degrees. Python's \<^verbatim>\<open>a % m\<close> on
  floats, for a positive \<open>m\<close>, is \<open>a - m * floor (a / m)\<close>; the source only ever divides
  by the literal 360.
\<close>

definition py_atan2 :: "real \<Rightarrow> real \<Rightarrow> real" where
  "py_atan2 b a =
     (if a > 0 then arctan (b / a)
      else if a < 0 then (if b \<ge> 0 then arctan (b / a) + pi else arctan (b / a) - pi)
      else if b > 0 then pi / 2
      else if b < 0 then - pi / 2
      else 0)"

definition degrees :: "real \<Rightarrow> real" where
  "degrees r = r * 180 / pi"

definition py_mod :: "real \<Rightarrow> real \<Rightarrow> real" where
  "py_mod a m = a - m * of_int \<lfloor>a / m\<rfloor>"

definition has_gap :: "Ring \<Rightarrow> bool" where
  "has_gap self \<longleftrightarrow> gap_angle self > 0"

definition point_angle :: "Ring \<Rightarrow> Vector2D \<Rightarrow> real" where
  "point_angle self point =
     (let relative_pos = sub point (position self);
          angle = degrees (py_atan2 (vy relative_pos) (vx relative_pos))
      in py_mod (angle + 360) 360)"

definition point_in_gap :: "Ring \<Rightarrow> Vector2D \<Rightarrow> bool" where
  "point_in_gap self point =
     (if \<not> has_gap self then False
      else
        let angle = point_angle self point;
            gap_start_rotated = py_mod (gap_start self + rotation self) 360;
            gap_end = py_mod (gap_start_rotated + gap_angle self) 360
        in if gap_start_rotated \<le> gap_end
           then gap_start_rotated \<le> angle \<and> angle \<le> gap_end
           else angle \<ge> gap_start_rotated \<or> angle \<le> gap_end)"

text \<open>
  \<^verbatim>\<open>collision_with_circle\<close> returns \<^verbatim>\<open>None\<close>, an empty dictionary, or a dictionary with
  the keys \<^verbatim>\<open>type\<close>, \<^verbatim>\<open>normal\<close>, \<^verbatim>\<open>penetration\<close> and \<^verbatim>\<open>contact_point\<close>.
\<close>

record ring_hit =
  hit_type :: string
  hit_normal :: Vector2D
  hit_penetration :: real
  hit_contact_point :: Vector2D

datatype ring_result = RingNone | RingEmptyDict | RingDict ring_hit

definition collision_with_circle :: "Ring \<Rightarrow> Vector2D \<Rightarrow> real \<Rightarrow> error + ring_result" where
  "collision_with_circle self circle_pos circle_radius =
     (let distance = distance_to (position self) circle_pos in
      if distance + circle_radius < inner_radius self then Inr RingNone
      else if distance - circle_radius > outer_radius self then Inr RingNone
      else if has_gap self \<and> point_in_gap self circle_pos then Inr RingNone
      else if distance < inner_radius self + circle_radius then
        bindE (normalized (sub circle_pos (position self))) (\<lambda>normal.
          let penetration = inner_radius self + circle_radius - distance in
          Inr (RingDict
            \<lparr> hit_type = ''inner'', hit_normal = normal, hit_penetration = penetration,
              hit_contact_point = add (position self) (mul normal (inner_radius self)) \<rparr>))
      else if distance + circle_radius > outer_radius self then
        bindE (normalized (sub (position self) circle_pos)) (\<lambda>normal.
          let penetration = circle_radius + distance - outer_radius self in
          bindE (normalized (sub circle_pos (position self))) (\<lambda>outward.
            Inr (RingDict
              \<lparr> hit_type = ''outer'', hit_normal = normal, hit_penetration = penetration,
                hit_contact_point = add (position self) (mul outward (outer_radius self)) \<rparr>)))
      else Inr RingEmptyDict)"

section \<open>Objects and references\<close>

text \<open>
  A Python object is an instance of one of the three concrete classes. Bodies are shared
  by reference between the engine's list, the broad-phase structures and the contacts, so
  the model keeps them in a store from references (natural numbers, standing for
  \<^verbatim>\<open>id(body)\<close>) to objects; mutation updates the store.
\<close>

datatype body = ACircle Circle | ASegment Segment | ARing Ring

type_synonym heap = "nat \<Rightarrow> body"

definition type_name :: "body \<Rightarrow> string" where
  "type_name obj =
     (case obj of ACircle _ \<Rightarrow> ''Circle'' | ASegment _ \<Rightarrow> ''Segment'' | ARing _ \<Rightarrow> ''Ring'')"

text \<open>The attributes every body inherits from \<^verbatim>\<open>PhysicsBody\<close>.\<close>

definition base :: "body \<Rightarrow> PhysicsBody" where
  "base obj =
     (case obj of ACircle c \<Rightarrow> PhysicsBody.truncate c
      | ASegment s \<Rightarrow> PhysicsBody.truncate s
      | ARing r \<Rightarrow> PhysicsBody.truncate r)"

definition set_position :: "body \<Rightarrow> Vector2D \<Rightarrow> body" where
  "set_position obj v =
     (case obj of ACircle c \<Rightarrow> ACircle (c\<lparr>position := v\<rparr>)
      | ASegment s \<Rightarrow> ASegment (s\<lparr>position := v\<rparr>)
      | ARing r \<Rightarrow> ARing (r\<lparr>position := v\<rparr>))"

definition set_velocity :: "body \<Rightarrow> Vector2D \<Rightarrow> body" where
  "set_velocity obj v =
     (case obj of ACircle c \<Rightarrow> ACircle (c\<lparr>velocity := v\<rparr>)
      | ASegment s \<Rightarrow> ASegment (s\<lparr>velocity := v\<rparr>)
      | ARing r \<Rightarrow> ARing (r\<lparr>velocity := v\<rparr>))"

definition set_acceleration :: "body \<Rightarrow> Vector2D \<Rightarrow> body" where
  "set_acceleration obj v =
     (case obj of ACircle c \<Rightarrow> ACircle (c\<lparr>acceleration := v\<rparr>)
      | ASegment s \<Rightarrow> ASegment (s\<lparr>acceleration := v\<rparr>)
      | ARing r \<Rightarrow> ARing (r\<lparr>acceleration := v\<rparr>))"

definition set_forces :: "body \<Rightarrow> Vector2D list \<Rightarrow> body" where
  "set_forces obj fs =
     (case obj of ACircle c \<Rightarrow> ACircle (c\<lparr>forces := fs\<rparr>)
      | ASegment s \<Rightarrow> ASegment (s\<lparr>forces := fs\<rparr>)
      | ARing r \<Rightarrow> ARing (r\<lparr>forces := fs\<rparr>))"

text \<open>\<^verbatim>\<open>body.add_impulse(impulse)\<close> on an object of the store.\<close>

definition body_add_impulse :: "body \<Rightarrow> Vector2D \<Rightarrow> body" where
  "body_add_impulse obj impulse =
     (case obj of ACircle c \<Rightarrow> ACircle (add_impulse c impulse)
      | ASegment s \<Rightarrow> ASegment (add_impulse s impulse)
      | ARing r \<Rightarrow> ARing (add_impulse r impulse))"

section \<open>Narrow phase (collision/detector.py)\<close>

datatype meta_value = MetaStr string | MetaFloat real

record CollisionInfo =
  body_a :: nat
  body_b :: nat
  contact_point :: Vector2D
  normal :: Vector2D
  penetration :: real
  collision_type :: string
  metadata :: "(string \<times> meta_value) list"

definition circle_circle_collision :: "heap \<Rightarrow> nat \<Rightarrow> nat \<Rightarrow> error + CollisionInfo option" where
  "circle_circle_collision h a b =
     (case h a of
        ACircle circle_a \<Rightarrow>
          (case h b of
             ACircle circle_b \<Rightarrow>
               (let distance = distance_to (position circle_a) (position circle_b);
                    radius_sum = radius circle_a + radius circle_b
                in if distance < radius_sum \<and> distance > 0 then
                     bindE (normalized (sub (position circle_b) (position circle_a))) (\<lambda>n.
                       let pen = radius_sum - distance;
                           cp = add (position circle_a) (mul n (radius circle_a))
                       in Inr (Some
                            \<lparr> body_a = a, body_b = b, contact_point = cp, normal = n,
                              penetration = pen, collision_type = ''circle-circle'',
                              metadata = [] \<rparr>))
                   else Inr None)
           | _ \<Rightarrow> Inl AttributeError)
      | _ \<Rightarrow> Inl AttributeError)"

definition circle_segment_collision :: "heap \<Rightarrow> nat \<Rightarrow> nat \<Rightarrow> error + CollisionInfo option" where
  "circle_segment_collision h c s =
     (case h c of
        ACircle circle \<Rightarrow>
          (case h s of
             ASegment segment \<Rightarrow>
               bindE (closest_point_on_segment segment (position circle)) (\<lambda>closest_point.
                 let distance = distance_to (position circle) closest_point in
                 if distance < radius circle + thickness segment / 2 then
                   bindE (if distance > 0
                          then normalized (sub (position circle) closest_point)
                          else get_normal segment) (\<lambda>n.
                     let pen = radius circle + thickness segment / 2 - distance in
                     Inr (Some
                       \<lparr> body_a = c, body_b = s, contact_point = closest_point, normal = n,
                         penetration = pen, collision_type = ''circle-segment'',
                         metadata = [] \<rparr>))
                 else Inr None)
           | _ \<Rightarrow> Inl AttributeError)
      | _ \<Rightarrow> Inl AttributeError)"

definition circle_ring_collision :: "heap \<Rightarrow> nat \<Rightarrow> nat \<Rightarrow> error + CollisionInfo option" where
  "circle_ring_collision h c r =
     (case h c of
        ACircle circle \<Rightarrow>
          (case h r of
             ARing ring \<Rightarrow>
               bindE (collision_with_circle ring (position circle) (radius circle))
                 (\<lambda>collision_data.
                    case collision_data of
                      RingDict d \<Rightarrow>
                        Inr (Some
                          \<lparr> body_a = c, body_b = r, contact_point = hit_contact_point d,
                            normal = hit_normal d, penetration = hit_penetration d,
                            collision_type = ''circle-ring'',
                            metadata = [(''ring_collision_type'', MetaStr (hit_type d))] \<rparr>)
                    | _ \<Rightarrow> Inr None)
           | _ \<Rightarrow> Inl AttributeError)
      | _ \<Rightarrow> Inl AttributeError)"

definition check_collision :: "heap \<Rightarrow> nat \<Rightarrow> nat \<Rightarrow> error + CollisionInfo option" where
  "check_collision h a b =
     (let type_a = type_name (h a); type_b = type_name (h b) in
      if (type_a, type_b) \<in> set [(''Circle'', ''Circle'')] then circle_circle_collision h a b
      else if (type_a, type_b) = (''Circle'', ''Segment'') \<or> (type_a, type_b) = (''Segment'', ''Circle'')
      then
        let circle = (if type_a = ''Circle'' then a else b);
            segment = (if type_a = ''Segment'' then a else b)
        in circle_segment_collision h circle segment
      else if (type_a, type_b) = (''Circle'', ''Ring'') \<or> (type_a, type_b) = (''Ring'', ''Circle'')
      then
        let circle = (if type_a = ''Circle'' then a else b);
            ring = (if type_a = ''Ring'' then a else b)
        in circle_ring_collision h circle ring
      else Inr None)"

subsection \<open>Continuous collision detection\<close>

definition tolerance :: real where
  "tolerance = 1 / 1000000"

definition max_iterations :: nat where
  "max_iterations = 20"

text \<open>
  The body of the \<^verbatim>\<open>for\<close> loop of \<^verbatim>\<open>_binary_search_collision_time\<close>, with the number of
  iterations left as first argument: an early \<^verbatim>\<open>return t_mid\<close>, a \<^verbatim>\<open>break\<close> once the interval
  is shorter than the tolerance, and the midpoint of the interval after the loop.
\<close>

fun bisect :: "nat \<Rightarrow> Circle \<Rightarrow> Circle \<Rightarrow> real \<Rightarrow> real \<Rightarrow> real \<Rightarrow> real" where
  "bisect 0 circle_a circle_b radius_sum t_min t_max = (t_min + t_max) / 2"
| "bisect (Suc k) circle_a circle_b radius_sum t_min t_max =
     (let t_mid = (t_min + t_max) / 2;
          pos_a = add (position circle_a) (mul (velocity circle_a) t_mid);
          pos_b = add (position circle_b) (mul (velocity circle_b) t_mid);
          distance = distance_to pos_a pos_b
      in if \<bar>distance - radius_sum\<bar> < tolerance then t_mid
         else
           let t_min' = (if distance > radius_sum then t_mid else t_min);
               t_max' = (if distance > radius_sum then t_max else t_mid)
           in if t_max' - t_min' < tolerance then (t_min' + t_max') / 2
              else bisect k circle_a circle_b radius_sum t_min' t_max')"

text \<open>
  The distance of the two centres after a time \<open>t\<close> of straight motion: the value
  \<^verbatim>\<open>distance\<close> that the loop computes at \<^verbatim>\<open>t_mid\<close> and compares with the sum of the radii.
\<close>

definition distance_at :: "Circle \<Rightarrow> Circle \<Rightarrow> real \<Rightarrow> real" where
  "distance_at circle_a circle_b t =
     distance_to (add (position circle_a) (mul (velocity circle_a) t))
                 (add (position circle_b) (mul (velocity circle_b) t))"

definition binary_search_collision_time :: "Circle \<Rightarrow> Circle \<Rightarrow> real \<Rightarrow> real \<Rightarrow> real option" where
  "binary_search_collision_time circle_a circle_b dt radius_sum =
     Some (bisect max_iterations circle_a circle_b radius_sum 0 dt)"

definition circle_circle_ccd :: "heap \<Rightarrow> nat \<Rightarrow> nat \<Rightarrow> real \<Rightarrow> error + CollisionInfo option" where
  "circle_circle_ccd h a b dt =
     (case h a of
        ACircle circle_a \<Rightarrow>
          (case h b of
             ACircle circle_b \<Rightarrow>
               (let final_pos_a = add (position circle_a) (mul (velocity circle_a) dt);
                    final_pos_b = add (position circle_b) (mul (velocity circle_b) dt);
                    initial_distance = distance_to (position circle_a) (position circle_b);
                    radius_sum = radius circle_a + radius circle_b
                in if initial_distance < radius_sum then Inr None
                   else
                     let final_distance = distance_to final_pos_a final_pos_b in
                     if final_distance \<ge> radius_sum then Inr None
                     else
                       (case binary_search_collision_time circle_a circle_b dt radius_sum of
                          Some t_collision \<Rightarrow>
                            (let pos_a_collision =
                                   add (position circle_a) (mul (velocity circle_a) t_collision);
                                 pos_b_collision =
                                   add (position circle_b) (mul (velocity circle_b) t_collision)
                             in bindE (normalized (sub pos_b_collision pos_a_collision)) (\<lambda>n.
                                  let cp = add pos_a_collision (mul n (radius circle_a)) in
                                  Inr (Some
                                    \<lparr> body_a = a, body_b = b, contact_point = cp, normal = n,
                                      penetration = 0, collision_type = ''circle-circle-ccd'',
                                      metadata = [(''collision_time'', MetaFloat t_collision)] \<rparr>)))
                        | None \<Rightarrow> Inr None))
           | _ \<Rightarrow> Inl AttributeError)
      | _ \<Rightarrow> Inl AttributeError)"

definition detect_continuous_collision ::
  "heap \<Rightarrow> nat \<Rightarrow> nat \<Rightarrow> real \<Rightarrow> error + CollisionInfo option" where
  "detect_continuous_collision h a b dt =
     (case (h a, h b) of
        (ACircle _, ACircle _) \<Rightarrow> circle_circle_ccd h a b dt
      | _ \<Rightarrow> Inr None)"

section \<open>Resolver (collision/resolver.py)\<close>

text \<open>
  The resolver mutates the bodies of a contact in place. A run of it is a function from
  the store to the store it leaves and the exception that stopped it, if any: what was
  written before a \<^verbatim>\<open>raise\<close> stays written.
\<close>

type_synonym outcome = "heap \<times> error option"

definition and_then :: "outcome \<Rightarrow> (heap \<Rightarrow> outcome) \<Rightarrow> outcome" where
  "and_then r f = (case r of (h, None) \<Rightarrow> f h | (h, Some e) \<Rightarrow> (h, Some e))"

fun for_each :: "('a \<Rightarrow> heap \<Rightarrow> outcome) \<Rightarrow> 'a list \<Rightarrow> heap \<Rightarrow> outcome" where
  "for_each f [] h = (h, None)"
| "for_each f (x # xs) h = and_then (f x h) (for_each f xs)"

record CollisionResolver =
  position_correction :: bool
  position_correction_factor :: real
  velocity_threshold :: real

definition CollisionResolver_init :: CollisionResolver where
  "CollisionResolver_init =
     \<lparr> position_correction = True, position_correction_factor = 8 / 10,
       velocity_threshold = 1 / 100 \<rparr>"

text \<open>The expression \<^verbatim>\<open>0 if body.static else body.inv_mass\<close>.\<close>

definition effective_inv_mass :: "body \<Rightarrow> real" where
  "effective_inv_mass obj = (if static (base obj) then 0 else inv_mass (base obj))"

text \<open>
  The guarded in-place updates \<^verbatim>\<open>if not body.static: body.position -= v\<close> and their
  like: the object at reference \<open>r\<close> is rewritten only when it is not static.
\<close>

definition unless_static :: "nat \<Rightarrow> (body \<Rightarrow> body) \<Rightarrow> heap \<Rightarrow> heap" where
  "unless_static r f h = (if \<not> static (base (h r)) then h(r := f (h r)) else h)"

definition position_isub :: "Vector2D \<Rightarrow> body \<Rightarrow> body" where
  "position_isub v obj = set_position obj (sub (position (base obj)) v)"

definition position_iadd :: "Vector2D \<Rightarrow> body \<Rightarrow> body" where
  "position_iadd v obj = set_position obj (add (position (base obj)) v)"

definition velocity_isub :: "Vector2D \<Rightarrow> body \<Rightarrow> body" where
  "velocity_isub v obj = set_velocity obj (sub (velocity (base obj)) v)"

definition velocity_iadd :: "Vector2D \<Rightarrow> body \<Rightarrow> body" where
  "velocity_iadd v obj = set_velocity obj (add (velocity (base obj)) v)"

definition resolve_position ::
  "CollisionResolver \<Rightarrow> nat \<Rightarrow> nat \<Rightarrow> Vector2D \<Rightarrow> real \<Rightarrow> heap \<Rightarrow> outcome" where
  "resolve_position self a b n pen h =
     (let inv_mass_a = effective_inv_mass (h a);
          inv_mass_b = effective_inv_mass (h b);
          total_inv_mass = inv_mass_a + inv_mass_b
      in if total_inv_mass \<le> 0 then (h, None)
         else
           (case py_truediv (pen * position_correction_factor self) total_inv_mass of
              Inl e \<Rightarrow> (h, Some e)
            | Inr q \<Rightarrow>
                let correction = mul n q;
                    h1 = unless_static a (position_isub (mul correction inv_mass_a)) h;
                    h2 = unless_static b (position_iadd (mul correction inv_mass_b)) h1
                in (h2, None)))"

definition apply_friction ::
  "CollisionResolver \<Rightarrow> nat \<Rightarrow> nat \<Rightarrow> Vector2D \<Rightarrow> real \<Rightarrow> heap \<Rightarrow> outcome" where
  "apply_friction self a b n impulse_scalar h =
     (let relative_velocity = sub (velocity (base (h b))) (velocity (base (h a)));
          tangent = sub relative_velocity (mul n (dot relative_velocity n))
      in if magnitude tangent < velocity_threshold self then (h, None)
         else
           (case normalized tangent of
              Inl e \<Rightarrow> (h, Some e)
            | Inr tangent' \<Rightarrow>
                let friction_magnitude = - dot relative_velocity tangent' in
                (case py_sqrt (friction (base (h a)) * friction (base (h b))) of
                   Inl e \<Rightarrow> (h, Some e)
                 | Inr mu \<Rightarrow>
                     let friction_impulse =
                           (if \<bar>friction_magnitude\<bar> < impulse_scalar * mu
                            then mul tangent' friction_magnitude
                            else mul tangent' (- impulse_scalar * mu));
                         inv_mass_a = effective_inv_mass (h a);
                         inv_mass_b = effective_inv_mass (h b);
                         h1 = unless_static a (velocity_isub (mul friction_impulse inv_mass_a)) h;
                         h2 = unless_static b (velocity_iadd (mul friction_impulse inv_mass_b)) h1
                     in (h2, None))))"

definition resolve_velocity ::
  "CollisionResolver \<Rightarrow> nat \<Rightarrow> nat \<Rightarrow> Vector2D \<Rightarrow> heap \<Rightarrow> outcome" where
  "resolve_velocity self a b n h =
     (let relative_velocity = sub (velocity (base (h b))) (velocity (base (h a)));
          velocity_along_normal = dot relative_velocity n
      in if velocity_along_normal > 0 then (h, None)
         else
           let restitution' = min (restitution (base (h a))) (restitution (base (h b)));
               impulse_scalar = - (1 + restitution') * velocity_along_normal;
               inv_mass_a = effective_inv_mass (h a);
               inv_mass_b = effective_inv_mass (h b)
           in (case py_truediv impulse_scalar (inv_mass_a + inv_mass_b) of
                 Inl e \<Rightarrow> (h, Some e)
               | Inr impulse_scalar' \<Rightarrow>
                   let impulse = mul n impulse_scalar';
                       h1 = unless_static a (velocity_isub (mul impulse inv_mass_a)) h;
                       h2 = unless_static b (velocity_iadd (mul impulse inv_mass_b)) h1
                   in apply_friction self a b n impulse_scalar' h2))"

text \<open>
  \<^verbatim>\<open>resolve_collision\<close>; the two \<^verbatim>\<open>on_collision\<close> callbacks are \<^verbatim>\<open>None\<close> and nothing is
  called. The parameter \<^verbatim>\<open>dt\<close> is not used by the source.
\<close>

definition resolve_collision :: "CollisionResolver \<Rightarrow> CollisionInfo \<Rightarrow> real \<Rightarrow> heap \<Rightarrow> outcome" where
  "resolve_collision self collision dt h =
     (let a = body_a collision; b = body_b collision;
          n = normal collision; pen = penetration collision
      in and_then
           (if position_correction self \<and> pen > 0 then resolve_position self a b n pen h
            else (h, None))
           (resolve_velocity self a b n))"

definition resolve_collisions ::
  "CollisionResolver \<Rightarrow> CollisionInfo list \<Rightarrow> real \<Rightarrow> heap \<Rightarrow> outcome" where
  "resolve_collisions self collisions dt h =
     for_each (\<lambda>collision. resolve_collision self collision dt) collisions h"

section \<open>Engine step (core/engine.py)\<close>

text \<open>
  Of \<^verbatim>\<open>EngineConfig\<close> the step reads the gravity, the friction and the maximal velocity.
  The engine has its own circle-circle test and its own resolution loop. Its lists of
  constraints, update callbacks and collision callbacks are empty, as \<^verbatim>\<open>__init__\<close> leaves
  them; the timing statistics are left out.
\<close>

record EngineConfig =
  config_fps :: real
  config_gravity :: Vector2D
  config_friction :: real
  config_max_velocity :: real

definition EngineConfig_default :: EngineConfig where
  "EngineConfig_default =
     \<lparr> config_fps = 60, config_gravity = Vector2D 0 981, config_friction = 1 / 10,
       config_max_velocity = 2000 \<rparr>"

record engine_contact =
  ec_normal :: Vector2D
  ec_penetration :: real
  ec_contact_point :: Vector2D

record PhysicsEngine =
  config :: EngineConfig
  paused :: bool
  time_scale :: real
  bodies :: "nat list"
  collision_pairs :: "(nat \<times> nat \<times> engine_contact) list"
  engine_dt :: real

definition add_acceleration :: "nat \<Rightarrow> Vector2D \<Rightarrow> heap \<Rightarrow> heap" where
  "add_acceleration r v h = h(r := set_acceleration (h r) (add (acceleration (base (h r))) v))"

fun apply_custom_forces :: "nat \<Rightarrow> Vector2D list \<Rightarrow> heap \<Rightarrow> outcome" where
  "apply_custom_forces r [] h = (h, None)"
| "apply_custom_forces r (force # fs) h =
     (case truediv_mass force (mass (base (h r))) of
        Inl e \<Rightarrow> (h, Some e)
      | Inr q \<Rightarrow> apply_custom_forces r fs (add_acceleration r q h))"

text \<open>
  The loop body of \<^verbatim>\<open>_apply_forces\<close> for one body that is not static, block by block:
  gravity, air resistance, the custom forces, and the clearing of the force list.
\<close>

definition apply_gravity :: "EngineConfig \<Rightarrow> nat \<Rightarrow> heap \<Rightarrow> outcome" where
  "apply_gravity cfg r h = (h(r := set_acceleration (h r) (copy (config_gravity cfg))), None)"

definition apply_air_resistance :: "nat \<Rightarrow> heap \<Rightarrow> outcome" where
  "apply_air_resistance r h =
     (if magnitude (velocity (base (h r))) > 0 then
        (case normalized (velocity (base (h r))) of
           Inl e \<Rightarrow> (h, Some e)
         | Inr direction \<Rightarrow>
             let air_force =
                   mul (mul (mul direction (- magnitude_squared (velocity (base (h r)))))
                            (1 / 2))
                       (drag_coefficient (base (h r)))
             in (case truediv_mass air_force (mass (base (h r))) of
                   Inl e \<Rightarrow> (h, Some e)
                 | Inr q \<Rightarrow> (add_acceleration r q h, None)))
      else (h, None))"

definition clear_forces :: "nat \<Rightarrow> heap \<Rightarrow> outcome" where
  "clear_forces r h = (h(r := set_forces (h r) []), None)"

definition apply_forces_body :: "EngineConfig \<Rightarrow> nat \<Rightarrow> heap \<Rightarrow> outcome" where
  "apply_forces_body cfg r h =
     (if \<not> static (base (h r)) then
        and_then (and_then (and_then (apply_gravity cfg r h)
          (apply_air_resistance r))
          (\<lambda>h2. apply_custom_forces r (forces (base (h2 r))) h2))
          (clear_forces r)
      else (h, None))"

definition apply_forces :: "PhysicsEngine \<Rightarrow> real \<Rightarrow> heap \<Rightarrow> outcome" where
  "apply_forces self dt h = for_each (apply_forces_body (config self)) (bodies self) h"

text \<open>
  The loop body of \<^verbatim>\<open>_integrate\<close> for one body that is not static, block by block: the
  new position, the new velocity, the velocity limit, and the friction factor.
\<close>

definition advance_position :: "real \<Rightarrow> nat \<Rightarrow> heap \<Rightarrow> outcome" where
  "advance_position dt r h =
     (h(r := set_position (h r)
          (add (position (base (h r)))
             (add (mul (velocity (base (h r))) dt)
                  (mul (mul (mul (acceleration (base (h r))) (1 / 2)) dt) dt)))), None)"

definition advance_velocity :: "real \<Rightarrow> nat \<Rightarrow> heap \<Rightarrow> outcome" where
  "advance_velocity dt r h =
     (h(r := set_velocity (h r)
          (add (velocity (base (h r))) (mul (acceleration (base (h r))) dt))), None)"

definition limit_velocity :: "EngineConfig \<Rightarrow> nat \<Rightarrow> heap \<Rightarrow> outcome" where
  "limit_velocity cfg r h =
     (if magnitude (velocity (base (h r))) > config_max_velocity cfg then
        (case normalized (velocity (base (h r))) of
           Inl e \<Rightarrow> (h, Some e)
         | Inr direction \<Rightarrow>
             (h(r := set_velocity (h r) (mul direction (config_max_velocity cfg))), None))
      else (h, None))"

definition damp_velocity :: "EngineConfig \<Rightarrow> real \<Rightarrow> nat \<Rightarrow> heap \<Rightarrow> outcome" where
  "damp_velocity cfg dt r h =
     (h(r := set_velocity (h r)
          (mul (velocity (base (h r))) (1 - config_friction cfg * dt))), None)"

definition integrate_body :: "EngineConfig \<Rightarrow> real \<Rightarrow> nat \<Rightarrow> heap \<Rightarrow> outcome" where
  "integrate_body cfg dt r h =
     (if \<not> static (base (h r)) then
        and_then (and_then (and_then (advance_position dt r h)
          (advance_velocity dt r))
          (limit_velocity cfg r))
          (damp_velocity cfg dt r)
      else (h, None))"

definition integrate :: "PhysicsEngine \<Rightarrow> real \<Rightarrow> heap \<Rightarrow> outcome" where
  "integrate self dt h = for_each (integrate_body (config self) dt) (bodies self) h"

text \<open>
  The pairs \<^verbatim>\<open>(xs[i], xs[j])\<close> with \<^verbatim>\<open>i < j\<close>, in the order of the two nested \<^verbatim>\<open>for\<close> loops.
\<close>

fun index_pairs :: "'a list \<Rightarrow> ('a \<times> 'a) list" where
  "index_pairs [] = []"
| "index_pairs (x # xs) = map (Pair x) xs @ index_pairs xs"

text \<open>\<^verbatim>\<open>hasattr(body, 'radius')\<close>: only circles have a radius.\<close>

definition engine_check_collision :: "heap \<Rightarrow> nat \<Rightarrow> nat \<Rightarrow> error + engine_contact option" where
  "engine_check_collision h a b =
     (case (h a, h b) of
        (ACircle body_a', ACircle body_b') \<Rightarrow>
          (let distance = distance_to (position body_a') (position body_b') in
           if distance < radius body_a' + radius body_b' then
             bindE (normalized (sub (position body_b') (position body_a'))) (\<lambda>n.
               let pen = radius body_a' + radius body_b' - distance in
               Inr (Some \<lparr> ec_normal = n, ec_penetration = pen,
                          ec_contact_point = add (position body_a') (mul n (radius body_a')) \<rparr>))
           else Inr None)
      | _ \<Rightarrow> Inr None)"

fun detect_pairs ::
  "heap \<Rightarrow> (nat \<times> nat) list \<Rightarrow> (nat \<times> nat \<times> engine_contact) list \<Rightarrow>
   (nat \<times> nat \<times> engine_contact) list \<times> error option" where
  "detect_pairs h [] acc = (acc, None)"
| "detect_pairs h ((a, b) # ps) acc =
     (if static (base (h a)) \<and> static (base (h b)) then detect_pairs h ps acc
      else (case engine_check_collision h a b of
              Inl e \<Rightarrow> (acc, Some e)
            | Inr None \<Rightarrow> detect_pairs h ps acc
            | Inr (Some info) \<Rightarrow> detect_pairs h ps (acc @ [(a, b, info)])))"

definition engine_detect_collisions :: "PhysicsEngine \<Rightarrow> heap \<Rightarrow> PhysicsEngine \<times> error option" where
  "engine_detect_collisions self h =
     (case detect_pairs h (index_pairs (bodies self)) [] of
        (found, err) \<Rightarrow> (self\<lparr>collision_pairs := found\<rparr>, err))"

definition engine_resolve_pair :: "nat \<times> nat \<times> engine_contact \<Rightarrow> heap \<Rightarrow> outcome" where
  "engine_resolve_pair entry h =
     (case entry of (a, b, collision_info) \<Rightarrow>
        let n = ec_normal collision_info;
            pen = ec_penetration collision_info;
            correction = mul (mul n pen) (1 / 2);
            h1 = unless_static a (position_isub correction) h;
            h2 = unless_static b (position_iadd correction) h1;
            relative_velocity = sub (velocity (base (h2 b))) (velocity (base (h2 a)));
            velocity_along_normal = dot relative_velocity n
        in if velocity_along_normal > 0 then (h2, None)
           else
             let restitution' = min (restitution (base (h2 a))) (restitution (base (h2 b)));
                 impulse_scalar = - (1 + restitution') * velocity_along_normal
             in (case (if static (base (h2 a)) then Inr 0 else inv_of_mass (mass (base (h2 a)))) of
                   Inl e \<Rightarrow> (h2, Some e)
                 | Inr inv_mass_a \<Rightarrow>
                     (case (if static (base (h2 b)) then Inr 0 else inv_of_mass (mass (base (h2 b)))) of
                        Inl e \<Rightarrow> (h2, Some e)
                      | Inr inv_mass_b \<Rightarrow>
                          (case py_truediv impulse_scalar (inv_mass_a + inv_mass_b) of
                             Inl e \<Rightarrow> (h2, Some e)
                           | Inr impulse_scalar' \<Rightarrow>
                               let impulse = mul n impulse_scalar';
                                   h3 = unless_static a (velocity_isub (mul impulse inv_mass_a)) h2;
                                   h4 = unless_static b (velocity_iadd (mul impulse inv_mass_b)) h3
                               in (h4, None)))))"

definition engine_resolve_collisions :: "PhysicsEngine \<Rightarrow> real \<Rightarrow> heap \<Rightarrow> outcome" where
  "engine_resolve_collisions self dt h = for_each engine_resolve_pair (collision_pairs self) h"

text \<open>
  \<^verbatim>\<open>step(dt)\<close>, with \<^verbatim>\<open>dt\<close> optional. The result is the engine and the store after the
  call, and the exception that ended it, if any.
\<close>

definition step ::
  "PhysicsEngine \<Rightarrow> real option \<Rightarrow> heap \<Rightarrow> (PhysicsEngine \<times> heap) \<times> error option" where
  "step self dt_arg h =
     (if paused self then ((self, h), None)
      else
        let dt = (case dt_arg of None \<Rightarrow> engine_dt self * time_scale self | Some d \<Rightarrow> d) in
        (case apply_forces self dt h of
           (h1, Some e) \<Rightarrow> ((self, h1), Some e)
         | (h1, None) \<Rightarrow>
             (case integrate self dt h1 of
                (h2, Some e) \<Rightarrow> ((self, h2), Some e)
              | (h2, None) \<Rightarrow>
                  (case engine_detect_collisions self h2 of
                     (self', Some e) \<Rightarrow> ((self', h2), Some e)
                   | (self', None) \<Rightarrow>
                       (case engine_resolve_collisions self' dt h2 of
                          (h3, err) \<Rightarrow> ((self', h3), err))))))"

text \<open>Repeated calls of \<^verbatim>\<open>step(dt)\<close>; an exception ends the run.\<close>

fun steps :: "nat \<Rightarrow> PhysicsEngine \<Rightarrow> real option \<Rightarrow> heap \<Rightarrow> (PhysicsEngine \<times> heap) \<times> error option" where
  "steps 0 self dt_arg h = ((self, h), None)"
| "steps (Suc k) self dt_arg h =
     (case step self dt_arg h of
        ((self', h'), Some e) \<Rightarrow> ((self', h'), Some e)
      | ((self', h'), None) \<Rightarrow> steps k self' dt_arg h')"

section \<open>Broad phase (collision/detector.py)\<close>

text \<open>
  \<^verbatim>\<open>body.get_bounding_box()\<close> dispatches on the class of the object. The method of
  \<^verbatim>\<open>Ring\<close> is not part of the source at hand; it is the parameter \<open>ring_box\<close>.
\<close>

definition get_bounding_box :: "(Ring \<Rightarrow> Vector2D \<times> Vector2D) \<Rightarrow> body \<Rightarrow> Vector2D \<times> Vector2D" where
  "get_bounding_box ring_box obj =
     (case obj of ACircle c \<Rightarrow> circle_bounding_box c
      | ASegment s \<Rightarrow> segment_bounding_box s
      | ARing r \<Rightarrow> ring_box r)"

subsection \<open>Uniform grid\<close>

text \<open>
  The dictionary \<^verbatim>\<open>grid\<close> maps a cell to the list of the bodies in it and is iterated in
  insertion order, so it is an association list. Python's \<^verbatim>\<open>x // c\<close> on floats is the floor
  of the quotient and raises when \<^verbatim>\<open>c == 0\<close>.
\<close>

record SpatialGrid =
  world_width :: real
  world_height :: real
  cell_size :: real
  cols :: int
  rows :: int
  grid :: "((int \<times> int) \<times> nat list) list"

definition py_floordiv :: "real \<Rightarrow> real \<Rightarrow> error + int" where
  "py_floordiv a c = (if c = 0 then Inl ZeroDivisionError else Inr \<lfloor>a / c\<rfloor>)"

definition SpatialGrid_init :: "real \<Rightarrow> real \<Rightarrow> real \<Rightarrow> error + SpatialGrid" where
  "SpatialGrid_init w ht cs =
     bindE (py_truediv w cs) (\<lambda>qw.
     bindE (py_truediv ht cs) (\<lambda>qh.
       Inr \<lparr> world_width = w, world_height = ht, cell_size = cs,
             cols = \<lceil>qw\<rceil>, rows = \<lceil>qh\<rceil>, grid = [] \<rparr>))"

definition grid_clear :: "SpatialGrid \<Rightarrow> SpatialGrid" where
  "grid_clear self = self\<lparr>grid := []\<rparr>"

definition get_cell_coords :: "SpatialGrid \<Rightarrow> real \<Rightarrow> real \<Rightarrow> error + (int \<times> int)" where
  "get_cell_coords self px py =
     bindE (py_floordiv px (cell_size self)) (\<lambda>col.
     bindE (py_floordiv py (cell_size self)) (\<lambda>row.
       Inr (max 0 (min col (cols self - 1)), max 0 (min row (rows self - 1)))))"

definition get_cells_for_body ::
  "(Ring \<Rightarrow> Vector2D \<times> Vector2D) \<Rightarrow> SpatialGrid \<Rightarrow> body \<Rightarrow> error + (int \<times> int) list" where
  "get_cells_for_body ring_box self obj =
     (case get_bounding_box ring_box obj of (min_pos, max_pos) \<Rightarrow>
        bindE (get_cell_coords self (vx min_pos) (vy min_pos)) (\<lambda>(min_col, min_row).
        bindE (get_cell_coords self (vx max_pos) (vy max_pos)) (\<lambda>(max_col, max_row).
          Inr (concat (map (\<lambda>row. map (\<lambda>col. (col, row)) [min_col..max_col])
                           [min_row..max_row])))))"

fun grid_append :: "int \<times> int \<Rightarrow> nat \<Rightarrow> ((int \<times> int) \<times> nat list) list \<Rightarrow>
    ((int \<times> int) \<times> nat list) list" where
  "grid_append cell r [] = [(cell, [r])]"
| "grid_append cell r ((cell', rs) # rest) =
     (if cell = cell' then (cell', rs @ [r]) # rest else (cell', rs) # grid_append cell r rest)"

definition grid_insert ::
  "(Ring \<Rightarrow> Vector2D \<times> Vector2D) \<Rightarrow> heap \<Rightarrow> SpatialGrid \<Rightarrow> nat \<Rightarrow> error + SpatialGrid" where
  "grid_insert ring_box h self r =
     bindE (get_cells_for_body ring_box self (h r)) (\<lambda>cells.
       Inr (self\<lparr>grid := fold (\<lambda>cell g. grid_append cell r g) cells (grid self)\<rparr>))"

text \<open>
  The generator \<^verbatim>\<open>get_potential_collisions\<close>: the pairs it yields, in order. The set
  \<^verbatim>\<open>pairs\<close> of the keys \<^verbatim>\<open>(min(id(a), id(b)), max(id(a), id(b)))\<close> seen so far is threaded
  through the loops.
\<close>

fun yield_pairs :: "(nat \<times> nat) list \<Rightarrow> (nat \<times> nat) set \<Rightarrow> (nat \<times> nat) list" where
  "yield_pairs [] pairs = []"
| "yield_pairs ((a, b) # rest) pairs =
     (let pair = (min a b, max a b) in
      if pair \<notin> pairs then (a, b) # yield_pairs rest (insert pair pairs)
      else yield_pairs rest pairs)"

definition get_potential_collisions :: "SpatialGrid \<Rightarrow> (nat \<times> nat) list" where
  "get_potential_collisions self =
     yield_pairs (concat (map (\<lambda>(cell, cell_bodies). index_pairs cell_bodies) (grid self))) {}"

subsection \<open>Detector\<close>

text \<open>The two statistics counters of the detector are left out.\<close>

record CollisionDetector =
  use_spatial_optimization :: bool
  spatial_grid :: "SpatialGrid option"
  detector_cell_size :: real

definition CollisionDetector_init :: "bool \<Rightarrow> real \<Rightarrow> CollisionDetector" where
  "CollisionDetector_init use cs =
     \<lparr> use_spatial_optimization = use, spatial_grid = None, detector_cell_size = cs \<rparr>"

definition setup_spatial_grid :: "CollisionDetector \<Rightarrow> real \<Rightarrow> real \<Rightarrow> error + CollisionDetector" where
  "setup_spatial_grid self w ht =
     (if use_spatial_optimization self
      then bindE (SpatialGrid_init w ht (detector_cell_size self)) (\<lambda>g.
             Inr (self\<lparr>spatial_grid := Some g\<rparr>))
      else Inr self)"

fun insert_all ::
  "(Ring \<Rightarrow> Vector2D \<times> Vector2D) \<Rightarrow> heap \<Rightarrow> SpatialGrid \<Rightarrow> nat list \<Rightarrow> error + SpatialGrid" where
  "insert_all ring_box h g [] = Inr g"
| "insert_all ring_box h g (r # rs) =
     bindE (grid_insert ring_box h g r) (\<lambda>g'. insert_all ring_box h g' rs)"

fun check_pairs :: "heap \<Rightarrow> (nat \<times> nat) list \<Rightarrow> error + CollisionInfo list" where
  "check_pairs h [] = Inr []"
| "check_pairs h ((a, b) # rest) =
     bindE (check_collision h a b) (\<lambda>collision.
     bindE (check_pairs h rest) (\<lambda>found.
       Inr (case collision of None \<Rightarrow> found | Some c \<Rightarrow> c # found)))"

text \<open>
  \<^verbatim>\<open>detect_collisions\<close> returns the list of contacts; the store is only read. The grid
  path tests every candidate pair, the naive path skips a pair of two static bodies.
\<close>

definition detect_collisions ::
  "(Ring \<Rightarrow> Vector2D \<times> Vector2D) \<Rightarrow> CollisionDetector \<Rightarrow> heap \<Rightarrow> nat list \<Rightarrow>
   error + CollisionInfo list" where
  "detect_collisions ring_box self h bs =
     (case (if use_spatial_optimization self then spatial_grid self else None) of
        Some g \<Rightarrow>
          bindE (insert_all ring_box h (grid_clear g) bs) (\<lambda>g'.
            check_pairs h (get_potential_collisions g'))
      | None \<Rightarrow>
          check_pairs h
            (filter (\<lambda>(a, b). \<not> (static (base (h a)) \<and> static (base (h b)))) (index_pairs bs)))"

subsection \<open>Quadtree\<close>

text \<open>
  \<^verbatim>\<open>self.nodes\<close> is either empty or the list of the four quadrants NE, NW, SW, SE that
  \<^verbatim>\<open>split\<close> builds; the model keeps the four children as a tuple, so that \<^verbatim>\<open>nodes[index]\<close>
  is defined for each index \<^verbatim>\<open>get_index\<close> returns.
\<close>

datatype QuadTree =
  QuadTree (bounds: "real \<times> real \<times> real \<times> real") (max_objects: int) (max_levels: int)
    (level: int) (objects: "nat list")
    (nodes: "(QuadTree \<times> QuadTree \<times> QuadTree \<times> QuadTree) option")

definition QuadTree_init :: "real \<times> real \<times> real \<times> real \<Rightarrow> int \<Rightarrow> int \<Rightarrow> int \<Rightarrow> QuadTree" where
  "QuadTree_init bnds mo ml lv = QuadTree bnds mo ml lv [] None"

definition set_objects :: "QuadTree \<Rightarrow> nat list \<Rightarrow> QuadTree" where
  "set_objects self objs =
     QuadTree (bounds self) (max_objects self) (max_levels self) (level self) objs (nodes self)"

definition set_nodes ::
  "QuadTree \<Rightarrow> (QuadTree \<times> QuadTree \<times> QuadTree \<times> QuadTree) option \<Rightarrow> QuadTree" where
  "set_nodes self ns =
     QuadTree (bounds self) (max_objects self) (max_levels self) (level self) (objects self) ns"

definition node_at :: "int \<Rightarrow> QuadTree \<times> QuadTree \<times> QuadTree \<times> QuadTree \<Rightarrow> QuadTree" where
  "node_at index ns =
     (case ns of (ne, nw, sw, se) \<Rightarrow>
        if index = 0 then ne else if index = 1 then nw else if index = 2 then sw else se)"

definition set_node_at ::
  "int \<Rightarrow> QuadTree \<Rightarrow> QuadTree \<times> QuadTree \<times> QuadTree \<times> QuadTree \<Rightarrow>
   QuadTree \<times> QuadTree \<times> QuadTree \<times> QuadTree" where
  "set_node_at index t ns =
     (case ns of (ne, nw, sw, se) \<Rightarrow>
        if index = 0 then (t, nw, sw, se) else if index = 1 then (ne, t, sw, se)
        else if index = 2 then (ne, nw, t, se) else (ne, nw, sw, t))"

definition split :: "QuadTree \<Rightarrow> QuadTree" where
  "split self =
     (case bounds self of (bx, by, width, height) \<Rightarrow>
        let sub_width = width / 2; sub_height = height / 2;
            child = (\<lambda>b. QuadTree_init b (max_objects self) (max_levels self) (level self + 1))
        in set_nodes self
             (Some (child (bx + sub_width, by, sub_width, sub_height),
                    child (bx, by, sub_width, sub_height),
                    child (bx, by + sub_height, sub_width, sub_height),
                    child (bx + sub_width, by + sub_height, sub_width, sub_height))))"

definition get_index :: "(Ring \<Rightarrow> Vector2D \<times> Vector2D) \<Rightarrow> heap \<Rightarrow> QuadTree \<Rightarrow> nat \<Rightarrow> int" where
  "get_index ring_box h self r =
     (case bounds self of (bx, by, width, height) \<Rightarrow>
        let vertical_midpoint = bx + width / 2;
            horizontal_midpoint = by + height / 2
        in (case get_bounding_box ring_box (h r) of (min_pos, max_pos) \<Rightarrow>
              let top_quadrant = (vy min_pos < horizontal_midpoint \<and> vy max_pos < horizontal_midpoint);
                  bottom_quadrant = (vy min_pos > horizontal_midpoint)
              in if vx min_pos < vertical_midpoint \<and> vx max_pos < vertical_midpoint then
                   (if top_quadrant then 1 else if bottom_quadrant then 2 else -1)
                 else if vx min_pos > vertical_midpoint then
                   (if top_quadrant then 0 else if bottom_quadrant then 3 else -1)
                 else -1))"

text \<open>
  \<^verbatim>\<open>insert\<close> descends one level with each recursive call. The first argument bounds the
  number of nested calls; \<open>None\<close> means that the bound was reached. The \<^verbatim>\<open>while\<close> loop that
  redistributes the objects of a node after a split visits them in order, moving those that
  fit a quadrant into it and keeping the others.
\<close>

fun quad_insert ::
  "nat \<Rightarrow> (Ring \<Rightarrow> Vector2D \<times> Vector2D) \<Rightarrow> heap \<Rightarrow> QuadTree \<Rightarrow> nat \<Rightarrow> QuadTree option" where
  "quad_insert 0 ring_box h self r = None"
| "quad_insert (Suc k) ring_box h self r =
     (if nodes self \<noteq> None \<and> get_index ring_box h self r \<noteq> -1 then
        (case nodes self of
           Some ns \<Rightarrow>
             (let index = get_index ring_box h self r in
              map_option (\<lambda>child. set_nodes self (Some (set_node_at index child ns)))
                (quad_insert k ring_box h (node_at index ns) r))
         | None \<Rightarrow> None)
      else
        let self1 = set_objects self (objects self @ [r]) in
        if int (length (objects self1)) > max_objects self1 \<and> level self1 < max_levels self1
        then
          let self2 = (if nodes self1 = None then split self1 else self1) in
          fold (\<lambda>obj acc.
                  case acc of
                    None \<Rightarrow> None
                  | Some t \<Rightarrow>
                      (let index = get_index ring_box h t obj in
                       if index \<noteq> -1 then
                         (case nodes t of
                            Some ns \<Rightarrow>
                              map_option (\<lambda>child. set_nodes t (Some (set_node_at index child ns)))
                                (quad_insert k ring_box h (node_at index ns) obj)
                          | None \<Rightarrow> None)
                       else Some (set_objects t (objects t @ [obj]))))
            (objects self2) (Some (set_objects self2 []))
        else Some self1)"

text \<open>
  \<^verbatim>\<open>retrieve(return_objects, body)\<close> extends the list it is given: first with what the
  quadrant of the body returns, then with the objects of the node itself.
\<close>

fun retrieve ::
  "(Ring \<Rightarrow> Vector2D \<times> Vector2D) \<Rightarrow> heap \<Rightarrow> QuadTree \<Rightarrow> nat list \<Rightarrow> nat \<Rightarrow> nat list" where
  "retrieve ring_box h (QuadTree bnds mo ml lv objs ns) return_objects r =
     (let index = get_index ring_box h (QuadTree bnds mo ml lv objs ns) r;
          return_objects' =
            (case ns of
               Some (ne, nw, sw, se) \<Rightarrow>
                 if index = 0 then retrieve ring_box h ne return_objects r
                 else if index = 1 then retrieve ring_box h nw return_objects r
                 else if index = 2 then retrieve ring_box h sw return_objects r
                 else if index = 3 then retrieve ring_box h se return_objects r
                 else return_objects
             | None \<Rightarrow> return_objects)
      in return_objects' @ objs)"

section \<open>Double-precision arithmetic\<close>

text \<open>
  A Python float is an IEEE 754 binary64 number. The sections above compute with real
  numbers; this section and the next two repeat the vector kernel and the velocity step of
  the resolver with every operation rounded, for the two claims whose content is the
  arithmetic itself. A double is a real number, an infinity or NaN. The two zeros are one
  value: they compare equal in Python, a division by either raises, and no function modelled
  here tells them apart.
\<close>

datatype double = Finite real | PosInf | NegInf | NaN

text \<open>Rounding of a real number to the nearest integer, a tie going to the even one.\<close>

definition round_half_even :: "real \<Rightarrow> int" where
  "round_half_even r =
     (let f = \<lfloor>r\<rfloor>; d = r - of_int f
      in if d < 1 / 2 then f else if 1 / 2 < d then f + 1 else if even f then f else f + 1)"

text \<open>
  The exponent of \<open>x\<close>: the least \<open>e\<close> from \<open>-1022\<close> on with \<open>\<bar>x\<bar> < 2\<^sup>e\<^sup>+\<^sup>1\<close>, and 1023 when there is
  none. Below \<open>2\<^sup>-\<^sup>1\<^sup>0\<^sup>2\<^sup>2\<close> it stays at \<open>-1022\<close>, the exponent of the subnormal numbers.
\<close>

fun binade_search :: "nat \<Rightarrow> int \<Rightarrow> real \<Rightarrow> int" where
  "binade_search 0 e x = e"
| "binade_search (Suc n) e x = (if x < 2 powi (e + 1) then e else binade_search n (e + 1) x)"

definition binade :: "real \<Rightarrow> int" where
  "binade x = binade_search 2045 (- 1022) \<bar>x\<bar>"

text \<open>
  The spacing of the doubles around \<open>x\<close>: 52 bits below the exponent. Rounding to the nearest
  multiple of it, ties to even, is the rounding of IEEE 754; a result of magnitude \<open>2\<^sup>1\<^sup>0\<^sup>2\<^sup>4\<close>
  or more overflows to the infinity of the same sign.
\<close>

definition ulp :: "real \<Rightarrow> real" where
  "ulp x = 2 powi (binade x - 52)"

definition overflow_threshold :: real where
  "overflow_threshold = 2 powi 1024"

definition round_double :: "real \<Rightarrow> double" where
  "round_double x =
     (let y = of_int (round_half_even (x / ulp x)) * ulp x
      in if overflow_threshold \<le> \<bar>y\<bar> then (if 0 < x then PosInf else NegInf) else Finite y)"

text \<open>
  The operations of Python on floats. Sum, difference, product and quotient of finite numbers
  are the exact result rounded; none of them raises on overflow. A division by zero raises
  \<^verbatim>\<open>ZeroDivisionError\<close> whatever the dividend, and \<^verbatim>\<open>math.sqrt\<close> raises \<^verbatim>\<open>ValueError\<close> on a
  negative argument. Every comparison with NaN is false.
\<close>

fun dneg :: "double \<Rightarrow> double" where
  "dneg (Finite x) = Finite (- x)"
| "dneg PosInf = NegInf"
| "dneg NegInf = PosInf"
| "dneg NaN = NaN"

fun dabs :: "double \<Rightarrow> double" where
  "dabs (Finite x) = Finite \<bar>x\<bar>"
| "dabs PosInf = PosInf"
| "dabs NegInf = PosInf"
| "dabs NaN = NaN"

fun dadd :: "double \<Rightarrow> double \<Rightarrow> double" where
  "dadd (Finite x) (Finite y) = round_double (x + y)"
| "dadd NaN b = NaN"
| "dadd a NaN = NaN"
| "dadd PosInf NegInf = NaN"
| "dadd NegInf PosInf = NaN"
| "dadd PosInf b = PosInf"
| "dadd NegInf b = NegInf"
| "dadd a PosInf = PosInf"
| "dadd a NegInf = NegInf"

definition dsub :: "double \<Rightarrow> double \<Rightarrow> double" where
  "dsub a b = dadd a (dneg b)"

fun dmul :: "double \<Rightarrow> double \<Rightarrow> double" where
  "dmul (Finite x) (Finite y) = round_double (x * y)"
| "dmul NaN b = NaN"
| "dmul a NaN = NaN"
| "dmul (Finite x) PosInf = (if x = 0 then NaN else if 0 < x then PosInf else NegInf)"
| "dmul (Finite x) NegInf = (if x = 0 then NaN else if 0 < x then NegInf else PosInf)"
| "dmul PosInf (Finite y) = (if y = 0 then NaN else if 0 < y then PosInf else NegInf)"
| "dmul NegInf (Finite y) = (if y = 0 then NaN else if 0 < y then NegInf else PosInf)"
| "dmul PosInf PosInf = PosInf"
| "dmul PosInf NegInf = NegInf"
| "dmul NegInf PosInf = NegInf"
| "dmul NegInf NegInf = PosInf"

fun ddiv :: "double \<Rightarrow> double \<Rightarrow> error + double" where
  "ddiv a (Finite y) =
     (if y = 0 then Inl ZeroDivisionError
      else case a of
             Finite x \<Rightarrow> Inr (round_double (x / y))
           | PosInf \<Rightarrow> Inr (if 0 < y then PosInf else NegInf)
           | NegInf \<Rightarrow> Inr (if 0 < y then NegInf else PosInf)
           | NaN \<Rightarrow> Inr NaN)"
| "ddiv (Finite x) PosInf = Inr (Finite 0)"
| "ddiv (Finite x) NegInf = Inr (Finite 0)"
| "ddiv a b = Inr NaN"

fun dsqrt :: "double \<Rightarrow> error + double" where
  "dsqrt (Finite x) = (if x < 0 then Inl ValueError else Inr (round_double (sqrt x)))"
| "dsqrt PosInf = Inr PosInf"
| "dsqrt NegInf = Inl ValueError"
| "dsqrt NaN = Inr NaN"

fun deq :: "double \<Rightarrow> double \<Rightarrow> bool" where
  "deq (Finite x) (Finite y) = (x = y)"
| "deq PosInf PosInf = True"
| "deq NegInf NegInf = True"
| "deq a b = False"

fun dless :: "double \<Rightarrow> double \<Rightarrow> bool" where
  "dless (Finite x) (Finite y) = (x < y)"
| "dless NaN b = False"
| "dless a NaN = False"
| "dless a NegInf = False"
| "dless PosInf b = False"
| "dless NegInf b = True"
| "dless a PosInf = True"

text \<open>\<^verbatim>\<open>min(a, b)\<close> returns \<^verbatim>\<open>a\<close> unless \<^verbatim>\<open>b < a\<close>.\<close>

definition dmin :: "double \<Rightarrow> double \<Rightarrow> double" where
  "dmin a b = (if dless b a then b else a)"

section \<open>Vector kernel on doubles (core/vector.py)\<close>

text \<open>
  The functions of \<^verbatim>\<open>Vector2D\<close> once more, operation by operation, on doubles. The names are
  those of the source with the suffix \<open>_d\<close>.
\<close>

datatype DVector2D = DVector2D (dx: double) (dy: double)

definition add_d :: "DVector2D \<Rightarrow> DVector2D \<Rightarrow> DVector2D" where
  "add_d a b = DVector2D (dadd (dx a) (dx b)) (dadd (dy a) (dy b))"

definition sub_d :: "DVector2D \<Rightarrow> DVector2D \<Rightarrow> DVector2D" where
  "sub_d a b = DVector2D (dsub (dx a) (dx b)) (dsub (dy a) (dy b))"

definition mul_d :: "DVector2D \<Rightarrow> double \<Rightarrow> DVector2D" where
  "mul_d a s = DVector2D (dmul (dx a) s) (dmul (dy a) s)"

definition truediv_d :: "DVector2D \<Rightarrow> double \<Rightarrow> error + DVector2D" where
  "truediv_d a s =
     bindE (ddiv (dx a) s) (\<lambda>qx.
     bindE (ddiv (dy a) s) (\<lambda>qy. Inr (DVector2D qx qy)))"

definition magnitude_d :: "DVector2D \<Rightarrow> error + double" where
  "magnitude_d a = dsqrt (dadd (dmul (dx a) (dx a)) (dmul (dy a) (dy a)))"

definition normalized_d :: "DVector2D \<Rightarrow> error + DVector2D" where
  "normalized_d a =
     bindE (magnitude_d a) (\<lambda>mag.
       if deq mag (Finite 0) then Inr (DVector2D (Finite 0) (Finite 0))
       else bindE (ddiv (dx a) mag) (\<lambda>qx.
            bindE (ddiv (dy a) mag) (\<lambda>qy. Inr (DVector2D qx qy))))"

definition normalize_d :: "DVector2D \<Rightarrow> error + DVector2D" where
  "normalize_d a =
     bindE (magnitude_d a) (\<lambda>mag.
       if dless (Finite 0) mag then
         bindE (ddiv (dx a) mag) (\<lambda>qx.
         bindE (ddiv (dy a) mag) (\<lambda>qy. Inr (DVector2D qx qy)))
       else Inr a)"

definition dot_d :: "DVector2D \<Rightarrow> DVector2D \<Rightarrow> double" where
  "dot_d a b = dadd (dmul (dx a) (dx b)) (dmul (dy a) (dy b))"

text \<open>
  Half the spacing of the doubles relative to the number rounded, \<open>2\<^sup>-\<^sup>5\<^sup>3\<close>, and half the spacing
  of the subnormal numbers, \<open>2\<^sup>-\<^sup>1\<^sup>0\<^sup>7\<^sup>5\<close>: the bounds of the error of one rounding.
\<close>

definition unit_roundoff :: real where
  "unit_roundoff = 2 powi (- 53)"

definition underflow_unit :: real where
  "underflow_unit = 2 powi (- 1075)"

text \<open>A double that is not below zero: NaN and the positive infinity count.\<close>

fun not_negative :: "double \<Rightarrow> bool" where
  "not_negative (Finite y) = (0 \<le> y)"
| "not_negative PosInf = True"
| "not_negative NegInf = False"
| "not_negative NaN = True"

section \<open>Velocity resolution on doubles (collision/resolver.py)\<close>

text \<open>
  The attributes of a body that \<^verbatim>\<open>_resolve_velocity\<close> and \<^verbatim>\<open>_apply_friction\<close> read and write.
  The two bodies of a contact are two objects, so the functions return the pair of bodies
  after the call, or the exception.
\<close>

record DBody =
  velocity_d :: DVector2D
  inv_mass_d :: double
  static_d :: bool
  restitution_d :: double
  friction_d :: double

definition effective_inv_mass_d :: "DBody \<Rightarrow> double" where
  "effective_inv_mass_d body = (if static_d body then Finite 0 else inv_mass_d body)"

definition velocity_isub_d :: "DVector2D \<Rightarrow> DBody \<Rightarrow> DBody" where
  "velocity_isub_d v body =
     (if static_d body then body else body\<lparr>velocity_d := sub_d (velocity_d body) v\<rparr>)"

definition velocity_iadd_d :: "DVector2D \<Rightarrow> DBody \<Rightarrow> DBody" where
  "velocity_iadd_d v body =
     (if static_d body then body else body\<lparr>velocity_d := add_d (velocity_d body) v\<rparr>)"

text \<open>\<^verbatim>\<open>self.velocity_threshold = 0.01\<close>: the double nearest to \<open>1/100\<close>.\<close>

definition velocity_threshold_d :: double where
  "velocity_threshold_d = round_double (1 / 100)"

definition apply_friction_d ::
  "DVector2D \<Rightarrow> double \<Rightarrow> DBody \<Rightarrow> DBody \<Rightarrow> error + DBody \<times> DBody" where
  "apply_friction_d n impulse_scalar a b =
     (let relative_velocity = sub_d (velocity_d b) (velocity_d a);
          tangent = sub_d relative_velocity (mul_d n (dot_d relative_velocity n))
      in bindE (magnitude_d tangent) (\<lambda>mag.
           if dless mag velocity_threshold_d then Inr (a, b)
           else
             bindE (normalized_d tangent) (\<lambda>tangent'.
               let friction_magnitude = dneg (dot_d relative_velocity tangent') in
               bindE (dsqrt (dmul (friction_d a) (friction_d b))) (\<lambda>mu.
                 let friction_impulse =
                       (if dless (dabs friction_magnitude) (dmul impulse_scalar mu)
                        then mul_d tangent' friction_magnitude
                        else mul_d tangent' (dmul (dneg impulse_scalar) mu));
                     inv_mass_a = effective_inv_mass_d a;
                     inv_mass_b = effective_inv_mass_d b
                 in Inr (velocity_isub_d (mul_d friction_impulse inv_mass_a) a,
                         velocity_iadd_d (mul_d friction_impulse inv_mass_b) b)))))"

definition resolve_velocity_d ::
  "DVector2D \<Rightarrow> DBody \<Rightarrow> DBody \<Rightarrow> error + DBody \<times> DBody" where
  "resolve_velocity_d n a b =
     (let relative_velocity = sub_d (velocity_d b) (velocity_d a);
          velocity_along_normal = dot_d relative_velocity n
      in if dless (Finite 0) velocity_along_normal then Inr (a, b)
         else
           let restitution_v = dmin (restitution_d a) (restitution_d b);
               impulse_scalar = dmul (dneg (dadd (Finite 1) restitution_v)) velocity_along_normal;
               inv_mass_a = effective_inv_mass_d a;
               inv_mass_b = effective_inv_mass_d b
           in bindE (ddiv impulse_scalar (dadd inv_mass_a inv_mass_b)) (\<lambda>impulse_scalar'.
                let impulse = mul_d n impulse_scalar';
                    a' = velocity_isub_d (mul_d impulse inv_mass_a) a;
                    b' = velocity_iadd_d (mul_d impulse inv_mass_b) b
                in apply_friction_d n impulse_scalar' a' b'))"

section \<open>Example bodies\<close>

text \<open>
  A circle as \<^verbatim>\<open>Circle(pos, r, m, static)\<close> builds it, with the velocity then set to
  \<open>vel\<close>; a segment and a ring as their constructors build them.
\<close>

definition make_circle :: "Vector2D \<Rightarrow> Vector2D \<Rightarrow> real \<Rightarrow> real \<Rightarrow> bool \<Rightarrow> Circle" where
  "make_circle pos vel r m st =
     \<lparr> position = pos, velocity = vel, acceleration = Vector2D 0 0,
       mass = FiniteMass m, inv_mass = (if st then 0 else 1 / m), static = st,
       restitution = 8 / 10, friction = 3 / 10, drag_coefficient = 1 / 10,
       forces = [], radius = r \<rparr>"

definition make_segment :: "Vector2D \<Rightarrow> Vector2D \<Rightarrow> real \<Rightarrow> bool \<Rightarrow> Segment" where
  "make_segment s e th st =
     \<lparr> position = Vector2D ((vx s + vx e) / 2) ((vy s + vy e) / 2),
       velocity = Vector2D 0 0, acceleration = Vector2D 0 0,
       mass = InfiniteMass, inv_mass = 0, static = st,
       restitution = 8 / 10, friction = 3 / 10, drag_coefficient = 1 / 10,
       forces = [], start = s, end' = e, thickness = th \<rparr>"

definition make_ring :: "Vector2D \<Rightarrow> real \<Rightarrow> real \<Rightarrow> real \<Rightarrow> real \<Rightarrow> bool \<Rightarrow> Ring" where
  "make_ring center inner outer ga gs st =
     \<lparr> position = center, velocity = Vector2D 0 0, acceleration = Vector2D 0 0,
       mass = InfiniteMass, inv_mass = 0, static = st,
       restitution = 8 / 10, friction = 3 / 10, drag_coefficient = 1 / 10,
       forces = [], inner_radius = inner, outer_radius = outer, gap_angle = ga,
       gap_start = gs, rotation = 0 \<rparr>"

section \<open>Example scenes\<close>

text \<open>A circle at \<open>(0, 3)\<close> falling onto a static horizontal segment through the origin.\<close>

definition scene_segment :: heap where
  "scene_segment =
     (\<lambda>_. ACircle (make_circle (Vector2D 0 3) (Vector2D 0 (- 10)) 5 1 False))
       (1 := ASegment (make_segment (Vector2D (- 10) 0) (Vector2D 10 0) 5 True))"

text \<open>Two overlapping static circles.\<close>

definition scene_static :: heap where
  "scene_static =
     (\<lambda>_. ACircle (make_circle (Vector2D 10 10) (Vector2D 0 0) 5 1 True))
       (1 := ACircle (make_circle (Vector2D 18 10) (Vector2D 0 0) 5 1 True))"

text \<open>
  Two circles of mass 2 with restitution 1 and friction 0, approaching each other along
  the line of their centres.
\<close>

definition elastic_circle :: "Vector2D \<Rightarrow> Vector2D \<Rightarrow> Circle" where
  "elastic_circle pos vel = (make_circle pos vel 5 2 False)\<lparr>restitution := 1, friction := 0\<rparr>"

definition scene_head_on :: heap where
  "scene_head_on =
     (\<lambda>_. ACircle (elastic_circle (Vector2D 0 0) (Vector2D 3 0)))
       (1 := ACircle (elastic_circle (Vector2D 8 0) (Vector2D (- 1) 0)))"

text \<open>A moving circle that overlaps a segment built with \<^verbatim>\<open>static=False\<close>.\<close>

definition scene_loose_segment :: heap where
  "scene_loose_segment =
     (\<lambda>_. ACircle (make_circle (Vector2D 0 3) (Vector2D 0 10) 5 1 False))
       (1 := ASegment (make_segment (Vector2D (- 10) 0) (Vector2D 10 0) 5 False))"

text \<open>
  The scenario of the specification: a circle at the origin moving right at speed 100 and
  a static circle at \<open>(20, 0)\<close>, in an engine with the default configuration.
\<close>

definition scene_engine_heap :: heap where
  "scene_engine_heap =
     (\<lambda>_. ACircle (make_circle (Vector2D 0 0) (Vector2D 100 0) 5 1 False))
       (1 := ACircle (make_circle (Vector2D 20 0) (Vector2D 0 0) 5 1 True))"

definition scene_engine :: PhysicsEngine where
  "scene_engine =
     \<lparr> config = EngineConfig_default, paused = False, time_scale = 1, bodies = [0, 1],
       collision_pairs = [], engine_dt = 1 / 60 \<rparr>"

text \<open>
  Two small circles in opposite corners of a world of 100 by 100 (references 0 and 1) and
  a large circle (reference 2) that overlaps the first one and straddles the vertical
  midline; the quadtree of capacity 1 after the insertion of the first, and of both.
\<close>

definition scene_quadtree :: heap where
  "scene_quadtree =
     (\<lambda>_. ACircle (make_circle (Vector2D 30 10) (Vector2D 0 0) 25 1 False))
       (0 := ACircle (make_circle (Vector2D 10 10) (Vector2D 0 0) 5 1 False),
        1 := ACircle (make_circle (Vector2D 80 80) (Vector2D 0 0) 5 1 False))"

definition quadtree_one :: QuadTree where
  "quadtree_one = QuadTree (0, 0, 100, 100) 1 5 0 [0] None"

definition quadtree_two :: QuadTree where
  "quadtree_two =
     QuadTree (0, 0, 100, 100) 1 5 0 []
       (Some (QuadTree (50, 0, 50, 50) 1 5 1 [] None,
              QuadTree (0, 0, 50, 50) 1 5 1 [0] None,
              QuadTree (0, 50, 50, 50) 1 5 1 [] None,
              QuadTree (50, 50, 50, 50) 1 5 1 [1] None))"

section \<open>Predicates on pairs of stores\<close>

text \<open>
  \<open>statics_kept h h'\<close>: no body changed its static flag from \<open>h\<close> to \<open>h'\<close>, and every
  static body has the position and the velocity it had.
\<close>

definition statics_kept :: "heap \<Rightarrow> heap \<Rightarrow> bool" where
  "statics_kept h h' \<longleftrightarrow>
     (\<forall>r. static (base (h' r)) = static (base (h r)) \<and>
          (static (base (h r)) \<longrightarrow>
             position (base (h' r)) = position (base (h r)) \<and>
             velocity (base (h' r)) = velocity (base (h r))))"

text \<open>\<open>touches_only r h h'\<close>: only the object at \<open>r\<close> changed, and not its static flag.\<close>

definition touches_only :: "nat \<Rightarrow> heap \<Rightarrow> heap \<Rightarrow> bool" where
  "touches_only r h h' \<longleftrightarrow>
     (\<forall>r'. r' \<noteq> r \<longrightarrow> h' r' = h r') \<and> static (base (h' r)) = static (base (h r))"

text \<open>
  \<open>kept_but_position r h h'\<close>: the inherited attributes of the object at \<open>r\<close>, its position
  apart, are the same in both stores.
\<close>

definition kept_but_position :: "nat \<Rightarrow> heap \<Rightarrow> heap \<Rightarrow> bool" where
  "kept_but_position r h h' \<longleftrightarrow>
     (base (h' r))\<lparr>position := Vector2D 0 0\<rparr> = (base (h r))\<lparr>position := Vector2D 0 0\<rparr>"

section \<open>Facts about the vector kernel\<close>

lemma bindE_Inr [simp]: "bindE (Inr v) f = f v"
  by (simp add: bindE_def)

lemma bindE_Inl [simp]: "bindE (Inl e) f = Inl e"
  by (simp add: bindE_def)

lemma py_truediv_nonzero [simp]: "b \<noteq> 0 \<Longrightarrow> py_truediv a b = Inr (a / b)"
  by (simp add: py_truediv_def)

lemma py_truediv_zero [simp]: "py_truediv a 0 = Inl ZeroDivisionError"
  by (simp add: py_truediv_def)

lemma magnitude_nonneg [simp]: "0 \<le> magnitude a"
  by (simp add: magnitude_def)

lemma magnitude_eq_0_iff: "magnitude a = 0 \<longleftrightarrow> a = Vector2D 0 0"
proof (cases a)
  case (Vector2D p q)
  have "p * p + q * q = 0 \<longleftrightarrow> p = 0 \<and> q = 0"
    by (simp add: sum_squares_eq_zero_iff)
  with Vector2D show ?thesis
    by (simp add: magnitude_def)
qed

lemma magnitude_axis [simp]: "magnitude (Vector2D p 0) = \<bar>p\<bar>" "magnitude (Vector2D 0 q) = \<bar>q\<bar>"
  by (simp_all add: magnitude_def)

lemma distance_to_sub: "distance_to a b = magnitude (sub a b)"
  by (simp add: distance_to_def magnitude_def sub_def Let_def)

lemma normalized_eq:
  "normalized a =
     Inr (if magnitude a = 0 then Vector2D 0 0
          else Vector2D (vx a / magnitude a) (vy a / magnitude a))"
  by (simp add: normalized_def Let_def)

lemma normalize_eq:
  "normalize a =
     Inr (if magnitude a = 0 then a
          else Vector2D (vx a / magnitude a) (vy a / magnitude a))"
proof (cases "magnitude a = 0")
  case True
  then show ?thesis by (simp add: normalize_def)
next
  case False
  then have "0 < magnitude a"
    using magnitude_nonneg [of a] by linarith
  then show ?thesis by (simp add: normalize_def Let_def)
qed

lemma magnitude_scaled_unit:
  assumes "magnitude a \<noteq> 0"
  shows "magnitude (Vector2D (vx a / magnitude a) (vy a / magnitude a)) = 1"
proof -
  let ?m = "magnitude a"
  have pos: "0 < ?m" using assms magnitude_nonneg [of a] by linarith
  have sq: "?m * ?m = vx a * vx a + vy a * vy a"
    by (simp add: magnitude_def)
  have "(vx a / ?m) * (vx a / ?m) + (vy a / ?m) * (vy a / ?m)
        = (vx a * vx a + vy a * vy a) / (?m * ?m)"
    by (simp add: add_divide_distrib)
  also have "\<dots> = (?m * ?m) / (?m * ?m)" by (simp only: sq)
  also have "\<dots> = 1" using pos by simp
  finally show ?thesis by (simp add: magnitude_def)
qed

lemma scaled_unit_direction:
  assumes "magnitude a \<noteq> 0"
  shows "mul (Vector2D (vx a / magnitude a) (vy a / magnitude a)) (magnitude a) = a"
  using assms by (cases a) (simp add: mul_def)

lemma copy_id [simp]: "copy a = a"
  by (cases a) (simp add: copy_def)

lemma Circle_init_make_circle:
  "m \<noteq> 0 \<Longrightarrow> Circle_init pos r (FiniteMass m) st = Inr (make_circle pos (Vector2D 0 0) r m st)"
  by (simp add: Circle_init_def PhysicsBody_init_def inv_of_mass_def make_circle_def
      PhysicsBody.extend_def Circle.fields_def)

lemma Segment_init_make_segment: "Segment_init s e th st = Inr (make_segment s e th st)"
  by (simp add: Segment_init_def PhysicsBody_init_def inv_of_mass_def make_segment_def
      PhysicsBody.extend_def Segment.fields_def truediv_def add_def)

lemma Ring_init_make_ring:
  "Ring_init center inner outer ga gs st = Inr (make_ring center inner outer ga gs st)"
  by (simp add: Ring_init_def PhysicsBody_init_def inv_of_mass_def make_ring_def
      PhysicsBody.extend_def Ring.fields_def)

lemma make_circle_sel [simp]:
  "position (make_circle p v r m st) = p" "velocity (make_circle p v r m st) = v"
  "radius (make_circle p v r m st) = r" "static (make_circle p v r m st) = st"
  "inv_mass (make_circle p v r m st) = (if st then 0 else 1 / m)"
  "mass (make_circle p v r m st) = FiniteMass m"
  "restitution (make_circle p v r m st) = 8 / 10" "friction (make_circle p v r m st) = 3 / 10"
  by (simp_all add: make_circle_def)

lemma make_segment_sel [simp]:
  "position (make_segment s e th st) = Vector2D ((vx s + vx e) / 2) ((vy s + vy e) / 2)"
  "velocity (make_segment s e th st) = Vector2D 0 0"
  "start (make_segment s e th st) = s" "end' (make_segment s e th st) = e"
  "thickness (make_segment s e th st) = th" "static (make_segment s e th st) = st"
  "inv_mass (make_segment s e th st) = 0"
  by (simp_all add: make_segment_def)

lemma base_sel [simp]:
  "position (base (ACircle c)) = position c" "velocity (base (ACircle c)) = velocity c"
  "static (base (ACircle c)) = static c" "inv_mass (base (ACircle c)) = inv_mass c"
  "restitution (base (ACircle c)) = restitution c" "friction (base (ACircle c)) = friction c"
  "mass (base (ACircle c)) = mass c"
  "position (base (ASegment sg)) = position sg" "velocity (base (ASegment sg)) = velocity sg"
  "static (base (ASegment sg)) = static sg" "inv_mass (base (ASegment sg)) = inv_mass sg"
  "restitution (base (ASegment sg)) = restitution sg" "friction (base (ASegment sg)) = friction sg"
  "mass (base (ASegment sg)) = mass sg"
  "position (base (ARing rg)) = position rg" "velocity (base (ARing rg)) = velocity rg"
  "static (base (ARing rg)) = static rg" "inv_mass (base (ARing rg)) = inv_mass rg"
  "restitution (base (ARing rg)) = restitution rg" "friction (base (ARing rg)) = friction rg"
  "mass (base (ARing rg)) = mass rg"
  by (simp_all add: base_def PhysicsBody.truncate_def)

lemma distance_to_axis [simp]:
  "distance_to (Vector2D p q) (Vector2D p' q) = \<bar>p - p'\<bar>"
  "distance_to (Vector2D p q) (Vector2D p q') = \<bar>q - q'\<bar>"
  by (simp_all add: distance_to_def)

section \<open>Facts about rounding\<close>

lemma binade_search_hit:
  "2 powi e' \<le> x \<Longrightarrow> x < 2 powi (e' + 1) \<Longrightarrow> e \<le> e' \<Longrightarrow> e' \<le> e + int n \<Longrightarrow>
     binade_search n e x = e'"
proof (induction n arbitrary: e)
  case 0
  then show ?case by simp
next
  case (Suc n)
  show ?case
  proof (cases "x < 2 powi (e + 1)")
    case True
    have "e' < e + 1"
    proof (rule ccontr)
      assume "\<not> e' < e + 1"
      then have "(2::real) powi (e + 1) \<le> 2 powi e'"
        by (intro power_int_increasing) simp_all
      with True Suc.prems(1) show False by simp
    qed
    with Suc.prems(3) have "e' = e" by simp
    with True show ?thesis by simp
  next
    case False
    have "e \<noteq> e'" using False Suc.prems(2) by auto
    with Suc.prems(3) have "e + 1 \<le> e'" by simp
    moreover have "e' \<le> (e + 1) + int n" using Suc.prems(4) by simp
    ultimately have "binade_search n (e + 1) x = e'"
      using Suc.prems(1,2) by (intro Suc.IH)
    with False show ?thesis by simp
  qed
qed

lemma binade_search_low: "x < 2 powi (e + 1) \<Longrightarrow> binade_search n e x = e"
  by (cases n) simp_all

lemma binade_search_range: "e \<le> binade_search n e x \<and> binade_search n e x \<le> e + int n"
proof (induction n arbitrary: e)
  case 0
  then show ?case by simp
next
  case (Suc n)
  from Suc.IH [of "e + 1"] show ?case by auto
qed

lemma binade_search_upper:
  "binade_search n e x = e + int n \<or> x < 2 powi (binade_search n e x + 1)"
proof (induction n arbitrary: e)
  case 0
  then show ?case by simp
next
  case (Suc n)
  from Suc.IH [of "e + 1"] show ?case by auto
qed

lemma binade_search_lower:
  "binade_search n e x = e \<or> 2 powi (binade_search n e x) \<le> x"
proof (induction n arbitrary: e)
  case 0
  then show ?case by simp
next
  case (Suc n)
  show ?case
  proof (cases "x < 2 powi (e + 1)")
    case True
    then show ?thesis by simp
  next
    case False
    from Suc.IH [of "e + 1"] False show ?thesis by auto
  qed
qed

lemma binade_eq:
  assumes "2 powi e \<le> \<bar>x\<bar>" "\<bar>x\<bar> < 2 powi (e + 1)" "- 1022 \<le> e" "e \<le> 1023"
  shows "binade x = e"
  unfolding binade_def using assms by (intro binade_search_hit) simp_all

lemma binade_subnormal:
  assumes "\<bar>x\<bar> < 2 powi (- 1022)"
  shows "binade x = - 1022"
  unfolding binade_def using assms by (intro binade_search_low) simp

lemma binade_range: "- 1022 \<le> binade x" "binade x \<le> 1023"
  using binade_search_range [of "- 1022" 2045 "\<bar>x\<bar>"] by (simp_all add: binade_def)

lemma binade_upper: "binade x = 1023 \<or> \<bar>x\<bar> < 2 powi (binade x + 1)"
  using binade_search_upper [of 2045 "- 1022" "\<bar>x\<bar>"] by (simp add: binade_def)

lemma binade_lower: "binade x = - 1022 \<or> 2 powi (binade x) \<le> \<bar>x\<bar>"
  using binade_search_lower [of 2045 "- 1022" "\<bar>x\<bar>"] by (simp add: binade_def)

lemma round_half_even_near: "\<bar>of_int (round_half_even r) - r\<bar> \<le> 1 / 2"
  unfolding round_half_even_def Let_def by (simp add: abs_le_iff)

lemma round_half_even_int [simp]: "round_half_even (of_int z) = z"
  by (simp add: round_half_even_def)

lemma round_half_even_nonneg: "0 \<le> r \<Longrightarrow> 0 \<le> round_half_even r"
  unfolding round_half_even_def Let_def by (simp add: zero_le_floor) 

lemma round_half_even_nonpos: "r \<le> 0 \<Longrightarrow> round_half_even r \<le> 0"
proof -
  assume r: "r \<le> 0"
  then have f: "\<lfloor>r\<rfloor> \<le> 0" by (simp add: floor_le_zero)
  show ?thesis
  proof (cases "\<lfloor>r\<rfloor> = 0")
    case True
    then have "0 \<le> r" by (metis of_int_0 of_int_floor_le)
    with r have "r = 0" by simp
    then show ?thesis by (simp add: round_half_even_def)
  next
    case False
    with f have "\<lfloor>r\<rfloor> + 1 \<le> 0" by linarith
    with f show ?thesis unfolding round_half_even_def Let_def by (simp only: split: if_split) simp
  qed
qed

lemma ulp_at:
  assumes "2 powi e \<le> \<bar>x\<bar>" "\<bar>x\<bar> < 2 powi (e + 1)" "- 1022 \<le> e" "e \<le> 1023"
  shows "ulp x = 2 powi (e - 52)"
  by (simp only: ulp_def binade_eq [OF assms])

lemma overflow_threshold_pos: "0 < overflow_threshold"
  by (simp add: overflow_threshold_def)

lemma round_double_Finite:
  assumes "round_half_even (x / ulp x) = z" "\<bar>of_int z * ulp x\<bar> < overflow_threshold"
  shows "round_double x = Finite (of_int z * ulp x)"
  using assms by (simp add: round_double_def Let_def)

lemma round_double_at:
  assumes "2 powi e \<le> \<bar>x\<bar>" "\<bar>x\<bar> < 2 powi (e + 1)" "- 1022 \<le> e" "e \<le> 1023"
    and "round_half_even (x / 2 powi (e - 52)) = z"
    and "\<bar>of_int z * 2 powi (e - 52)\<bar> < overflow_threshold"
  shows "round_double x = Finite (of_int z * 2 powi (e - 52))"
  using assms(5,6) round_double_Finite [of x z] by (simp only: ulp_at [OF assms(1-4)])

lemma round_half_even_zero [simp]: "round_half_even 0 = 0"
  by (simp add: round_half_even_def)

lemma round_double_zero [simp]: "round_double 0 = Finite 0"
  using overflow_threshold_pos round_double_Finite [of 0 0] by simp

lemma round_half_even_small:
  assumes "\<bar>r\<bar> < 1 / 2"
  shows "round_half_even r = 0"
proof (cases "0 \<le> r")
  case True
  with assms have "\<lfloor>r\<rfloor> = 0" by (intro floor_unique) simp_all
  with assms True show ?thesis by (simp add: round_half_even_def)
next
  case False
  with assms have "\<lfloor>r\<rfloor> = - 1" by (intro floor_unique) simp_all
  with assms False show ?thesis by (simp add: round_half_even_def)
qed

lemma round_double_underflow:
  assumes "\<bar>x\<bar> < 2 powi (- 1075)"
  shows "round_double x = Finite 0"
proof -
  have "(2::real) powi (- 1075) \<le> 2 powi (- 1022)"
    by (intro power_int_increasing) simp_all
  with assms have b: "ulp x = 2 powi (- 1074)"
    unfolding ulp_def by (subst binade_subnormal) simp_all
  have "\<bar>x / 2 powi (- 1074)\<bar> = \<bar>x\<bar> * 2 powi 1074"
    by (simp only: power_int_minus abs_divide abs_inverse divide_inverse inverse_inverse_eq)
       simp
  also have "\<dots> < 2 powi (- 1075) * 2 powi 1074"
    using assms by (intro mult_strict_right_mono) simp_all
  also have "\<dots> = 2 powi (- 1075 + 1074)"
    by (subst power_int_add) simp_all
  also have "\<dots> = 1 / 2" by simp
  finally have "round_half_even (x / 2 powi (- 1074)) = 0"
    by (rule round_half_even_small)
  then have "round_half_even (x / ulp x) = 0"
    by (simp only: b)
  from round_double_Finite [OF this] overflow_threshold_pos show ?thesis
    by simp
qed

lemma ulp_pos: "0 < ulp x"
  by (simp add: ulp_def)

lemma ulp_split: "2 powi (binade x - 53) = ulp x / 2"
proof -
  have "(2::real) powi (binade x - 52) = 2 powi ((binade x - 53) + 1)" by simp
  also have "\<dots> = 2 powi (binade x - 53) * 2"
    by (rule power_int_add_1) simp
  finally show ?thesis by (simp add: ulp_def)
qed

lemma ulp_half_normal:
  assumes "2 powi (- 1022) \<le> \<bar>x\<bar>"
  shows "ulp x / 2 \<le> unit_roundoff * \<bar>x\<bar>"
proof -
  have low: "2 powi (binade x) \<le> \<bar>x\<bar>"
    using binade_lower [of x] assms by auto
  have "ulp x / 2 = 2 powi (binade x + (- 53))"
    using ulp_split [of x] by simp
  also have "\<dots> = 2 powi (binade x) * 2 powi (- 53)"
    by (rule power_int_add) simp
  also have "\<dots> \<le> \<bar>x\<bar> * 2 powi (- 53)"
    using low by (intro mult_right_mono) simp_all
  finally show ?thesis by (simp add: unit_roundoff_def mult.commute)
qed

lemma ulp_half_le: "ulp x / 2 \<le> unit_roundoff * \<bar>x\<bar> + underflow_unit"
proof (cases "2 powi (- 1022) \<le> \<bar>x\<bar>")
  case True
  have "0 \<le> underflow_unit" by (simp add: underflow_unit_def)
  with ulp_half_normal [OF True] show ?thesis by linarith
next
  case False
  then have "binade x = - 1022" by (intro binade_subnormal) simp
  then have "ulp x / 2 = underflow_unit"
    using ulp_split [of x] by (simp add: underflow_unit_def)
  moreover have "0 \<le> unit_roundoff * \<bar>x\<bar>" by (simp add: unit_roundoff_def)
  ultimately show ?thesis by linarith
qed

lemma ulp_le_top: "ulp x \<le> 2 powi 971"
proof -
  have "binade x - 52 \<le> 971" using binade_range(2) [of x] by simp
  then show ?thesis unfolding ulp_def by (intro power_int_increasing) simp_all
qed

lemma rounded_near: "\<bar>of_int (round_half_even (x / ulp x)) * ulp x - x\<bar> \<le> ulp x / 2"
proof -
  have "of_int (round_half_even (x / ulp x)) * ulp x - x =
        (of_int (round_half_even (x / ulp x)) - x / ulp x) * ulp x"
    using ulp_pos [of x] by (simp add: field_simps)
  then have "\<bar>of_int (round_half_even (x / ulp x)) * ulp x - x\<bar> =
        \<bar>of_int (round_half_even (x / ulp x)) - x / ulp x\<bar> * ulp x"
    using ulp_pos [of x] by (simp add: abs_mult)
  also have "\<dots> \<le> (1 / 2) * ulp x"
    using round_half_even_near [of "x / ulp x"] ulp_pos [of x]
    by (intro mult_right_mono) simp_all
  finally show ?thesis by simp
qed

lemma round_double_cases:
  "(round_double x = PosInf \<and> 0 < x) \<or> (round_double x = NegInf \<and> x < 0) \<or>
   (round_double x = Finite (of_int (round_half_even (x / ulp x)) * ulp x) \<and>
    \<bar>of_int (round_half_even (x / ulp x)) * ulp x\<bar> < overflow_threshold)"
proof (cases "x = 0")
  case True
  then show ?thesis using overflow_threshold_pos by (simp add: round_double_def Let_def)
next
  case False
  then show ?thesis by (auto simp add: round_double_def Let_def)
qed

lemma round_double_finite:
  assumes "\<bar>x\<bar> \<le> 2 powi 1023"
  shows "\<exists>y. round_double x = Finite y \<and> \<bar>y - x\<bar> \<le> ulp x / 2"
proof -
  let ?y = "of_int (round_half_even (x / ulp x)) * ulp x"
  have near: "\<bar>?y - x\<bar> \<le> ulp x / 2" by (rule rounded_near)
  have "\<bar>?y\<bar> \<le> \<bar>x\<bar> + ulp x / 2" using near by linarith
  also have "\<dots> \<le> 2 powi 1023 + 2 powi 971 / 2"
    using assms ulp_le_top [of x] by linarith
  also have "\<dots> < overflow_threshold"
    by (simp add: overflow_threshold_def)
  finally have "round_double x = Finite ?y"
    by (simp add: round_double_def Let_def)
  with near show ?thesis by blast
qed

lemma round_double_nonneg:
  assumes "0 \<le> x"
  shows "round_double x = PosInf \<or> (\<exists>y. round_double x = Finite y \<and> 0 \<le> y)"
proof -
  have "0 \<le> x / ulp x" using assms ulp_pos [of x] by simp
  then have "0 \<le> round_half_even (x / ulp x)" by (rule round_half_even_nonneg)
  then have "0 \<le> real_of_int (round_half_even (x / ulp x)) * ulp x"
    using ulp_pos [of x] by simp
  with round_double_cases [of x] assms show ?thesis by auto
qed

lemma round_double_nonpos:
  assumes "x \<le> 0"
  shows "round_double x = NegInf \<or> (\<exists>y. round_double x = Finite y \<and> y \<le> 0)"
proof -
  have "x / ulp x \<le> 0" using assms ulp_pos [of x] by (simp add: divide_le_0_iff)
  then have "round_half_even (x / ulp x) \<le> 0" by (rule round_half_even_nonpos)
  then have "real_of_int (round_half_even (x / ulp x)) * ulp x \<le> 0"
    using ulp_pos [of x] by (simp add: mult_le_0_iff)
  with round_double_cases [of x] assms show ?thesis by auto
qed

lemma round_double_overflow:
  assumes "overflow_threshold \<le> x"
  shows "round_double x = PosInf"
proof -
  have pos: "0 < x" using assms overflow_threshold_pos by linarith
  have "ulp x / 2 \<le> x"
  proof -
    have "ulp x / 2 \<le> 2 powi 971" using ulp_le_top [of x] ulp_pos [of x] by linarith
    also have "\<dots> \<le> overflow_threshold"
      unfolding overflow_threshold_def by (intro power_int_increasing) simp_all
    finally show ?thesis using assms by linarith
  qed
  have b: "binade x = 1023"
  proof -
    have "\<not> \<bar>x\<bar> < 2 powi (binade x + 1)"
    proof
      assume "\<bar>x\<bar> < 2 powi (binade x + 1)"
      moreover have "(2::real) powi (binade x + 1) \<le> 2 powi 1024"
        using binade_range(2) [of x] by (intro power_int_increasing) simp_all
      ultimately show False using assms by (simp add: overflow_threshold_def)
    qed
    with binade_upper [of x] show ?thesis by blast
  qed
  have u: "ulp x = 2 powi 971" by (simp add: ulp_def b)
  have "overflow_threshold / ulp x = 2 powi (1024 - 971)"
    unfolding u overflow_threshold_def by (subst power_int_diff) simp_all
  then have q: "overflow_threshold / ulp x = of_int (2 ^ 53)" by simp
  have "overflow_threshold / ulp x \<le> x / ulp x"
    using assms ulp_pos [of x] by (intro divide_right_mono) simp_all
  then have "of_int (2 ^ 53) \<le> x / ulp x" by (simp only: q)
  then have "(2 ^ 53 :: int) \<le> \<lfloor>x / ulp x\<rfloor>" by (simp only: le_floor_iff)
  moreover have "\<lfloor>x / ulp x\<rfloor> \<le> round_half_even (x / ulp x)"
    by (simp add: round_half_even_def Let_def)
  ultimately have "(2 ^ 53 :: int) \<le> round_half_even (x / ulp x)" by linarith
  then have "of_int (2 ^ 53) \<le> real_of_int (round_half_even (x / ulp x))"
    by (simp only: of_int_le_iff)
  then have "of_int (2 ^ 53) * ulp x \<le> real_of_int (round_half_even (x / ulp x)) * ulp x"
    using ulp_pos [of x] by (intro mult_right_mono) simp_all
  moreover have "of_int (2 ^ 53) * ulp x = overflow_threshold"
    using q ulp_pos [of x] by (simp add: field_simps)
  ultimately have "overflow_threshold \<le> \<bar>real_of_int (round_half_even (x / ulp x)) * ulp x\<bar>"
    by linarith
  with pos show ?thesis by (simp add: round_double_def Let_def)
qed

section \<open>The vector kernel on doubles never raises\<close>

lemma not_negative_round: "0 \<le> x \<Longrightarrow> not_negative (round_double x)"
  using round_double_nonneg [of x] by auto

lemma not_negative_square: "not_negative (dmul a a)"
  by (cases a) (simp_all add: not_negative_round)

lemma not_negative_sum: "not_negative a \<Longrightarrow> not_negative b \<Longrightarrow> not_negative (dadd a b)"
  by (cases a; cases b) (simp_all add: not_negative_round)

lemma dsqrt_not_negative:
  assumes "not_negative s"
  shows "\<exists>m. dsqrt s = Inr m \<and> not_negative m"
  using assms by (cases s) (simp_all add: not_negative_round)

lemma magnitude_d_returns: "\<exists>m. magnitude_d a = Inr m \<and> not_negative m"
  unfolding magnitude_d_def
  by (intro dsqrt_not_negative not_negative_sum not_negative_square)

lemma ddiv_returns: "\<not> deq m (Finite 0) \<Longrightarrow> \<exists>q. ddiv a m = Inr q"
  by (cases m; cases a) simp_all

lemma dless_zero_not_eq: "dless (Finite 0) m \<Longrightarrow> \<not> deq m (Finite 0)"
  by (cases m) simp_all

lemma normalized_d_returns: "\<exists>u. normalized_d a = Inr u"
proof -
  obtain m where m: "magnitude_d a = Inr m"
    using magnitude_d_returns [of a] by blast
  show ?thesis
  proof (cases "deq m (Finite 0)")
    case True
    with m show ?thesis by (simp add: normalized_d_def)
  next
    case False
    obtain p q where "ddiv (dx a) m = Inr p" "ddiv (dy a) m = Inr q"
      using ddiv_returns [OF False] by blast
    with m False show ?thesis by (simp add: normalized_d_def)
  qed
qed

lemma normalize_d_returns: "\<exists>u. normalize_d a = Inr u"
proof -
  obtain m where m: "magnitude_d a = Inr m"
    using magnitude_d_returns [of a] by blast
  show ?thesis
  proof (cases "dless (Finite 0) m")
    case True
    obtain p q where "ddiv (dx a) m = Inr p" "ddiv (dy a) m = Inr q"
      using ddiv_returns [OF dless_zero_not_eq [OF True]] by blast
    with m True show ?thesis by (simp add: normalize_d_def)
  next
    case False
    with m show ?thesis by (simp add: normalize_d_def)
  qed
qed

section \<open>Normalization of vectors\<close>

text \<open>
  In exact arithmetic both forms of the normalization return, for a vector other than zero,
  the vector \<open>u\<close> of magnitude 1 of which the argument is a positive multiple.
\<close>

lemma normalization_exact:
  "normalized (Vector2D 0 0) = Inr (Vector2D 0 0) \<and>
   normalize (Vector2D 0 0) = Inr (Vector2D 0 0) \<and>
   (a \<noteq> Vector2D 0 0 \<longrightarrow>
      (\<exists>u. normalized a = Inr u \<and> normalize a = Inr u \<and> magnitude u = 1 \<and>
           0 < magnitude a \<and> mul u (magnitude a) = a))"
proof (intro conjI impI)
  show "normalized (Vector2D 0 0) = Inr (Vector2D 0 0)"
    by (simp add: normalized_eq)
  show "normalize (Vector2D 0 0) = Inr (Vector2D 0 0)"
    by (simp add: normalize_eq)
next
  assume "a \<noteq> Vector2D 0 0"
  then have nz: "magnitude a \<noteq> 0"
    by (simp add: magnitude_eq_0_iff)
  then have pos: "0 < magnitude a"
    using magnitude_nonneg [of a] by linarith
  let ?u = "Vector2D (vx a / magnitude a) (vy a / magnitude a)"
  have "normalized a = Inr ?u" "normalize a = Inr ?u"
    using nz by (simp_all add: normalized_eq normalize_eq)
  moreover have "magnitude ?u = 1"
    using nz by (rule magnitude_scaled_unit)
  moreover have "mul ?u (magnitude a) = a"
    using nz by (rule scaled_unit_direction)
  ultimately show "\<exists>u. normalized a = Inr u \<and> normalize a = Inr u \<and> magnitude u = 1 \<and>
           0 < magnitude a \<and> mul u (magnitude a) = a"
    using pos by blast
qed

lemma magnitude_d_zero: "magnitude_d (DVector2D (Finite 0) (Finite 0)) = Inr (Finite 0)"
  by (simp add: magnitude_d_def)

lemma normalized_d_zero:
  "normalized_d (DVector2D (Finite 0) (Finite 0)) = Inr (DVector2D (Finite 0) (Finite 0))"
  by (simp add: normalized_d_def magnitude_d_zero)

lemma normalize_d_zero:
  "normalize_d (DVector2D (Finite 0) (Finite 0)) = Inr (DVector2D (Finite 0) (Finite 0))"
  by (simp add: normalize_d_def magnitude_d_zero)

text \<open>Underflow and overflow of the squares.\<close>

lemma square_underflows: "round_double (2 powi (- 600) * 2 powi (- 600)) = Finite 0"
proof -
  have "(2::real) powi (- 600) * 2 powi (- 600) = 2 powi (- 1200)"
    by (simp flip: power_int_add)
  moreover have "(2::real) powi (- 1200) < 2 powi (- 1075)"
    by (intro power_int_strict_increasing) simp_all
  ultimately show ?thesis
    by (intro round_double_underflow) simp
qed

lemma square_overflows: "round_double (2 powi 600 * 2 powi 600) = PosInf"
proof -
  have "(2::real) powi 600 * 2 powi 600 = 2 powi 1200"
    by (simp flip: power_int_add)
  moreover have "(2::real) powi 1024 \<le> 2 powi 1200"
    by (intro power_int_increasing) simp_all
  ultimately show ?thesis
    by (intro round_double_overflow) (simp add: overflow_threshold_def)
qed



section \<open>Circle against circle\<close>

lemma magnitude_sub_swap: "magnitude (sub b a) = distance_to a b"
  by (simp add: distance_to_def magnitude_def sub_def Let_def algebra_simps)

lemma circle_circle_collision_eq:
  assumes "h a = ACircle ca" "h b = ACircle cb"
  shows "circle_circle_collision h a b =
     (let d = distance_to (position ca) (position cb);
          n = Vector2D ((vx (position cb) - vx (position ca)) / d)
                       ((vy (position cb) - vy (position ca)) / d)
      in Inr (if 0 < d \<and> d < radius ca + radius cb
              then Some \<lparr> body_a = a, body_b = b,
                     contact_point = add (position ca) (mul n (radius ca)),
                     normal = n, penetration = radius ca + radius cb - d,
                     collision_type = ''circle-circle'', metadata = [] \<rparr>
              else None))"
  using assms magnitude_sub_swap [of "position cb" "position ca"]
  by (auto simp add: circle_circle_collision_def normalized_eq Let_def sub_def)

text \<open>
  Claim C5. For two circles the test never raises. It returns a contact exactly when
  \<open>0 < d < r\<^sub>A + r\<^sub>B\<close>, where \<open>d\<close> is the distance of the centres; the contact has the
  normalized vector from the centre of A to the centre of B as normal, the penetration
  \<open>r\<^sub>A + r\<^sub>B - d\<close> and the contact point \<open>centre\<^sub>A + normal * r\<^sub>A\<close>. In every other case,
  and so when the centres coincide, the result is \<^verbatim>\<open>None\<close>.
\<close>

theorem circle_circle_contact:
  assumes "h a = ACircle ca" and "h b = ACircle cb"
  shows
    "(0 < distance_to (position ca) (position cb) \<and>
      distance_to (position ca) (position cb) < radius ca + radius cb \<longrightarrow>
        (\<exists>c. circle_circle_collision h a b = Inr (Some c) \<and>
             body_a c = a \<and> body_b c = b \<and>
             normalized (sub (position cb) (position ca)) = Inr (normal c) \<and>
             penetration c = radius ca + radius cb - distance_to (position ca) (position cb) \<and>
             contact_point c = add (position ca) (mul (normal c) (radius ca)))) \<and>
     (\<not> (0 < distance_to (position ca) (position cb) \<and>
         distance_to (position ca) (position cb) < radius ca + radius cb) \<longrightarrow>
        circle_circle_collision h a b = Inr None) \<and>
     (distance_to (position ca) (position cb) = 0 \<longrightarrow> circle_circle_collision h a b = Inr None)"
proof -
  let ?d = "distance_to (position ca) (position cb)"
  have eq: "magnitude (sub (position cb) (position ca)) = ?d"
    by (rule magnitude_sub_swap)
  show ?thesis
    using eq by (simp add: circle_circle_collision_eq [OF assms] Let_def normalized_eq sub_def)
qed

theorem circle_circle_contact_witness:
  "(\<exists>c. circle_circle_collision
          ((\<lambda>_. ACircle (make_circle (Vector2D 0 0) (Vector2D 0 0) 5 1 False))
             (1 := ACircle (make_circle (Vector2D 8 0) (Vector2D 0 0) 5 1 False))) 0 1
        = Inr (Some c) \<and> normal c = Vector2D 1 0 \<and> penetration c = 2 \<and>
        contact_point c = Vector2D 5 0)"
proof -
  let ?ca = "make_circle (Vector2D 0 0) (Vector2D 0 0) 5 1 False"
  let ?cb = "make_circle (Vector2D 8 0) (Vector2D 0 0) 5 1 False"
  let ?h = "(\<lambda>_::nat. ACircle ?ca)(1 := ACircle ?cb)"
  have d: "distance_to (position ?ca) (position ?cb) = 8"
    by (simp add: make_circle_def distance_to_def)
  have "?h 0 = ACircle ?ca" "?h 1 = ACircle ?cb"
    by simp_all
  then have "0 < distance_to (position ?ca) (position ?cb) \<and>
      distance_to (position ?ca) (position ?cb) < radius ?ca + radius ?cb \<longrightarrow>
        (\<exists>c. circle_circle_collision ?h 0 1 = Inr (Some c) \<and>
             body_a c = 0 \<and> body_b c = 1 \<and>
             normalized (sub (position ?cb) (position ?ca)) = Inr (normal c) \<and>
             penetration c = radius ?ca + radius ?cb - distance_to (position ?ca) (position ?cb) \<and>
             contact_point c = add (position ?ca) (mul (normal c) (radius ?ca)))"
    by (rule circle_circle_contact [THEN conjunct1])
  moreover have "0 < distance_to (position ?ca) (position ?cb) \<and>
      distance_to (position ?ca) (position ?cb) < radius ?ca + radius ?cb"
    unfolding d by (simp add: make_circle_def)
  ultimately obtain c where c: "circle_circle_collision ?h 0 1 = Inr (Some c)"
      "normalized (sub (position ?cb) (position ?ca)) = Inr (normal c)"
      "penetration c = radius ?ca + radius ?cb - distance_to (position ?ca) (position ?cb)"
      "contact_point c = add (position ?ca) (mul (normal c) (radius ?ca))"
    by blast
  have n: "normal c = Vector2D 1 0"
    using c(2) by (simp add: normalized_eq make_circle_def sub_def)
  have "penetration c = 2" "contact_point c = Vector2D 5 0"
    using c(3,4) n d by (simp_all add: make_circle_def add_def mul_def)
  with c(1) n show ?thesis by blast
qed

section \<open>Continuous collision detection\<close>

lemma bisect_between:
  "t_min < t_max \<Longrightarrow>
     t_min < bisect k ca cb rs t_min t_max \<and> bisect k ca cb rs t_min t_max < t_max"
proof (induction k arbitrary: t_min t_max)
  case 0
  then show ?case by simp
next
  case (Suc k)
  let ?mid = "(t_min + t_max) / 2"
  have mid: "t_min < ?mid" "?mid < t_max"
    using Suc.prems by simp_all
  have up: "t_min < bisect k ca cb rs ?mid t_max \<and> bisect k ca cb rs ?mid t_max < t_max"
    using Suc.IH [of ?mid t_max] mid by linarith
  have lo: "t_min < bisect k ca cb rs t_min ?mid \<and> bisect k ca cb rs t_min ?mid < t_max"
    using Suc.IH [of t_min ?mid] mid by linarith
  have fin_up: "t_min < (?mid + t_max) / 2" "(?mid + t_max) / 2 < t_max"
    and fin_lo: "t_min < (t_min + ?mid) / 2" "(t_min + ?mid) / 2 < t_max"
    using Suc.prems by (simp_all add: field_simps)
  show ?case
    unfolding bisect.simps Let_def
    using mid up lo fin_up fin_lo by (simp only: split: if_split) blast
qed

lemma distance_at_continuous: "continuous_on S (distance_at ca cb)"
proof -
  have "distance_at ca cb =
      (\<lambda>t. sqrt ((vx (position ca) + vx (velocity ca) * t - (vx (position cb) + vx (velocity cb) * t)) *
                  (vx (position ca) + vx (velocity ca) * t - (vx (position cb) + vx (velocity cb) * t)) +
                  (vy (position ca) + vy (velocity ca) * t - (vy (position cb) + vy (velocity cb) * t)) *
                  (vy (position ca) + vy (velocity ca) * t - (vy (position cb) + vy (velocity cb) * t))))"
    by (simp add: fun_eq_iff distance_at_def distance_to_def Let_def add_def mul_def)
  then show ?thesis
    by (simp only:) (intro continuous_intros)
qed

lemma distance_at_crossing:
  assumes "t_min \<le> t_max" "rs \<le> distance_at ca cb t_min" "distance_at ca cb t_max \<le> rs"
  shows "\<exists>ts. t_min \<le> ts \<and> ts \<le> t_max \<and> distance_at ca cb ts = rs"
  using assms(3) assms(2) assms(1) distance_at_continuous by (rule IVT2')

lemma bisect_step:
  "bisect (Suc k) ca cb rs t_min t_max =
     (let t_mid = (t_min + t_max) / 2; d = distance_at ca cb t_mid
      in if \<bar>d - rs\<bar> < tolerance then t_mid
         else
           let t_min' = (if d > rs then t_mid else t_min);
               t_max' = (if d > rs then t_max else t_mid)
           in if t_max' - t_min' < tolerance then (t_min' + t_max') / 2
              else bisect k ca cb rs t_min' t_max')"
  by (simp add: distance_at_def Let_def)

lemma midpoint_near:
  fixes lo hi ts :: real
  assumes "lo \<le> ts" "ts \<le> hi"
  shows "\<bar>(lo + hi) / 2 - ts\<bar> \<le> (hi - lo) / 2"
  using assms by (simp add: abs_le_iff field_simps)

lemma bisect_converges:
  assumes "t_min < t_max" "rs \<le> distance_at ca cb t_min" "distance_at ca cb t_max < rs"
  shows "\<bar>distance_at ca cb (bisect k ca cb rs t_min t_max) - rs\<bar> < tolerance \<or>
         (\<exists>ts. t_min \<le> ts \<and> ts \<le> t_max \<and> distance_at ca cb ts = rs \<and>
               (\<bar>bisect k ca cb rs t_min t_max - ts\<bar> < tolerance / 2 \<or>
                \<bar>bisect k ca cb rs t_min t_max - ts\<bar> \<le> (t_max - t_min) / 2 ^ (k + 1)))"
  using assms
proof (induction k arbitrary: t_min t_max)
  case 0
  obtain ts where ts: "t_min \<le> ts" "ts \<le> t_max" "distance_at ca cb ts = rs"
    using distance_at_crossing [of t_min t_max rs ca cb] "0.prems" by auto
  have "\<bar>(t_min + t_max) / 2 - ts\<bar> \<le> (t_max - t_min) / 2"
    using ts(1,2) by (rule midpoint_near)
  with ts show ?case by auto
next
  case (Suc k)
  define t_mid where "t_mid = (t_min + t_max) / 2"
  define d where "d = distance_at ca cb t_mid"
  define lo where "lo = (if d > rs then t_mid else t_min)"
  define hi where "hi = (if d > rs then t_max else t_mid)"
  have step: "bisect (Suc k) ca cb rs t_min t_max =
      (if \<bar>d - rs\<bar> < tolerance then t_mid
       else if hi - lo < tolerance then (lo + hi) / 2 else bisect k ca cb rs lo hi)"
    unfolding bisect_step Let_def lo_def hi_def d_def t_mid_def by (rule refl)
  show ?case
  proof (cases "\<bar>d - rs\<bar> < tolerance")
    case True
    then have "bisect (Suc k) ca cb rs t_min t_max = t_mid"
      by (simp only: step if_True)
    with True show ?thesis by (simp only: d_def) simp
  next
    case False
    have tol: "0 < tolerance" by (simp add: tolerance_def)
    have below: "d < rs" if "\<not> d > rs"
      using that False tol by linarith
    have order: "lo < hi" "t_min \<le> lo" "hi \<le> t_max" and len: "hi - lo = (t_max - t_min) / 2"
      using Suc.prems(1) by (simp_all add: lo_def hi_def t_mid_def field_simps)
    have ends: "rs \<le> distance_at ca cb lo" "distance_at ca cb hi < rs"
      using Suc.prems(2,3) below by (auto simp add: lo_def hi_def d_def)
    have unfold: "bisect (Suc k) ca cb rs t_min t_max =
        (if hi - lo < tolerance then (lo + hi) / 2 else bisect k ca cb rs lo hi)"
      using False by (simp only: step if_False)
    show ?thesis
    proof (cases "hi - lo < tolerance")
      case True
      obtain ts where ts: "lo \<le> ts" "ts \<le> hi" "distance_at ca cb ts = rs"
        using distance_at_crossing [of lo hi rs ca cb] order(1) ends by auto
      have "\<bar>(lo + hi) / 2 - ts\<bar> \<le> (hi - lo) / 2"
        using ts(1,2) by (rule midpoint_near)
      moreover have "(hi - lo) / 2 < tolerance / 2" using True by simp
      ultimately have "\<bar>(lo + hi) / 2 - ts\<bar> < tolerance / 2" by (rule le_less_trans)
      moreover have "t_min \<le> ts" "ts \<le> t_max"
        using ts(1,2) order(2,3) by linarith+
      ultimately show ?thesis
        unfolding unfold using True ts(3) by auto
    next
      case long: False
      from Suc.IH [OF order(1) ends]
      show ?thesis
      proof
        assume "\<bar>distance_at ca cb (bisect k ca cb rs lo hi) - rs\<bar> < tolerance"
        then show ?thesis unfolding unfold using long by simp
      next
        assume "\<exists>ts. lo \<le> ts \<and> ts \<le> hi \<and> distance_at ca cb ts = rs \<and>
               (\<bar>bisect k ca cb rs lo hi - ts\<bar> < tolerance / 2 \<or>
                \<bar>bisect k ca cb rs lo hi - ts\<bar> \<le> (hi - lo) / 2 ^ (k + 1))"
        then obtain ts where ts: "lo \<le> ts" "ts \<le> hi" "distance_at ca cb ts = rs"
            "\<bar>bisect k ca cb rs lo hi - ts\<bar> < tolerance / 2 \<or>
             \<bar>bisect k ca cb rs lo hi - ts\<bar> \<le> (hi - lo) / 2 ^ (k + 1)"
          by blast
        have "(hi - lo) / 2 ^ (k + 1) = (t_max - t_min) / 2 ^ (Suc k + 1)"
          by (simp add: len)
        with ts(4) have "\<bar>bisect k ca cb rs lo hi - ts\<bar> < tolerance / 2 \<or>
             \<bar>bisect k ca cb rs lo hi - ts\<bar> \<le> (t_max - t_min) / 2 ^ (Suc k + 1)"
          by simp
        moreover have "t_min \<le> ts" "ts \<le> t_max"
          using ts(1,2) order(2,3) by linarith+
        ultimately show ?thesis
          unfolding unfold using long ts(3) by auto
      qed
    qed
  qed
qed

lemma distance_at_start: "distance_at ca cb 0 = distance_to (position ca) (position cb)"
  by (simp add: distance_at_def add_def mul_def)

text \<open>
  Claim C6. Take two circles and a positive step \<open>dt\<close>. If they do not overlap at time 0
  (distance of the centres at least \<open>r\<^sub>A + r\<^sub>B\<close>) and overlap at time \<open>dt\<close> (distance of the
  advanced centres below \<open>r\<^sub>A + r\<^sub>B\<close>), the swept test returns a contact of penetration 0
  whose metadata hold the time \<open>t\<close> computed by the bisection of at most 20 rounds with
  tolerance \<open>10\<^sup>-\<^sup>6\<close> started on \<open>[0, dt]\<close>. That time lies strictly between 0 and \<open>dt\<close>, and it
  is a time of impact up to the two bounds of the search: either the distance of the centres
  at \<open>t\<close> differs from \<open>r\<^sub>A + r\<^sub>B\<close> by less than the tolerance, or there is an instant \<open>t\<^sup>*\<close> in
  \<open>[0, dt)\<close> at which the distance of the centres is exactly \<open>r\<^sub>A + r\<^sub>B\<close> and \<open>t\<close> is within half
  the tolerance, or within \<open>dt / 2\<^sup>2\<^sup>1\<close>, of it. If the circles overlap at time 0, or do not
  overlap at time \<open>dt\<close>, the result is \<^verbatim>\<open>None\<close>.
\<close>

theorem ccd_time_of_impact:
  assumes "h a = ACircle ca" and "h b = ACircle cb"
  shows
    "(radius ca + radius cb \<le> distance_to (position ca) (position cb) \<and>
      distance_to (add (position ca) (mul (velocity ca) dt))
                  (add (position cb) (mul (velocity cb) dt)) < radius ca + radius cb \<and>
      0 < dt \<longrightarrow>
        (\<exists>c t. circle_circle_ccd h a b dt = Inr (Some c) \<and> penetration c = 0 \<and>
               metadata c = [(''collision_time'', MetaFloat t)] \<and>
               t = bisect max_iterations ca cb (radius ca + radius cb) 0 dt \<and>
               0 < t \<and> t < dt \<and>
               (\<bar>distance_at ca cb t - (radius ca + radius cb)\<bar> < tolerance \<or>
                (\<exists>ts. 0 \<le> ts \<and> ts < dt \<and> distance_at ca cb ts = radius ca + radius cb \<and>
                      (\<bar>t - ts\<bar> < tolerance / 2 \<or>
                       \<bar>t - ts\<bar> \<le> dt / 2 ^ (max_iterations + 1)))))) \<and>
     (distance_to (position ca) (position cb) < radius ca + radius cb \<or>
      radius ca + radius cb \<le> distance_to (add (position ca) (mul (velocity ca) dt))
                  (add (position cb) (mul (velocity cb) dt)) \<longrightarrow>
        circle_circle_ccd h a b dt = Inr None)"
proof (intro conjI impI)
  assume pre: "radius ca + radius cb \<le> distance_to (position ca) (position cb) \<and>
      distance_to (add (position ca) (mul (velocity ca) dt))
                  (add (position cb) (mul (velocity cb) dt)) < radius ca + radius cb \<and>
      0 < dt"
  define rs where "rs = radius ca + radius cb"
  define t where "t = bisect max_iterations ca cb rs 0 dt"
  have t: "0 < t" "t < dt"
    using pre bisect_between [of 0 dt max_iterations ca cb rs] by (simp_all add: t_def)
  have ends: "rs \<le> distance_at ca cb 0" "distance_at ca cb dt < rs"
    using pre by (simp_all add: distance_at_start rs_def) (simp add: distance_at_def)
  have "\<bar>distance_at ca cb t - rs\<bar> < tolerance \<or>
        (\<exists>ts. 0 \<le> ts \<and> ts \<le> dt \<and> distance_at ca cb ts = rs \<and>
              (\<bar>t - ts\<bar> < tolerance / 2 \<or> \<bar>t - ts\<bar> \<le> (dt - 0) / 2 ^ (max_iterations + 1)))"
    unfolding t_def using pre ends by (intro bisect_converges) simp_all
  then have near: "\<bar>distance_at ca cb t - rs\<bar> < tolerance \<or>
        (\<exists>ts. 0 \<le> ts \<and> ts < dt \<and> distance_at ca cb ts = rs \<and>
              (\<bar>t - ts\<bar> < tolerance / 2 \<or> \<bar>t - ts\<bar> \<le> dt / 2 ^ (max_iterations + 1)))"
  proof
    assume "\<bar>distance_at ca cb t - rs\<bar> < tolerance"
    then show ?thesis ..
  next
    assume "\<exists>ts. 0 \<le> ts \<and> ts \<le> dt \<and> distance_at ca cb ts = rs \<and>
              (\<bar>t - ts\<bar> < tolerance / 2 \<or> \<bar>t - ts\<bar> \<le> (dt - 0) / 2 ^ (max_iterations + 1))"
    then obtain ts where ts: "0 \<le> ts" "ts \<le> dt" "distance_at ca cb ts = rs"
        "\<bar>t - ts\<bar> < tolerance / 2 \<or> \<bar>t - ts\<bar> \<le> dt / 2 ^ (max_iterations + 1)"
      by auto
    have "ts \<noteq> dt" using ts(3) ends(2) by auto
    with ts(2) have "ts < dt" by simp
    with ts(1,3,4) show ?thesis by blast
  qed
  have "\<exists>c. circle_circle_ccd h a b dt = Inr (Some c) \<and> penetration c = 0 \<and>
               metadata c = [(''collision_time'', MetaFloat t)]"
    using assms pre
    by (simp add: circle_circle_ccd_def binary_search_collision_time_def Let_def normalized_eq
          t_def rs_def)
  then obtain c where c: "circle_circle_ccd h a b dt = Inr (Some c)" "penetration c = 0"
      "metadata c = [(''collision_time'', MetaFloat t)]"
    by blast
  show "\<exists>c t. circle_circle_ccd h a b dt = Inr (Some c) \<and> penetration c = 0 \<and>
               metadata c = [(''collision_time'', MetaFloat t)] \<and>
               t = bisect max_iterations ca cb (radius ca + radius cb) 0 dt \<and>
               0 < t \<and> t < dt \<and>
               (\<bar>distance_at ca cb t - (radius ca + radius cb)\<bar> < tolerance \<or>
                (\<exists>ts. 0 \<le> ts \<and> ts < dt \<and> distance_at ca cb ts = radius ca + radius cb \<and>
                      (\<bar>t - ts\<bar> < tolerance / 2 \<or>
                       \<bar>t - ts\<bar> \<le> dt / 2 ^ (max_iterations + 1))))"
    using c t near unfolding rs_def [symmetric] t_def [symmetric]
    by (intro exI [of _ c] exI [of _ t] conjI) (simp_all add: t_def rs_def)
next
  assume "distance_to (position ca) (position cb) < radius ca + radius cb \<or>
      radius ca + radius cb \<le> distance_to (add (position ca) (mul (velocity ca) dt))
                  (add (position cb) (mul (velocity cb) dt))"
  then show "circle_circle_ccd h a b dt = Inr None"
    using assms by (auto simp add: circle_circle_ccd_def Let_def)
qed

lemma closing_circles_distance:
  "distance_at (make_circle (Vector2D 0 0) (Vector2D 100 0) 10 1 False)
               (make_circle (Vector2D 100 0) (Vector2D (- 100) 0) 10 1 False) t =
   \<bar>200 * t - 100\<bar>"
proof -
  have "(100 * t - (100 - 100 * t)) * (100 * t - (100 - 100 * t)) =
        (200 * t - 100) * (200 * t - 100)"
    by (simp add: algebra_simps)
  then show ?thesis
    by (simp add: distance_at_def distance_to_def Let_def add_def mul_def)
qed

theorem ccd_time_of_impact_witness:
  "(\<exists>c t. circle_circle_ccd
            ((\<lambda>_. ACircle (make_circle (Vector2D 0 0) (Vector2D 100 0) 10 1 False))
               (1 := ACircle (make_circle (Vector2D 100 0) (Vector2D (- 100) 0) 10 1 False)))
            0 1 (1 / 2) = Inr (Some c) \<and>
          penetration c = 0 \<and> metadata c = [(''collision_time'', MetaFloat t)] \<and>
          0 < t \<and> t < 1 / 2 \<and> \<bar>t - 2 / 5\<bar> < 1 / 1000000) \<and>
   circle_circle_ccd
     ((\<lambda>_. ACircle (make_circle (Vector2D 0 0) (Vector2D 100 0) 10 1 False))
        (1 := ACircle (make_circle (Vector2D 100 0) (Vector2D (- 100) 0) 10 1 False)))
     0 1 (1 / 10) = Inr None"
proof -
  let ?ca = "make_circle (Vector2D 0 0) (Vector2D 100 0) 10 1 False"
  let ?cb = "make_circle (Vector2D 100 0) (Vector2D (- 100) 0) 10 1 False"
  let ?h = "(\<lambda>_::nat. ACircle ?ca)(1 := ACircle ?cb)"
  have hs: "?h 0 = ACircle ?ca" "?h 1 = ACircle ?cb"
    by simp_all
  have pre: "radius ?ca + radius ?cb \<le> distance_to (position ?ca) (position ?cb) \<and>
      distance_to (add (position ?ca) (mul (velocity ?ca) (1 / 2)))
                  (add (position ?cb) (mul (velocity ?cb) (1 / 2))) < radius ?ca + radius ?cb \<and>
      (0::real) < 1 / 2"
    by (simp add: add_def mul_def)
  have far: "distance_to (position ?ca) (position ?cb) < radius ?ca + radius ?cb \<or>
      radius ?ca + radius ?cb \<le> distance_to (add (position ?ca) (mul (velocity ?ca) (1 / 10)))
                  (add (position ?cb) (mul (velocity ?cb) (1 / 10)))"
    by (simp add: add_def mul_def)
  have "\<exists>c t. circle_circle_ccd ?h 0 1 (1 / 2) = Inr (Some c) \<and> penetration c = 0 \<and>
               metadata c = [(''collision_time'', MetaFloat t)] \<and>
               t = bisect max_iterations ?ca ?cb (radius ?ca + radius ?cb) 0 (1 / 2) \<and>
               0 < t \<and> t < 1 / 2 \<and>
               (\<bar>distance_at ?ca ?cb t - (radius ?ca + radius ?cb)\<bar> < tolerance \<or>
                (\<exists>ts. 0 \<le> ts \<and> ts < 1 / 2 \<and> distance_at ?ca ?cb ts = radius ?ca + radius ?cb \<and>
                      (\<bar>t - ts\<bar> < tolerance / 2 \<or>
                       \<bar>t - ts\<bar> \<le> (1 / 2) / 2 ^ (max_iterations + 1))))"
    using ccd_time_of_impact [OF hs, of "1 / 2", THEN conjunct1] pre by blast
  then obtain c t where c: "circle_circle_ccd ?h 0 1 (1 / 2) = Inr (Some c)" "penetration c = 0"
      "metadata c = [(''collision_time'', MetaFloat t)]" "0 < t" "t < 1 / 2"
    and near: "\<bar>\<bar>200 * t - 100\<bar> - 20\<bar> < 1 / 1000000 \<or>
                (\<exists>ts. 0 \<le> ts \<and> ts < 1 / 2 \<and> \<bar>200 * ts - 100\<bar> = 20 \<and>
                      (\<bar>t - ts\<bar> < 1 / 2000000 \<or> \<bar>t - ts\<bar> \<le> 1 / 4194304))"
    unfolding closing_circles_distance
    by (auto simp add: make_circle_def tolerance_def max_iterations_def)
  from near have "\<bar>t - 2 / 5\<bar> < 1 / 1000000"
  proof
    assume "\<bar>\<bar>200 * t - 100\<bar> - 20\<bar> < 1 / 1000000"
    with c(4,5) show ?thesis by (simp add: abs_if split: if_splits)
  next
    assume "\<exists>ts. 0 \<le> ts \<and> ts < 1 / 2 \<and> \<bar>200 * ts - 100\<bar> = 20 \<and>
                      (\<bar>t - ts\<bar> < 1 / 2000000 \<or> \<bar>t - ts\<bar> \<le> 1 / 4194304)"
    then obtain ts where ts: "0 \<le> ts" "ts < 1 / 2" "\<bar>200 * ts - 100\<bar> = 20"
        "\<bar>t - ts\<bar> < 1 / 2000000 \<or> \<bar>t - ts\<bar> \<le> 1 / 4194304"
      by blast
    from ts(2,3) have "ts = 2 / 5" by (simp add: abs_if split: if_splits)
    with ts(4) show ?thesis by auto
  qed
  with c have "\<exists>c t. circle_circle_ccd ?h 0 1 (1 / 2) = Inr (Some c) \<and> penetration c = 0 \<and>
      metadata c = [(''collision_time'', MetaFloat t)] \<and> 0 < t \<and> t < 1 / 2 \<and>
      \<bar>t - 2 / 5\<bar> < 1 / 1000000"
    by blast
  moreover have "circle_circle_ccd ?h 0 1 (1 / 10) = Inr None"
    using ccd_time_of_impact [OF hs, of "1 / 10", THEN conjunct2] far by blast
  ultimately show ?thesis by blast
qed

section \<open>Facts about stores and in-place updates\<close>

lemma base_set [simp]:
  "base (set_position obj v) = (base obj)\<lparr>position := v\<rparr>"
  "base (set_velocity obj v) = (base obj)\<lparr>velocity := v\<rparr>"
  "base (set_acceleration obj v) = (base obj)\<lparr>acceleration := v\<rparr>"
  "base (set_forces obj fs) = (base obj)\<lparr>forces := fs\<rparr>"
  by (cases obj; simp add: base_def set_position_def set_velocity_def set_acceleration_def
        set_forces_def PhysicsBody.truncate_def)+

lemma base_inplace [simp]:
  "base (position_isub v obj) = (base obj)\<lparr>position := sub (position (base obj)) v\<rparr>"
  "base (position_iadd v obj) = (base obj)\<lparr>position := add (position (base obj)) v\<rparr>"
  "base (velocity_isub v obj) = (base obj)\<lparr>velocity := sub (velocity (base obj)) v\<rparr>"
  "base (velocity_iadd v obj) = (base obj)\<lparr>velocity := add (velocity (base obj)) v\<rparr>"
  by (simp_all add: position_isub_def position_iadd_def velocity_isub_def velocity_iadd_def)

lemma vec_simps [simp]:
  "vx (add u v) = vx u + vx v" "vy (add u v) = vy u + vy v"
  "vx (sub u v) = vx u - vx v" "vy (sub u v) = vy u - vy v"
  "vx (mul u k) = vx u * k" "vy (mul u k) = vy u * k"
  by (simp_all add: add_def sub_def mul_def)

lemma scene_segment_at [simp]:
  "scene_segment 0 = ACircle (make_circle (Vector2D 0 3) (Vector2D 0 (- 10)) 5 1 False)"
  "scene_segment (Suc 0) = ASegment (make_segment (Vector2D (- 10) 0) (Vector2D 10 0) 5 True)"
  by (simp_all add: scene_segment_def)

lemma scene_static_at [simp]:
  "scene_static 0 = ACircle (make_circle (Vector2D 10 10) (Vector2D 0 0) 5 1 True)"
  "scene_static (Suc 0) = ACircle (make_circle (Vector2D 18 10) (Vector2D 0 0) 5 1 True)"
  by (simp_all add: scene_static_def)

subsection \<open>Static bodies\<close>

lemma statics_kept_refl [simp]: "statics_kept h h"
  by (simp add: statics_kept_def)

lemma statics_kept_trans: "statics_kept h h1 \<Longrightarrow> statics_kept h1 h2 \<Longrightarrow> statics_kept h h2"
  by (simp add: statics_kept_def)

lemma statics_kept_unless_static:
  assumes "\<And>obj. static (base (f obj)) = static (base obj)"
  shows "statics_kept h (unless_static r f h)"
  using assms by (simp add: statics_kept_def unless_static_def)

lemma statics_kept_inplace [simp]:
  "statics_kept h (unless_static r (position_isub v) h)"
  "statics_kept h (unless_static r (position_iadd v) h)"
  "statics_kept h (unless_static r (velocity_isub v) h)"
  "statics_kept h (unless_static r (velocity_iadd v) h)"
  by (rule statics_kept_unless_static, simp)+

lemma statics_kept_twice:
  assumes "\<And>h1. statics_kept h1 (unless_static a f h1)" "\<And>h1. statics_kept h1 (unless_static b g h1)"
  shows "statics_kept h (unless_static b g (unless_static a f h))"
  using assms statics_kept_trans by blast

lemma statics_kept_and_then:
  assumes "statics_kept h (fst r)" and "\<And>h1. statics_kept h1 (fst (f h1))"
  shows "statics_kept h (fst (and_then r f))"
proof (cases r)
  case (Pair h1 e)
  show ?thesis
  proof (cases e)
    case None
    with Pair assms(1) assms(2) [of h1] show ?thesis
      by (auto simp add: and_then_def intro: statics_kept_trans)
  next
    case (Some x)
    with Pair assms(1) show ?thesis by (simp add: and_then_def)
  qed
qed

lemma statics_kept_for_each:
  assumes "\<And>x h1. statics_kept h1 (fst (f x h1))"
  shows "statics_kept h (fst (for_each f xs h))"
proof (induction xs arbitrary: h)
  case Nil
  show ?case by simp
next
  case (Cons x xs)
  show ?case
    using assms [of h x] Cons.IH by (simp add: statics_kept_and_then)
qed

lemma statics_kept_resolve_position:
  "statics_kept h (fst (resolve_position self a b n pen h))"
  by (simp add: resolve_position_def Let_def statics_kept_twice split: sum.splits)

lemma statics_kept_apply_friction:
  "statics_kept h (fst (apply_friction self a b n k h))"
  by (simp add: apply_friction_def Let_def statics_kept_twice split: sum.splits)

lemma statics_kept_resolve_velocity:
  "statics_kept h (fst (resolve_velocity self a b n h))"
  by (auto simp add: resolve_velocity_def Let_def statics_kept_twice split: sum.splits
      intro!: statics_kept_trans [OF _ statics_kept_apply_friction])

lemma statics_kept_resolve_collision:
  "statics_kept h (fst (resolve_collision self c dt h))"
  unfolding resolve_collision_def Let_def
  by (rule statics_kept_and_then) (simp_all add: statics_kept_resolve_position statics_kept_resolve_velocity)

lemma statics_kept_resolve_collisions:
  "statics_kept h (fst (resolve_collisions self cs dt h))"
  unfolding resolve_collisions_def
  by (rule statics_kept_for_each) (rule statics_kept_resolve_collision)

lemma statics_kept_engine_resolve_pair:
  "statics_kept h (fst (engine_resolve_pair entry h))"
proof (cases entry)
  case (fields a b info)
  have two: "statics_kept h (unless_static b (position_iadd v2) (unless_static a (position_isub v1) h))" for v1 v2
    by (simp add: statics_kept_twice)
  show ?thesis
    unfolding fields engine_resolve_pair_def Let_def prod.case
    by (auto split: sum.splits simp del: statics_kept_inplace
        intro!: two statics_kept_trans [OF two statics_kept_twice] statics_kept_inplace)
qed

lemma touches_only_refl [simp]: "touches_only r h h"
  by (simp add: touches_only_def)

lemma touches_only_trans:
  "touches_only r h h1 \<Longrightarrow> touches_only r h1 h2 \<Longrightarrow> touches_only r h h2"
  by (simp add: touches_only_def)

lemma touches_only_upd [simp]:
  "touches_only r h (h(r := set_position (h r) v))"
  "touches_only r h (h(r := set_velocity (h r) v))"
  "touches_only r h (h(r := set_acceleration (h r) v))"
  "touches_only r h (h(r := set_forces (h r) fs))"
  "touches_only r h (add_acceleration r v h)"
  by (simp_all add: touches_only_def add_acceleration_def)

lemma touches_only_statics_kept:
  "\<not> static (base (h r)) \<Longrightarrow> touches_only r h h' \<Longrightarrow> statics_kept h h'"
  by (auto simp add: touches_only_def statics_kept_def)

lemma touches_only_and_then:
  assumes "touches_only r h (fst res)" and "\<And>h1. touches_only r h1 (fst (f h1))"
  shows "touches_only r h (fst (and_then res f))"
proof (cases res)
  case (Pair h1 e)
  show ?thesis
  proof (cases e)
    case None
    with Pair assms(1) assms(2) [of h1] show ?thesis
      by (auto simp add: and_then_def intro: touches_only_trans)
  next
    case (Some x)
    with Pair assms(1) show ?thesis by (simp add: and_then_def)
  qed
qed

lemma touches_only_apply_custom_forces: "touches_only r h (fst (apply_custom_forces r fs h))"
proof (induction fs arbitrary: h)
  case Nil
  show ?case by simp
next
  case (Cons f fs)
  show ?case
  proof (cases "truediv_mass f (mass (base (h r)))")
    case (Inl e)
    then show ?thesis by simp
  next
    case (Inr q)
    have "touches_only r h (add_acceleration r q h)" by simp
    from touches_only_trans [OF this Cons.IH] Inr show ?thesis by simp
  qed
qed

lemma touches_only_blocks [simp]:
  "touches_only r h (fst (apply_gravity cfg r h))"
  "touches_only r h (fst (apply_air_resistance r h))"
  "touches_only r h (fst (clear_forces r h))"
  "touches_only r h (fst (advance_position dt r h))"
  "touches_only r h (fst (advance_velocity dt r h))"
  "touches_only r h (fst (limit_velocity cfg r h))"
  "touches_only r h (fst (damp_velocity cfg dt r h))"
  by (simp_all add: apply_gravity_def apply_air_resistance_def clear_forces_def
      advance_position_def advance_velocity_def limit_velocity_def damp_velocity_def Let_def
      split: sum.splits)

lemma statics_kept_apply_forces_body: "statics_kept h (fst (apply_forces_body cfg r h))"
proof (cases "static (base (h r))")
  case True
  then show ?thesis by (simp add: apply_forces_body_def)
next
  case False
  have "touches_only r h (fst (apply_forces_body cfg r h))"
    using False
    by (simp add: apply_forces_body_def touches_only_and_then touches_only_apply_custom_forces)
  with False show ?thesis by (rule touches_only_statics_kept)
qed

lemma statics_kept_integrate_body: "statics_kept h (fst (integrate_body cfg dt r h))"
proof (cases "static (base (h r))")
  case True
  then show ?thesis by (simp add: integrate_body_def)
next
  case False
  have "touches_only r h (fst (integrate_body cfg dt r h))"
    using False by (simp add: integrate_body_def touches_only_and_then)
  with False show ?thesis by (rule touches_only_statics_kept)
qed

lemma statics_kept_apply_forces: "statics_kept h (fst (apply_forces self dt h))"
  unfolding apply_forces_def
  by (rule statics_kept_for_each) (rule statics_kept_apply_forces_body)

lemma statics_kept_integrate: "statics_kept h (fst (integrate self dt h))"
  unfolding integrate_def
  by (rule statics_kept_for_each) (rule statics_kept_integrate_body)

lemma statics_kept_engine_resolve_collisions:
  "statics_kept h (fst (engine_resolve_collisions self dt h))"
  unfolding engine_resolve_collisions_def
  by (rule statics_kept_for_each) (rule statics_kept_engine_resolve_pair)

lemma statics_kept_step: "statics_kept h (snd (fst (step self dt_arg h)))"
proof (cases "paused self")
  case True
  then show ?thesis by (simp add: step_def)
next
  case False
  define dt where "dt = (case dt_arg of None \<Rightarrow> engine_dt self * time_scale self | Some d \<Rightarrow> d)"
  obtain h1 e1 where r1: "apply_forces self dt h = (h1, e1)" by (cases "apply_forces self dt h")
  obtain h2 e2 where r2: "integrate self dt h1 = (h2, e2)" by (cases "integrate self dt h1")
  obtain s3 e3 where r3: "engine_detect_collisions self h2 = (s3, e3)"
    by (cases "engine_detect_collisions self h2")
  obtain h4 e4 where r4: "engine_resolve_collisions s3 dt h2 = (h4, e4)"
    by (cases "engine_resolve_collisions s3 dt h2")
  have k1: "statics_kept h h1" using statics_kept_apply_forces [of h self dt] r1 by simp
  have k2: "statics_kept h1 h2" using statics_kept_integrate [of h1 self dt] r2 by simp
  have k4: "statics_kept h2 h4" using statics_kept_engine_resolve_collisions [of h2 s3 dt] r4 by simp
  note k12 = statics_kept_trans [OF k1 k2]
  note k14 = statics_kept_trans [OF k12 k4]
  show ?thesis
    using False r1 r2 r3 r4 k1 k12 k14
    by (simp add: step_def Let_def dt_def [symmetric] split: option.splits)
qed

lemma statics_kept_steps: "statics_kept h (snd (fst (steps k self dt_arg h)))"
proof (induction k arbitrary: self h)
  case 0
  show ?case by simp
next
  case (Suc k)
  obtain s1 h1 e1 where r: "step self dt_arg h = ((s1, h1), e1)"
    by (cases "step self dt_arg h") auto
  have k1: "statics_kept h h1" using statics_kept_step [of h self dt_arg] r by simp
  show ?case
  proof (cases e1)
    case None
    with r statics_kept_trans [OF k1 Suc.IH [of h1 s1]] show ?thesis by simp
  next
    case (Some e)
    with r k1 show ?thesis by simp
  qed
qed

text \<open>
  Claim C4. A body whose static flag is set has, after any number of calls of
  \<^verbatim>\<open>step\<close> (with or without an explicit \<open>dt\<close>, whether or not a call ends in an
  exception), the position and the velocity it had before; the same holds after the
  resolver has processed any list of contacts (positional correction, impulse, friction),
  and \<^verbatim>\<open>add_impulse\<close> leaves the body as it is.
\<close>

theorem static_bodies_never_move:
  assumes "static (base (h r))"
  shows
    "position (base (snd (fst (steps k self dt_arg h)) r)) = position (base (h r)) \<and>
     velocity (base (snd (fst (steps k self dt_arg h)) r)) = velocity (base (h r)) \<and>
     position (base (fst (resolve_collisions resolver cs dt h) r)) = position (base (h r)) \<and>
     velocity (base (fst (resolve_collisions resolver cs dt h) r)) = velocity (base (h r)) \<and>
     body_add_impulse (h r) impulse = h r"
proof -
  have "statics_kept h (snd (fst (steps k self dt_arg h)))"
    by (rule statics_kept_steps)
  moreover have "statics_kept h (fst (resolve_collisions resolver cs dt h))"
    by (rule statics_kept_resolve_collisions)
  moreover have "body_add_impulse (h r) impulse = h r"
    using assms by (cases "h r") (simp_all add: body_add_impulse_def add_impulse_def)
  ultimately show ?thesis
    using assms by (simp add: statics_kept_def)
qed

theorem static_bodies_never_move_witness:
  "static (base (scene_engine_heap 1)) \<and>
   position (base (snd (fst (steps 3 scene_engine (Some (1 / 5)) scene_engine_heap)) 1))
     = Vector2D 20 0 \<and>
   velocity (base (snd (fst (steps 3 scene_engine (Some (1 / 5)) scene_engine_heap)) 1))
     = Vector2D 0 0"
  using static_bodies_never_move [of scene_engine_heap 1 3 scene_engine "Some (1 / 5)"]
  by (simp add: scene_engine_heap_def)


section \<open>The direction of the contact normal\<close>

lemma scene_segment_closest:
  "closest_point_on_segment (make_segment (Vector2D (- 10) 0) (Vector2D 10 0) 5 True) (Vector2D 0 3)
     = Inr (Vector2D 0 0)"
  by (simp add: closest_point_on_segment_def sub_def magnitude_squared_def dot_def add_def
      mul_def Let_def)

lemma scene_segment_contact:
  "circle_segment_collision scene_segment 0 (Suc 0) =
     Inr (Some \<lparr> body_a = 0, body_b = 1, contact_point = Vector2D 0 0, normal = Vector2D 0 1,
                 penetration = 9 / 2, collision_type = ''circle-segment'', metadata = [] \<rparr>)"
  by (simp add: circle_segment_collision_def scene_segment_closest normalized_eq sub_def)

text \<open>
  Claim C2, evaluated on a circle of radius 5 centred at \<open>(0, 3)\<close> and moving down at
  speed 10 onto a static segment from \<open>(-10, 0)\<close> to \<open>(10, 0)\<close>. The detector reports the
  circle as \<^verbatim>\<open>body_a\<close>, the segment as \<^verbatim>\<open>body_b\<close> and the normal \<open>(0, 1)\<close>: the normal points
  from the contact point on the segment to the centre of the circle, away from
  \<^verbatim>\<open>body_b\<close>. With that normal the resolver takes the approaching circle for a separating
  one and leaves its velocity as it is.
\<close>

theorem circle_segment_normal_points_to_circle:
  "check_collision scene_segment 0 1 =
     Inr (Some \<lparr> body_a = 0, body_b = 1, contact_point = Vector2D 0 0, normal = Vector2D 0 1,
                 penetration = 9 / 2, collision_type = ''circle-segment'', metadata = [] \<rparr>) \<and>
   sub (Vector2D 0 0) (position (base (scene_segment 0))) = Vector2D 0 (- 3) \<and>
   dot (Vector2D 0 1) (sub (position (base (scene_segment 1))) (position (base (scene_segment 0)))) < 0 \<and>
   velocity (base (scene_segment 0)) = Vector2D 0 (- 10) \<and>
   resolve_velocity CollisionResolver_init 0 1 (Vector2D 0 1) scene_segment = (scene_segment, None)"
proof -
  have "check_collision scene_segment 0 1 = circle_segment_collision scene_segment 0 1"
    by (simp add: check_collision_def type_name_def)
  moreover have "resolve_velocity CollisionResolver_init 0 1 (Vector2D 0 1) scene_segment
      = (scene_segment, None)"
    by (simp add: resolve_velocity_def dot_def)
  ultimately show ?thesis
    by (simp add: scene_segment_contact dot_def sub_def)
qed

section \<open>Division by the sum of the inverse masses\<close>

lemma scene_static_contact:
  "circle_circle_collision scene_static 0 (Suc 0) =
     Inr (Some \<lparr> body_a = 0, body_b = 1, contact_point = Vector2D 15 10, normal = Vector2D 1 0,
                 penetration = 2, collision_type = ''circle-circle'', metadata = [] \<rparr>)"
  by (simp add: circle_circle_collision_def normalized_eq sub_def add_def mul_def)

lemma scene_static_cells:
  "get_cells_for_body ring_box
     \<lparr> world_width = 100, world_height = 100, cell_size = 100, cols = 1, rows = 1, grid = g \<rparr>
     (ACircle (make_circle (Vector2D 10 10) (Vector2D 0 0) 5 1 True)) = Inr [(0, 0)]"
  "get_cells_for_body ring_box
     \<lparr> world_width = 100, world_height = 100, cell_size = 100, cols = 1, rows = 1, grid = g \<rparr>
     (ACircle (make_circle (Vector2D 18 10) (Vector2D 0 0) 5 1 True)) = Inr [(0, 0)]"
  by (simp_all add: get_cells_for_body_def get_bounding_box_def circle_bounding_box_def
      get_cell_coords_def py_floordiv_def)

text \<open>
  Claim C3, evaluated on two overlapping static circles. A detector with the spatial grid
  over a world of 100 by 100 reports their contact (the grid path tests every candidate
  pair, static or not), and resolving that contact with the default resolver ends in
  \<^verbatim>\<open>ZeroDivisionError\<close>: the positional correction returns early on the zero sum of the
  inverse masses, the velocity step divides by it.
\<close>

theorem static_pair_division_by_zero:
  "bindE (setup_spatial_grid (CollisionDetector_init True 100) 100 100)
     (\<lambda>detector. detect_collisions ring_box detector scene_static [0, 1]) =
     Inr [\<lparr> body_a = 0, body_b = 1, contact_point = Vector2D 15 10, normal = Vector2D 1 0,
            penetration = 2, collision_type = ''circle-circle'', metadata = [] \<rparr>] \<and>
   resolve_collision CollisionResolver_init
     \<lparr> body_a = 0, body_b = 1, contact_point = Vector2D 15 10, normal = Vector2D 1 0,
       penetration = 2, collision_type = ''circle-circle'', metadata = [] \<rparr> dt scene_static
     = (scene_static, Some ZeroDivisionError)"
proof -
  have "bindE (setup_spatial_grid (CollisionDetector_init True 100) 100 100)
     (\<lambda>detector. detect_collisions ring_box detector scene_static [0, 1]) =
     Inr [\<lparr> body_a = 0, body_b = 1, contact_point = Vector2D 15 10, normal = Vector2D 1 0,
            penetration = 2, collision_type = ''circle-circle'', metadata = [] \<rparr>]"
    by (simp add: setup_spatial_grid_def CollisionDetector_init_def SpatialGrid_init_def
        detect_collisions_def grid_clear_def grid_insert_def scene_static_cells
        get_potential_collisions_def check_collision_def type_name_def scene_static_contact)
  moreover have "resolve_collision CollisionResolver_init
     \<lparr> body_a = 0, body_b = 1, contact_point = Vector2D 15 10, normal = Vector2D 1 0,
       penetration = 2, collision_type = ''circle-circle'', metadata = [] \<rparr> dt scene_static
     = (scene_static, Some ZeroDivisionError)"
    by (simp add: resolve_collision_def resolve_position_def resolve_velocity_def
        CollisionResolver_init_def effective_inv_mass_def and_then_def dot_def)
  ultimately show ?thesis by simp
qed

section \<open>Elastic head-on collision\<close>

lemma kept_but_position_sel:
  assumes "kept_but_position r h h'"
  shows "velocity (base (h' r)) = velocity (base (h r))"
    "static (base (h' r)) = static (base (h r))"
    "inv_mass (base (h' r)) = inv_mass (base (h r))"
    "restitution (base (h' r)) = restitution (base (h r))"
    "friction (base (h' r)) = friction (base (h r))"
proof -
  have eq: "(base (h' r))\<lparr>position := Vector2D 0 0\<rparr> = (base (h r))\<lparr>position := Vector2D 0 0\<rparr>"
    using assms by (simp add: kept_but_position_def)
  show "velocity (base (h' r)) = velocity (base (h r))"
    using arg_cong [OF eq, of velocity] by simp
  show "static (base (h' r)) = static (base (h r))"
    using arg_cong [OF eq, of static] by simp
  show "inv_mass (base (h' r)) = inv_mass (base (h r))"
    using arg_cong [OF eq, of inv_mass] by simp
  show "restitution (base (h' r)) = restitution (base (h r))"
    using arg_cong [OF eq, of restitution] by simp
  show "friction (base (h' r)) = friction (base (h r))"
    using arg_cong [OF eq, of friction] by simp
qed

lemma kept_but_position_refl [simp]: "kept_but_position r h h"
  by (simp add: kept_but_position_def)

lemma kept_but_position_trans:
  "kept_but_position r h h1 \<Longrightarrow> kept_but_position r h1 h2 \<Longrightarrow> kept_but_position r h h2"
  by (simp add: kept_but_position_def)

lemma kept_but_position_moves:
  "kept_but_position r h h1 \<Longrightarrow> kept_but_position r h (unless_static x (position_isub v) h1)"
  "kept_but_position r h h1 \<Longrightarrow> kept_but_position r h (unless_static x (position_iadd v) h1)"
  by (auto simp add: kept_but_position_def unless_static_def)

lemma resolve_position_keeps:
  "kept_but_position r h (fst (resolve_position self a b n pen h))"
  by (simp add: resolve_position_def Let_def kept_but_position_moves split: sum.splits)

lemma resolve_position_returns: "snd (resolve_position self a b n pen h) = None"
  by (simp add: resolve_position_def Let_def py_truediv_def split: sum.splits)

lemma magnitude_unit_sq: "magnitude n = 1 \<Longrightarrow> vx n * vx n + vy n * vy n = 1"
  by (metis magnitude_def real_sqrt_eq_1_iff)

lemma elastic_exchange:
  assumes ab: "a \<noteq> b"
    and dyn: "\<not> static (base (h a))" "\<not> static (base (h b))"
    and mass: "0 < m" "inv_mass (base (h a)) = 1 / m" "inv_mass (base (h b)) = 1 / m"
    and rest: "restitution (base (h a)) = 1" "restitution (base (h b)) = 1"
    and fric: "friction (base (h a)) = 0" "friction (base (h b)) = 0"
    and unit: "magnitude n = 1"
    and head_on: "sub (velocity (base (h b))) (velocity (base (h a))) = mul n k" "k \<le> 0"
  shows "\<exists>h'. resolve_velocity self a b n h = (h', None) \<and>
           velocity (base (h' a)) = velocity (base (h b)) \<and>
           velocity (base (h' b)) = velocity (base (h a))"
proof -
  let ?va = "velocity (base (h a))" and ?vb = "velocity (base (h b))"
  have nn: "vx n * vx n + vy n * vy n = 1"
    using unit by (rule magnitude_unit_sq)
  have van: "dot (sub ?vb ?va) n = k"
    unfolding head_on(1) using nn by (simp add: dot_def algebra_simps flip: distrib_left)
  have eff: "effective_inv_mass (h a) = 1 / m" "effective_inv_mass (h b) = 1 / m"
    using dyn mass by (simp_all add: effective_inv_mass_def)
  have div: "py_truediv (- (1 + 1) * k) (1 / m + 1 / m) = Inr (- k * m)"
    using mass(1) by (simp add: py_truediv_def field_simps)
  let ?imp = "mul n (- k * m)"
  let ?h1 = "unless_static a (velocity_isub (mul ?imp (1 / m))) h"
  let ?h2 = "unless_static b (velocity_iadd (mul ?imp (1 / m))) ?h1"
  have cx: "vx ?vb - vx ?va = vx n * k" and cy: "vy ?vb - vy ?va = vy n * k"
    using arg_cong [OF head_on(1), of vx] arg_cong [OF head_on(1), of vy] by simp_all
  have va': "velocity (base (?h2 a)) = ?vb"
    using ab dyn mass(1) cx cy
    by (simp add: unless_static_def Vector2D.expand)
  have vb': "velocity (base (?h2 b)) = ?va"
    using ab dyn mass(1) cx cy
    by (simp add: unless_static_def Vector2D.expand)
  have fr2: "friction (base (?h2 a)) = 0" "friction (base (?h2 b)) = 0"
    using ab dyn fric by (simp_all add: unless_static_def)
  have tangent0: "sub (sub ?va ?vb) (mul n (dot (sub ?va ?vb) n)) = Vector2D 0 0"
  proof -
    have x: "vx ?va - vx ?vb = - (vx n * k)" and y: "vy ?va - vy ?vb = - (vy n * k)"
      using cx cy by simp_all
    have d: "dot (sub ?va ?vb) n = - k"
      using nn by (simp add: dot_def x y algebra_simps flip: distrib_left)
    show ?thesis by (simp add: Vector2D.expand d x y)
  qed
  have fric_res: "\<exists>h'. apply_friction self a b n (- k * m) ?h2 = (h', None) \<and>
           velocity (base (h' a)) = ?vb \<and> velocity (base (h' b)) = ?va"
  proof (cases "magnitude (Vector2D 0 0) < velocity_threshold self")
    case True
    then show ?thesis
      using va' vb' tangent0 by (simp add: apply_friction_def Let_def)
  next
    case False
    have z: "mul (Vector2D 0 0) q = Vector2D 0 0" for q by (simp add: mul_def)
    have sqrt0: "py_sqrt 0 = Inr 0" by (simp add: py_sqrt_def)
    have keep: "velocity (base (unless_static b (velocity_iadd (Vector2D 0 0))
                   (unless_static a (velocity_isub (Vector2D 0 0)) ?h2) r)) = velocity (base (?h2 r))" for r
      by (simp add: unless_static_def Vector2D.expand)
    show ?thesis
      using False va' vb' tangent0 fr2 sqrt0 keep
      by (simp add: apply_friction_def Let_def normalized_eq z)
  qed
  have "resolve_velocity self a b n h = apply_friction self a b n (- k * m) ?h2"
    using van head_on(2) rest eff div by (simp add: resolve_velocity_def Let_def)
  with fric_res show ?thesis by simp
qed


lemma scene_head_on_at [simp]:
  "scene_head_on 0 = ACircle (elastic_circle (Vector2D 0 0) (Vector2D 3 0))"
  "scene_head_on (Suc 0) = ACircle (elastic_circle (Vector2D 8 0) (Vector2D (- 1) 0))"
  by (simp_all add: scene_head_on_def)

lemma elastic_circle_sel [simp]:
  "position (elastic_circle p v) = p" "velocity (elastic_circle p v) = v"
  "radius (elastic_circle p v) = 5" "static (elastic_circle p v) = False"
  "inv_mass (elastic_circle p v) = 1 / 2" "mass (elastic_circle p v) = FiniteMass 2"
  "restitution (elastic_circle p v) = 1" "friction (elastic_circle p v) = 0"
  by (simp_all add: elastic_circle_def make_circle_def)

lemma scene_head_on_contact:
  "circle_circle_collision scene_head_on 0 (Suc 0) =
     Inr (Some \<lparr> body_a = 0, body_b = 1, contact_point = Vector2D 5 0, normal = Vector2D 1 0,
                 penetration = 2, collision_type = ''circle-circle'', metadata = [] \<rparr>)"
  by (simp add: circle_circle_collision_def normalized_eq sub_def add_def mul_def)



section \<open>Bodies of infinite mass\<close>

lemma effective_inv_mass_zero:
  "inv_mass (base obj) = 0 \<Longrightarrow> effective_inv_mass obj = 0"
  by (simp add: effective_inv_mass_def)

lemma kept_but_position_impulse:
  assumes "kept_but_position r h h1" and "x = r \<Longrightarrow> q = 0"
  shows "kept_but_position r h (unless_static x (velocity_isub (mul imp q)) h1)"
    and "kept_but_position r h (unless_static x (velocity_iadd (mul imp q)) h1)"
proof -
  have z: "sub v (mul imp 0) = v" "add v (mul imp 0) = v" for v
    by (simp_all add: Vector2D.expand)
  show "kept_but_position r h (unless_static x (velocity_isub (mul imp q)) h1)"
    using assms by (cases "x = r") (simp_all add: kept_but_position_def unless_static_def z)
  show "kept_but_position r h (unless_static x (velocity_iadd (mul imp q)) h1)"
    using assms by (cases "x = r") (simp_all add: kept_but_position_def unless_static_def z)
qed

lemma kept_but_position_impulses:
  assumes "a = r \<Longrightarrow> qa = 0" and "b = r \<Longrightarrow> qb = 0"
  shows "kept_but_position r h
     (unless_static b (velocity_iadd (mul imp qb)) (unless_static a (velocity_isub (mul imp qa)) h))"
  by (intro kept_but_position_impulse assms) simp

lemma apply_friction_massless:
  assumes "inv_mass (base (h r)) = 0"
  shows "kept_but_position r h (fst (apply_friction self a b n k h))"
  using assms
  by (simp add: apply_friction_def Let_def kept_but_position_impulses effective_inv_mass_zero
      split: sum.splits)

lemma resolve_velocity_massless:
  assumes "inv_mass (base (h r)) = 0"
  shows "kept_but_position r h (fst (resolve_velocity self a b n h))"
proof -
  have step: "kept_but_position r h (fst (apply_friction self a b n k
       (unless_static b (velocity_iadd (mul imp (effective_inv_mass (h b))))
         (unless_static a (velocity_isub (mul imp (effective_inv_mass (h a)))) h))))"
    (is "kept_but_position r h (fst (apply_friction self a b n k ?h2))") for k imp
  proof -
    have k2: "kept_but_position r h ?h2"
      using assms by (intro kept_but_position_impulses) (simp_all add: effective_inv_mass_zero)
    then have "inv_mass (base (?h2 r)) = 0"
      using assms kept_but_position_sel(3) by metis
    then have "kept_but_position r ?h2 (fst (apply_friction self a b n k ?h2))"
      by (rule apply_friction_massless)
    with k2 show ?thesis by (rule kept_but_position_trans)
  qed
  show ?thesis
    by (simp add: resolve_velocity_def Let_def step split: sum.splits)
qed

lemma resolve_collision_massless:
  assumes "inv_mass (base (h r)) = 0"
  shows "kept_but_position r h (fst (resolve_collision self c dt h))"
proof -
  define res where "res = (if position_correction self \<and> penetration c > 0
      then resolve_position self (body_a c) (body_b c) (normal c) (penetration c) h else (h, None))"
  obtain h1 where h1: "res = (h1, None)"
    using resolve_position_returns [of self "body_a c" "body_b c" "normal c" "penetration c" h]
    by (cases res) (auto simp add: res_def split: if_splits)
  have k1: "kept_but_position r h h1"
    using resolve_position_keeps [of r h self "body_a c" "body_b c" "normal c" "penetration c"] h1
    by (auto simp add: res_def split: if_splits)
  then have "inv_mass (base (h1 r)) = 0"
    using assms kept_but_position_sel(3) by metis
  then have "kept_but_position r h1 (fst (resolve_velocity self (body_a c) (body_b c) (normal c) h1))"
    by (rule resolve_velocity_massless)
  with k1 have "kept_but_position r h (fst (resolve_velocity self (body_a c) (body_b c) (normal c) h1))"
    by (rule kept_but_position_trans)
  moreover have "resolve_collision self c dt h =
      and_then res (resolve_velocity self (body_a c) (body_b c) (normal c))"
    by (simp add: resolve_collision_def Let_def res_def)
  then have "resolve_collision self c dt h =
      resolve_velocity self (body_a c) (body_b c) (normal c) h1"
    unfolding h1 by (simp add: and_then_def)
  ultimately show ?thesis by simp
qed

lemma resolve_collisions_massless:
  assumes "inv_mass (base (h r)) = 0"
  shows "kept_but_position r h (fst (resolve_collisions self cs dt h))"
  using assms
proof (induction cs arbitrary: h)
  case Nil
  show ?case by (simp add: resolve_collisions_def)
next
  case (Cons c cs)
  obtain h1 e1 where r1: "resolve_collision self c dt h = (h1, e1)"
    by (cases "resolve_collision self c dt h")
  have k1: "kept_but_position r h h1"
    using resolve_collision_massless [where h = h and r = r and self = self and c = c and dt = dt]
      Cons.prems r1 by simp
  show ?case
  proof (cases e1)
    case None
    have "inv_mass (base (h1 r)) = 0"
      using k1 Cons.prems kept_but_position_sel(3) by metis
    then have "kept_but_position r h1 (fst (resolve_collisions self cs dt h1))"
      by (rule Cons.IH)
    with k1 have "kept_but_position r h (fst (resolve_collisions self cs dt h1))"
      by (rule kept_but_position_trans)
    with r1 None show ?thesis
      by (simp add: resolve_collisions_def and_then_def)
  next
    case (Some e)
    with r1 k1 show ?thesis
      by (simp add: resolve_collisions_def and_then_def)
  qed
qed

lemma add_impulse_massless:
  "inv_mass self = 0 \<Longrightarrow> add_impulse self impulse = self"
  by (simp add: add_impulse_def mul_def add_def)




section \<open>The gap of a ring\<close>

lemma py_mod_range: "0 \<le> py_mod a 360 \<and> py_mod a 360 < 360"
proof -
  have "of_int \<lfloor>a / 360\<rfloor> \<le> a / 360" "a / 360 < of_int \<lfloor>a / 360\<rfloor> + 1"
    by linarith+
  then show ?thesis by (simp add: py_mod_def field_simps)
qed

lemma py_mod_small: "0 \<le> v \<Longrightarrow> v < 360 \<Longrightarrow> py_mod v 360 = v"
proof -
  assume "0 \<le> v" "v < 360"
  then have "\<lfloor>v / 360\<rfloor> = 0" by (simp add: floor_eq_iff)
  then show ?thesis by (simp add: py_mod_def)
qed

lemma py_mod_wrap: "360 \<le> v \<Longrightarrow> v < 720 \<Longrightarrow> py_mod v 360 = v - 360"
proof -
  assume "360 \<le> v" "v < 720"
  then have "\<lfloor>v / 360\<rfloor> = 1" by (simp add: floor_eq_iff)
  then show ?thesis by (simp add: py_mod_def)
qed

lemma point_angle_range: "0 \<le> point_angle ring p \<and> point_angle ring p < 360"
  unfolding point_angle_def Let_def by (rule py_mod_range)

text \<open>Membership in an interval of length below 360 degrees, up to whole turns.\<close>

lemma interval_mod_360:
  fixes a g t :: real
  assumes g: "0 < g" "g < 360" and t: "0 \<le> t" "t < 360"
  defines "s \<equiv> py_mod a 360"
  defines "e \<equiv> py_mod (s + g) 360"
  shows "(if s \<le> e then s \<le> t \<and> t \<le> e else t \<ge> s \<or> t \<le> e) \<longleftrightarrow>
         (\<exists>k::int. a \<le> t + 360 * of_int k \<and> t + 360 * of_int k \<le> a + g)"
proof -
  define m where "m = \<lfloor>a / 360\<rfloor>"
  have s_eq: "s = a - 360 * of_int m"
    by (simp add: s_def py_mod_def m_def)
  have s_range: "0 \<le> s" "s < 360"
    using py_mod_range [of a] by (simp_all add: s_def)
  have shift: "(\<exists>k::int. a \<le> t + 360 * of_int k \<and> t + 360 * of_int k \<le> a + g) \<longleftrightarrow>
               (\<exists>j::int. s \<le> t + 360 * of_int j \<and> t + 360 * of_int j \<le> s + g)"
  proof
    assume "\<exists>k::int. a \<le> t + 360 * of_int k \<and> t + 360 * of_int k \<le> a + g"
    then obtain k :: int where k: "a \<le> t + 360 * of_int k" "t + 360 * of_int k \<le> a + g"
      by blast
    then have "s \<le> t + 360 * of_int (k - m) \<and> t + 360 * of_int (k - m) \<le> s + g"
      by (simp add: s_eq algebra_simps)
    then show "\<exists>j::int. s \<le> t + 360 * of_int j \<and> t + 360 * of_int j \<le> s + g" ..
  next
    assume "\<exists>j::int. s \<le> t + 360 * of_int j \<and> t + 360 * of_int j \<le> s + g"
    then obtain j :: int where j: "s \<le> t + 360 * of_int j" "t + 360 * of_int j \<le> s + g"
      by blast
    then have "a \<le> t + 360 * of_int (j + m) \<and> t + 360 * of_int (j + m) \<le> a + g"
      by (simp add: s_eq algebra_simps)
    then show "\<exists>k::int. a \<le> t + 360 * of_int k \<and> t + 360 * of_int k \<le> a + g" ..
  qed
  have only: "j = 0 \<or> j = 1"
    if "s \<le> t + 360 * of_int j" "t + 360 * of_int j \<le> s + g" for j :: int
  proof -
    have "360 * (of_int j :: real) > - 360" "360 * (of_int j :: real) < 720"
      using that s_range t g by linarith+
    then have "(of_int j :: real) > of_int (- 1)" "(of_int j :: real) < of_int 2"
      by simp_all
    then have "j > - 1" "j < 2"
      unfolding of_int_less_iff by simp_all
    then show ?thesis by linarith
  qed
  show ?thesis
  proof (cases "s + g < 360")
    case True
    then have e_eq: "e = s + g"
      using s_range g by (simp add: e_def py_mod_small)
    have "(\<exists>j::int. s \<le> t + 360 * of_int j \<and> t + 360 * of_int j \<le> s + g) \<longleftrightarrow> s \<le> t \<and> t \<le> s + g"
    proof
      assume "\<exists>j::int. s \<le> t + 360 * of_int j \<and> t + 360 * of_int j \<le> s + g"
      then obtain j :: int where j: "s \<le> t + 360 * of_int j" "t + 360 * of_int j \<le> s + g"
        by blast
      from only [OF j] show "s \<le> t \<and> t \<le> s + g"
      proof
        assume "j = 0" with j show ?thesis by simp
      next
        assume "j = 1" with j True t show ?thesis by simp
      qed
    next
      assume "s \<le> t \<and> t \<le> s + g"
      then have "s \<le> t + 360 * of_int (0::int) \<and> t + 360 * of_int (0::int) \<le> s + g" by simp
      then show "\<exists>j::int. s \<le> t + 360 * of_int j \<and> t + 360 * of_int j \<le> s + g" ..
    qed
    then show ?thesis
      using shift e_eq g by simp
  next
    case False
    then have e_eq: "e = s + g - 360"
      using s_range g by (simp add: e_def py_mod_wrap)
    then have lt: "\<not> s \<le> e" using g by simp
    have "(\<exists>j::int. s \<le> t + 360 * of_int j \<and> t + 360 * of_int j \<le> s + g) \<longleftrightarrow> s \<le> t \<or> t \<le> e"
    proof
      assume "\<exists>j::int. s \<le> t + 360 * of_int j \<and> t + 360 * of_int j \<le> s + g"
      then obtain j :: int where j: "s \<le> t + 360 * of_int j" "t + 360 * of_int j \<le> s + g"
        by blast
      from only [OF j] show "s \<le> t \<or> t \<le> e"
      proof
        assume "j = 0" with j show ?thesis by simp
      next
        assume "j = 1" with j e_eq show ?thesis by simp
      qed
    next
      assume "s \<le> t \<or> t \<le> e"
      then show "\<exists>j::int. s \<le> t + 360 * of_int j \<and> t + 360 * of_int j \<le> s + g"
      proof
        assume "s \<le> t"
        then have "s \<le> t + 360 * of_int (0::int) \<and> t + 360 * of_int (0::int) \<le> s + g"
          using False t by simp
        then show ?thesis ..
      next
        assume "t \<le> e"
        then have "s \<le> t + 360 * of_int (1::int) \<and> t + 360 * of_int (1::int) \<le> s + g"
          using e_eq s_range t by simp
        then show ?thesis ..
      qed
    qed
    then show ?thesis
      using shift lt by simp
  qed
qed

lemma make_ring_sel [simp]:
  "position (make_ring center inner outer ga gs st) = center"
  "inner_radius (make_ring center inner outer ga gs st) = inner"
  "outer_radius (make_ring center inner outer ga gs st) = outer"
  "gap_angle (make_ring center inner outer ga gs st) = ga"
  "gap_start (make_ring center inner outer ga gs st) = gs"
  "rotation (make_ring center inner outer ga gs st) = 0"
  by (simp_all add: make_ring_def)

lemma point_angle_quarter:
  "point_angle (make_ring (Vector2D 0 0) inner outer ga gs st) (Vector2D 0 55) = 90"
proof -
  have "\<lfloor>(450::real) / 360\<rfloor> = 1" by (simp add: floor_eq_iff)
  then show ?thesis
    by (simp add: point_angle_def py_atan2_def degrees_def py_mod_def sub_def)
qed

lemma whole_turns:
  "cos (t + 2 * pi * of_int k) = cos t" "sin (t + 2 * pi * of_int k) = sin t"
  by (simp_all add: cos_add sin_add)

lemma atan2_polar:
  fixes a b :: real
  assumes "a \<noteq> 0 \<or> b \<noteq> 0"
  shows "a = sqrt (a * a + b * b) * cos (py_atan2 b a) \<and>
         b = sqrt (a * a + b * b) * sin (py_atan2 b a)"
proof -
  let ?r = "sqrt (a * a + b * b)"
  have r_pos: "0 < ?r"
    using assms by (simp add: sum_squares_gt_zero_iff)
  show ?thesis
  proof (cases "a = 0")
    case True
    with assms show ?thesis by (auto simp add: py_atan2_def)
  next
    case False
    let ?z = "b / a"
    have root: "sqrt (1 + ?z\<^sup>2) = ?r / \<bar>a\<bar>"
    proof -
      have "1 + ?z\<^sup>2 = (a * a + b * b) / (a * a)"
        using False by (simp add: power2_eq_square field_simps)
      then show ?thesis
        by (simp add: real_sqrt_divide)
    qed
    have c: "cos (arctan ?z) = \<bar>a\<bar> / ?r" and s: "sin (arctan ?z) = ?z * \<bar>a\<bar> / ?r"
      using r_pos by (simp_all add: cos_arctan sin_arctan root)
    show ?thesis
      using False r_pos c s by (auto simp add: py_atan2_def)
  qed
qed

lemma point_angle_polar:
  assumes "p \<noteq> position ring"
  shows "sub p (position ring) =
     mul (Vector2D (cos (point_angle ring p * pi / 180)) (sin (point_angle ring p * pi / 180)))
         (magnitude (sub p (position ring)))"
proof -
  let ?v = "sub p (position ring)"
  let ?t = "py_atan2 (vy ?v) (vx ?v)"
  have nz: "vx ?v \<noteq> 0 \<or> vy ?v \<noteq> 0"
    using assms by (auto simp add: Vector2D.expand)
  define k where "k = 1 - \<lfloor>(degrees ?t + 360) / 360\<rfloor>"
  have "point_angle ring p = degrees ?t + 360 * of_int k"
    by (simp add: point_angle_def Let_def py_mod_def k_def algebra_simps)
  then have "point_angle ring p * pi / 180 = ?t + 2 * pi * of_int k"
    by (simp add: degrees_def field_simps)
  then have "cos (point_angle ring p * pi / 180) = cos ?t"
    "sin (point_angle ring p * pi / 180) = sin ?t"
    by (simp_all only: whole_turns)
  then show ?thesis
    using atan2_polar [OF nz] by (simp add: Vector2D.expand magnitude_def mult.commute)
qed

text \<open>
  Claim C7 as stated fails for a gap of a full turn. The ring has \<^verbatim>\<open>gap_angle = 360\<close>,
  \<^verbatim>\<open>gap_start = 0\<close> and no rotation; the point \<open>(0, 55)\<close> is at 90 degrees about the centre,
  inside the interval from 0 to 360, and \<^verbatim>\<open>point_in_gap\<close> is false: the end of the gap is
  reduced modulo 360 to 0, which leaves the single angle 0.
\<close>

theorem full_turn_gap_counterexample:
  "0 < gap_angle (make_ring (Vector2D 0 0) 50 60 360 0 True) \<and>
   point_angle (make_ring (Vector2D 0 0) 50 60 360 0 True) (Vector2D 0 55) = 90 \<and>
   gap_start (make_ring (Vector2D 0 0) 50 60 360 0 True)
     + rotation (make_ring (Vector2D 0 0) 50 60 360 0 True)
     \<le> point_angle (make_ring (Vector2D 0 0) 50 60 360 0 True) (Vector2D 0 55) \<and>
   point_angle (make_ring (Vector2D 0 0) 50 60 360 0 True) (Vector2D 0 55)
     \<le> gap_start (make_ring (Vector2D 0 0) 50 60 360 0 True)
       + rotation (make_ring (Vector2D 0 0) 50 60 360 0 True)
       + gap_angle (make_ring (Vector2D 0 0) 50 60 360 0 True) \<and>
   \<not> point_in_gap (make_ring (Vector2D 0 0) 50 60 360 0 True) (Vector2D 0 55)"
proof -
  have "py_mod 0 360 = 0" "py_mod 360 360 = 0"
    by (simp_all add: py_mod_def)
  then show ?thesis
    by (simp add: point_in_gap_def has_gap_def Let_def point_angle_quarter)
qed

text \<open>
  Claim C7, amended. For a ring whose gap angle lies strictly between 0 and 360 degrees,
  \<^verbatim>\<open>point_in_gap\<close> holds exactly when the angle of the point about the centre, which is
  normalized to \<open>[0, 360)\<close>, lies up to a whole number of turns in the interval from
  \<open>gap_start + rotation\<close> to \<open>gap_start + rotation + gap_angle\<close>; this covers the gap that
  crosses 0 degrees. For a ring whose gap angle is 0 or less it is false.
\<close>

theorem point_in_gap_interval:
  "(0 < gap_angle ring \<and> gap_angle ring < 360 \<longrightarrow>
      (point_in_gap ring p \<longleftrightarrow>
         (\<exists>k::int. gap_start ring + rotation ring \<le> point_angle ring p + 360 * of_int k \<and>
                   point_angle ring p + 360 * of_int k
                     \<le> gap_start ring + rotation ring + gap_angle ring))) \<and>
   (gap_angle ring \<le> 0 \<longrightarrow> \<not> point_in_gap ring p) \<and>
   0 \<le> point_angle ring p \<and> point_angle ring p < 360 \<and>
   (p \<noteq> position ring \<longrightarrow>
      sub p (position ring) =
        mul (Vector2D (cos (point_angle ring p * pi / 180)) (sin (point_angle ring p * pi / 180)))
            (magnitude (sub p (position ring))))"
proof (intro conjI impI)
  assume g: "0 < gap_angle ring \<and> gap_angle ring < 360"
  have "point_in_gap ring p \<longleftrightarrow>
      (if py_mod (gap_start ring + rotation ring) 360
            \<le> py_mod (py_mod (gap_start ring + rotation ring) 360 + gap_angle ring) 360
       then py_mod (gap_start ring + rotation ring) 360 \<le> point_angle ring p \<and>
            point_angle ring p \<le> py_mod (py_mod (gap_start ring + rotation ring) 360 + gap_angle ring) 360
       else point_angle ring p \<ge> py_mod (gap_start ring + rotation ring) 360 \<or>
            point_angle ring p \<le> py_mod (py_mod (gap_start ring + rotation ring) 360 + gap_angle ring) 360)"
    using g by (simp add: point_in_gap_def has_gap_def Let_def)
  also have "\<dots> \<longleftrightarrow>
      (\<exists>k::int. gap_start ring + rotation ring \<le> point_angle ring p + 360 * of_int k \<and>
                point_angle ring p + 360 * of_int k
                  \<le> gap_start ring + rotation ring + gap_angle ring)"
    using g point_angle_range [of ring p] by (intro interval_mod_360) simp_all
  finally show "point_in_gap ring p \<longleftrightarrow>
      (\<exists>k::int. gap_start ring + rotation ring \<le> point_angle ring p + 360 * of_int k \<and>
                point_angle ring p + 360 * of_int k
                  \<le> gap_start ring + rotation ring + gap_angle ring)" .
next
  assume "gap_angle ring \<le> 0"
  then show "\<not> point_in_gap ring p"
    by (simp add: point_in_gap_def has_gap_def)
next
  show "0 \<le> point_angle ring p" "point_angle ring p < 360"
    using point_angle_range [of ring p] by simp_all
next
  assume "p \<noteq> position ring"
  then show "sub p (position ring) =
        mul (Vector2D (cos (point_angle ring p * pi / 180)) (sin (point_angle ring p * pi / 180)))
            (magnitude (sub p (position ring)))"
    by (rule point_angle_polar)
qed

lemma point_angle_east:
  "point_angle (make_ring (Vector2D 0 0) inner outer ga gs st) (Vector2D 55 0) = 0"
  by (simp add: point_angle_def py_atan2_def degrees_def py_mod_def sub_def)

theorem point_in_gap_interval_witness:
  "point_in_gap (make_ring (Vector2D 0 0) 50 60 90 350 True) (Vector2D 55 0) \<and>
   \<not> point_in_gap (make_ring (Vector2D 0 0) 50 60 0 350 True) (Vector2D 55 0) \<and>
   sub (Vector2D 55 0) (position (make_ring (Vector2D 0 0) 50 60 90 350 True)) =
     mul (Vector2D (cos (0 * pi / 180)) (sin (0 * pi / 180))) 55"
proof -
  let ?R = "make_ring (Vector2D 0 0) 50 60 90 350 True"
  let ?Z = "make_ring (Vector2D 0 0) 50 60 0 350 True"
  let ?P = "Vector2D 55 0"
  note thm_R = point_in_gap_interval [of ?R ?P]
  note thm_Z = point_in_gap_interval [of ?Z ?P]
  have a: "point_angle ?R ?P = 0" by (rule point_angle_east)
  have ex: "\<exists>k::int. gap_start ?R + rotation ?R \<le> point_angle ?R ?P + 360 * of_int k \<and>
        point_angle ?R ?P + 360 * of_int k \<le> gap_start ?R + rotation ?R + gap_angle ?R"
  proof (rule exI [of _ 1])
    show "gap_start ?R + rotation ?R \<le> point_angle ?R ?P + 360 * of_int (1::int) \<and>
        point_angle ?R ?P + 360 * of_int (1::int) \<le> gap_start ?R + rotation ?R + gap_angle ?R"
      unfolding a by simp
  qed
  have g: "0 < gap_angle ?R \<and> gap_angle ?R < 360" by simp
  have in_gap: "point_in_gap ?R ?P"
    using thm_R [THEN conjunct1, rule_format, OF g] ex by (rule iffD2)
  have "gap_angle ?Z \<le> 0" by simp
  then have no_gap: "\<not> point_in_gap ?Z ?P"
    by (rule thm_Z [THEN conjunct2, THEN conjunct1, rule_format])
  have "?P \<noteq> position ?R" by simp
  then have "sub ?P (position ?R) =
      mul (Vector2D (cos (point_angle ?R ?P * pi / 180)) (sin (point_angle ?R ?P * pi / 180)))
          (magnitude (sub ?P (position ?R)))"
    by (rule thm_R [THEN conjunct2, THEN conjunct2, THEN conjunct2, THEN conjunct2, rule_format])
  then have polar: "sub ?P (position ?R) =
      mul (Vector2D (cos (0 * pi / 180)) (sin (0 * pi / 180))) 55"
    unfolding a by (simp add: sub_def)
  from in_gap no_gap polar show ?thesis by (intro conjI)
qed

section \<open>Broad phase: what the grid returns\<close>

text \<open>The list of bodies the dictionary holds for a cell, empty when the cell is no key.\<close>

lemma grid_append_lookup:
  "map_of (grid_append cell r gr) cell' =
     (if cell' = cell then Some ((case map_of gr cell of None \<Rightarrow> [] | Some rs \<Rightarrow> rs) @ [r])
      else map_of gr cell')"
  by (induction gr) auto

lemma index_pairs_append:
  "set (index_pairs (xs @ ys)) = set (index_pairs xs) \<union> (set xs \<times> set ys) \<union> set (index_pairs ys)"
  by (induction xs) auto

lemma cells_fold_lookup:
  "\<exists>zs. (case map_of (fold (\<lambda>cell. grid_append cell r) cells gr) c of None \<Rightarrow> [] | Some rs \<Rightarrow> rs)
          = (case map_of gr c of None \<Rightarrow> [] | Some rs \<Rightarrow> rs) @ zs \<and>
        (c \<in> set cells \<longrightarrow> r \<in> set zs)"
proof (induction cells arbitrary: gr)
  case Nil
  show ?case by simp
next
  case (Cons cell cells)
  let ?b = "\<lambda>g. (case map_of g c of None \<Rightarrow> [] | Some rs \<Rightarrow> rs)"
  obtain zs where zs: "?b (fold (\<lambda>cell. grid_append cell r) cells (grid_append cell r gr))
      = ?b (grid_append cell r gr) @ zs" "c \<in> set cells \<longrightarrow> r \<in> set zs"
    using Cons.IH [of "grid_append cell r gr"] by blast
  show ?case
  proof (cases "c = cell")
    case True
    then have "?b (grid_append cell r gr) = ?b gr @ [r]"
      by (simp add: grid_append_lookup)
    with zs have "?b (fold (\<lambda>cell. grid_append cell r) (cell # cells) gr) = ?b gr @ (r # zs)"
      by simp
    then show ?thesis by (intro exI [of _ "r # zs"]) simp
  next
    case False
    then have "?b (grid_append cell r gr) = ?b gr"
      by (simp add: grid_append_lookup)
    with zs False show ?thesis by (intro exI [of _ zs]) simp
  qed
qed

lemma cell_rectangle:
  "(c, r) \<in> set (concat (map (\<lambda>r. map (\<lambda>c. (c, r)) [c1..c2]) [r1..r2])) \<longleftrightarrow>
     c1 \<le> c \<and> c \<le> c2 \<and> r1 \<le> r \<and> r \<le> r2"
  by (auto simp add: image_iff)

lemma get_cell_coords_value:
  assumes "cell_size g \<noteq> 0"
  shows "get_cell_coords g px py =
     Inr (max 0 (min \<lfloor>px / cell_size g\<rfloor> (cols g - 1)), max 0 (min \<lfloor>py / cell_size g\<rfloor> (rows g - 1)))"
  using assms by (simp add: get_cell_coords_def py_floordiv_def)

lemma common_cell:
  assumes cs: "0 < cell_size g"
    and boxes: "get_bounding_box ring_box oa = (amin, amax)" "get_bounding_box ring_box ob = (bmin, bmax)"
    and wf: "vx amin \<le> vx amax" "vy amin \<le> vy amax" "vx bmin \<le> vx bmax" "vy bmin \<le> vy bmax"
    and overlap: "vx amin \<le> vx bmax" "vx bmin \<le> vx amax" "vy amin \<le> vy bmax" "vy bmin \<le> vy amax"
  shows "\<exists>ca cb c. get_cells_for_body ring_box g oa = Inr ca \<and>
           get_cells_for_body ring_box g ob = Inr cb \<and> c \<in> set ca \<and> c \<in> set cb"
proof -
  define col where "col = (\<lambda>t. max 0 (min \<lfloor>t / cell_size g\<rfloor> (cols g - 1)))"
  define row where "row = (\<lambda>t. max 0 (min \<lfloor>t / cell_size g\<rfloor> (rows g - 1)))"
  have mono: "col s \<le> col t" "row s \<le> row t" if "s \<le> t" for s t
  proof -
    have "s / cell_size g \<le> t / cell_size g"
      using that cs by (simp add: divide_right_mono)
    then have "\<lfloor>s / cell_size g\<rfloor> \<le> \<lfloor>t / cell_size g\<rfloor>"
      by (rule floor_mono)
    then show "col s \<le> col t" "row s \<le> row t"
      by (simp_all add: col_def row_def)
  qed
  let ?cells = "\<lambda>lo hi. concat (map (\<lambda>r. map (\<lambda>c. (c, r)) [col (vx lo)..col (vx hi)])
                                  [row (vy lo)..row (vy hi)])"
  have ca: "get_cells_for_body ring_box g oa = Inr (?cells amin amax)"
    and cb: "get_cells_for_body ring_box g ob = Inr (?cells bmin bmax)"
    using cs boxes by (simp_all add: get_cells_for_body_def get_cell_coords_value col_def row_def)
  let ?c = "(max (col (vx amin)) (col (vx bmin)), max (row (vy amin)) (row (vy bmin)))"
  have "?c \<in> set (?cells amin amax)"
    unfolding cell_rectangle
    using mono(1) [OF wf(1)] mono(2) [OF wf(2)] mono(1) [OF overlap(2)] mono(2) [OF overlap(4)]
    by simp
  moreover have "?c \<in> set (?cells bmin bmax)"
    unfolding cell_rectangle
    using mono(1) [OF wf(3)] mono(2) [OF wf(4)] mono(1) [OF overlap(1)] mono(2) [OF overlap(3)]
    by simp
  ultimately show ?thesis
    using ca cb by blast
qed

lemma get_cells_grid_irrelevant:
  "get_cells_for_body ring_box (g\<lparr>grid := gr\<rparr>) obj = get_cells_for_body ring_box g obj"
  by (simp add: get_cells_for_body_def get_cell_coords_def)

lemma grid_insert_shape:
  assumes "grid_insert ring_box h g r = Inr g'"
  obtains cells where "get_cells_for_body ring_box g (h r) = Inr cells"
    and "g' = g\<lparr>grid := fold (\<lambda>cell. grid_append cell r) cells (grid g)\<rparr>"
  using assms unfolding grid_insert_def
  by (cases "get_cells_for_body ring_box g (h r)") auto

lemma insert_all_pairs:
  assumes "insert_all ring_box h g bs = Inr g'"
    and "get_cells_for_body ring_box g (h a) = Inr ca" "c \<in> set ca"
    and "get_cells_for_body ring_box g (h b) = Inr cb" "c \<in> set cb"
    and "(a \<in> set (case map_of (grid g) c of None \<Rightarrow> [] | Some rs \<Rightarrow> rs) \<and> b \<in> set bs) \<or>
         (a, b) \<in> set (index_pairs bs) \<or>
         (a, b) \<in> set (index_pairs (case map_of (grid g) c of None \<Rightarrow> [] | Some rs \<Rightarrow> rs))"
  shows "(a, b) \<in> set (index_pairs (case map_of (grid g') c of None \<Rightarrow> [] | Some rs \<Rightarrow> rs))"
  using assms
proof (induction bs arbitrary: g)
  case Nil
  then show ?case by simp
next
  case (Cons r rs)
  let ?b = "\<lambda>gr. (case map_of gr c of None \<Rightarrow> [] | Some xs \<Rightarrow> xs)"
  from Cons.prems(1) obtain g1 where g1: "grid_insert ring_box h g r = Inr g1"
    and rest: "insert_all ring_box h g1 rs = Inr g'"
    by (cases "grid_insert ring_box h g r") simp_all
  from g1 obtain cells where cells: "get_cells_for_body ring_box g (h r) = Inr cells"
    and g1_eq: "g1 = g\<lparr>grid := fold (\<lambda>cell. grid_append cell r) cells (grid g)\<rparr>"
    by (rule grid_insert_shape)
  obtain zs where zs: "?b (grid g1) = ?b (grid g) @ zs" "c \<in> set cells \<longrightarrow> r \<in> set zs"
    using cells_fold_lookup [of r cells "grid g" c] by (auto simp add: g1_eq)
  have same: "get_cells_for_body ring_box g1 (h a) = Inr ca"
    "get_cells_for_body ring_box g1 (h b) = Inr cb"
    using Cons.prems(2,4) by (simp_all add: g1_eq get_cells_grid_irrelevant)
  have "(a \<in> set (?b (grid g1)) \<and> b \<in> set rs) \<or> (a, b) \<in> set (index_pairs rs) \<or>
        (a, b) \<in> set (index_pairs (?b (grid g1)))"
  proof -
    consider (old) "a \<in> set (?b (grid g))" "b \<in> set (r # rs)"
      | (new) "(a, b) \<in> set (index_pairs (r # rs))"
      | (present) "(a, b) \<in> set (index_pairs (?b (grid g)))"
      using Cons.prems(6) by blast
    then show ?thesis
    proof cases
      case old
      show ?thesis
      proof (cases "b = r")
        case True
        then have "r \<in> set zs"
          using zs(2) cells Cons.prems(4,5) by simp
        then show ?thesis
          using old(1) True by (simp add: zs(1) index_pairs_append)
      next
        case False
        with old show ?thesis by (simp add: zs(1))
      qed
    next
      case new
      then consider "a = r" "b \<in> set rs" | "(a, b) \<in> set (index_pairs rs)"
        by auto
      then show ?thesis
      proof cases
        case 1
        then have "r \<in> set zs"
          using zs(2) cells Cons.prems(2,3) by simp
        with 1 show ?thesis by (simp add: zs(1))
      next
        case 2
        then show ?thesis by simp
      qed
    next
      case present
      then show ?thesis by (simp add: zs(1) index_pairs_append)
    qed
  qed
  with rest same Cons.prems(3,5) show ?case
    by (intro Cons.IH [of g1]) simp_all
qed

lemma yield_pairs_covers:
  assumes "(a, b) \<in> set ps"
  shows "(min a b, max a b) \<in> seen \<or>
         (\<exists>(x, y) \<in> set (yield_pairs ps seen). (min x y, max x y) = (min a b, max a b))"
  using assms
proof (induction ps arbitrary: seen)
  case Nil
  then show ?case by simp
next
  case (Cons p ps)
  obtain x y where p: "p = (x, y)" by (cases p)
  let ?key = "(min x y, max x y)"
  show ?case
  proof (cases "?key \<in> seen")
    case True
    then have out: "yield_pairs (p # ps) seen = yield_pairs ps seen"
      by (simp add: p Let_def)
    show ?thesis
    proof (cases "(a, b) = (x, y)")
      case True
      with \<open>?key \<in> seen\<close> show ?thesis by simp
    next
      case False
      with Cons.prems p have "(a, b) \<in> set ps" by auto
      from Cons.IH [OF this, of seen] show ?thesis
        unfolding out .
    qed
  next
    case False
    then have out: "yield_pairs (p # ps) seen = (x, y) # yield_pairs ps (insert ?key seen)"
      by (simp add: p Let_def)
    show ?thesis
    proof (cases "(min a b, max a b) = ?key")
      case True
      then show ?thesis unfolding out by simp
    next
      case diff: False
      then have "(a, b) \<noteq> (x, y)" by auto
      with Cons.prems p have "(a, b) \<in> set ps" by auto
      from Cons.IH [OF this, of "insert ?key seen"] diff show ?thesis
        unfolding out by auto
    qed
  qed
qed

lemma same_key:
  fixes a b x y :: nat
  assumes "(min x y, max x y) = (min a b, max a b)"
  shows "(x, y) = (a, b) \<or> (x, y) = (b, a)"
  using assms by (auto simp add: min_def max_def split: if_splits)

lemma bucket_pairs_are_candidates:
  assumes "(a, b) \<in> set (index_pairs (case map_of gr c of None \<Rightarrow> [] | Some rs \<Rightarrow> rs))"
  shows "(a, b) \<in> set (concat (map (\<lambda>(cell, cell_bodies). index_pairs cell_bodies) gr))"
proof (cases "map_of gr c")
  case None
  with assms show ?thesis by simp
next
  case (Some rs)
  then have "(c, rs) \<in> set gr" by (rule map_of_SomeD)
  with assms Some show ?thesis by force
qed

text \<open>
  The grid half of the broad-phase contract. Let the cell size be positive and let all the
  bodies of \<open>bs\<close> be inserted into the cleared grid. If \<open>a\<close> comes before \<open>b\<close> in \<open>bs\<close> and
  their bounding boxes are well formed and overlap, the generator
  \<^verbatim>\<open>get_potential_collisions\<close> yields the pair, in one order or the other.
\<close>

lemma grid_yields_overlapping_pairs:
  assumes cs: "0 < cell_size g"
    and ins: "insert_all ring_box h (grid_clear g) bs = Inr g'"
    and ab: "(a, b) \<in> set (index_pairs bs)"
    and boxes: "get_bounding_box ring_box (h a) = (amin, amax)"
      "get_bounding_box ring_box (h b) = (bmin, bmax)"
    and wf: "vx amin \<le> vx amax" "vy amin \<le> vy amax" "vx bmin \<le> vx bmax" "vy bmin \<le> vy bmax"
    and overlap: "vx amin \<le> vx bmax" "vx bmin \<le> vx amax" "vy amin \<le> vy bmax" "vy bmin \<le> vy amax"
  shows "(a, b) \<in> set (get_potential_collisions g') \<or> (b, a) \<in> set (get_potential_collisions g')"
proof -
  have cs': "0 < cell_size (grid_clear g)"
    using cs by (simp add: grid_clear_def)
  obtain ca cb c where cells: "get_cells_for_body ring_box (grid_clear g) (h a) = Inr ca"
      "get_cells_for_body ring_box (grid_clear g) (h b) = Inr cb" "c \<in> set ca" "c \<in> set cb"
    using common_cell [OF cs' boxes wf overlap] by blast
  have "(a, b) \<in> set (index_pairs (case map_of (grid g') c of None \<Rightarrow> [] | Some rs \<Rightarrow> rs))"
    by (rule insert_all_pairs [OF ins cells(1) cells(3) cells(2) cells(4)]) (simp add: ab)
  then have "(a, b) \<in> set (concat (map (\<lambda>(cell, cell_bodies). index_pairs cell_bodies) (grid g')))"
    by (rule bucket_pairs_are_candidates)
  from yield_pairs_covers [OF this, of "{}"]
  obtain x y where xy: "(x, y) \<in> set (get_potential_collisions g')"
      "(min x y, max x y) = (min a b, max a b)"
    by (auto simp add: get_potential_collisions_def)
  from same_key [OF xy(2)] xy(1) show ?thesis by auto
qed

lemma component_le_distance:
  "\<bar>vx p - vx q\<bar> \<le> distance_to p q" "\<bar>vy p - vy q\<bar> \<le> distance_to p q"
proof -
  let ?dx = "vx p - vx q" and ?dy = "vy p - vy q"
  have "sqrt (?dx * ?dx) \<le> sqrt (?dx * ?dx + ?dy * ?dy)"
    by (rule real_sqrt_le_mono) simp
  then show "\<bar>?dx\<bar> \<le> distance_to p q"
    by (simp add: distance_to_def Let_def)
  have "sqrt (?dy * ?dy) \<le> sqrt (?dx * ?dx + ?dy * ?dy)"
    by (rule real_sqrt_le_mono) simp
  then show "\<bar>?dy\<bar> \<le> distance_to p q"
    by (simp add: distance_to_def Let_def)
qed

text \<open>
  For circles of radius at least 0 the grid has no false negative: a pair that the
  circle-circle test reports is among the candidate pairs.
\<close>

lemma grid_yields_colliding_circles:
  assumes cs: "0 < cell_size g"
    and ins: "insert_all ring_box h (grid_clear g) bs = Inr g'"
    and ab: "(a, b) \<in> set (index_pairs bs)"
    and circles: "h a = ACircle circle_a" "h b = ACircle circle_b"
    and radii: "0 \<le> radius circle_a" "0 \<le> radius circle_b"
    and hit: "circle_circle_collision h a b = Inr (Some c)"
  shows "(a, b) \<in> set (get_potential_collisions g') \<or> (b, a) \<in> set (get_potential_collisions g')"
proof -
  let ?pa = "position circle_a" and ?pb = "position circle_b"
  let ?ra = "radius circle_a" and ?rb = "radius circle_b"
  from hit have d: "distance_to ?pa ?pb < ?ra + ?rb"
    unfolding circle_circle_collision_eq [OF circles] Let_def by (auto split: if_splits)
  have dx: "\<bar>vx ?pa - vx ?pb\<bar> < ?ra + ?rb" and dy: "\<bar>vy ?pa - vy ?pb\<bar> < ?ra + ?rb"
    using component_le_distance [of ?pa ?pb] d by linarith+
  show ?thesis
  proof (rule grid_yields_overlapping_pairs [OF cs ins ab])
    show "get_bounding_box ring_box (h a) =
        (Vector2D (vx ?pa - ?ra) (vy ?pa - ?ra), Vector2D (vx ?pa + ?ra) (vy ?pa + ?ra))"
      by (simp add: circles get_bounding_box_def circle_bounding_box_def)
    show "get_bounding_box ring_box (h b) =
        (Vector2D (vx ?pb - ?rb) (vy ?pb - ?rb), Vector2D (vx ?pb + ?rb) (vy ?pb + ?rb))"
      by (simp add: circles get_bounding_box_def circle_bounding_box_def)
  qed (use radii dx dy in auto)
qed

section \<open>Broad phase: what the quadtree returns\<close>

lemma scene_quadtree_at [simp]:
  "scene_quadtree 0 = ACircle (make_circle (Vector2D 10 10) (Vector2D 0 0) 5 1 False)"
  "scene_quadtree (Suc 0) = ACircle (make_circle (Vector2D 80 80) (Vector2D 0 0) 5 1 False)"
  "scene_quadtree 2 = ACircle (make_circle (Vector2D 30 10) (Vector2D 0 0) 25 1 False)"
  by (simp_all add: scene_quadtree_def)

lemma circle_box [simp]:
  "get_bounding_box ring_box (ACircle (make_circle p v r m st)) =
     (Vector2D (vx p - r) (vy p - r), Vector2D (vx p + r) (vy p + r))"
  by (simp add: get_bounding_box_def circle_bounding_box_def)

lemma scene_quadtree_index:
  "get_index ring_box scene_quadtree (QuadTree (0, 0, 100, 100) mo ml lv objs ns) 0 = 1"
  "get_index ring_box scene_quadtree (QuadTree (0, 0, 100, 100) mo ml lv objs ns) (Suc 0) = 3"
  "get_index ring_box scene_quadtree (QuadTree (0, 0, 100, 100) mo ml lv objs ns) 2 = - 1"
  by (simp_all add: get_index_def)

lemma scene_quadtree_first:
  "quad_insert 6 ring_box scene_quadtree (QuadTree_init (0, 0, 100, 100) 1 5 0) 0
     = Some quadtree_one"
  by (simp add: eval_nat_numeral QuadTree_init_def quadtree_one_def set_objects_def)

lemma scene_quadtree_second:
  "quad_insert 6 ring_box scene_quadtree quadtree_one 1 = Some quadtree_two"
  by (simp add: eval_nat_numeral quadtree_one_def quadtree_two_def set_objects_def set_nodes_def
      split_def QuadTree_init_def scene_quadtree_index node_at_def set_node_at_def Let_def)

lemma scene_quadtree_retrieve: "retrieve ring_box scene_quadtree quadtree_two [] 2 = []"
  by (simp add: quadtree_two_def scene_quadtree_index)

lemma scene_quadtree_contact:
  "circle_circle_collision scene_quadtree 2 0 =
     Inr (Some \<lparr> body_a = 2, body_b = 0, contact_point = Vector2D 5 10, normal = Vector2D (- 1) 0,
                 penetration = 10, collision_type = ''circle-circle'', metadata = [] \<rparr>)"
  by (simp add: circle_circle_collision_def normalized_eq sub_def add_def mul_def)

text \<open>
  Claim C1, evaluated on a quadtree over a world of 100 by 100 with capacity 1. Inserting
  the circles 0 and 1 splits the root and moves circle 0 into the north-west quadrant and
  circle 1 into the south-east one. The query circle 2 has a bounding box from \<open>(5, -15)\<close>
  to \<open>(55, 35)\<close>, which overlaps the box of circle 0 from \<open>(5, 5)\<close> to \<open>(15, 15)\<close>, and the
  narrow phase finds the two in contact with penetration 10. The box of the query
  straddles the vertical midline, so \<^verbatim>\<open>get_index\<close> is -1 and \<^verbatim>\<open>retrieve\<close> returns the
  objects of the root only: the empty list, without circle 0.
\<close>

theorem quadtree_retrieve_misses_overlap:
  "quad_insert 6 ring_box scene_quadtree (QuadTree_init (0, 0, 100, 100) 1 5 0) 0
     = Some quadtree_one \<and>
   quad_insert 6 ring_box scene_quadtree quadtree_one 1 = Some quadtree_two \<and>
   get_bounding_box ring_box (scene_quadtree 0) = (Vector2D 5 5, Vector2D 15 15) \<and>
   get_bounding_box ring_box (scene_quadtree 2) = (Vector2D 5 (- 15), Vector2D 55 35) \<and>
   check_collision scene_quadtree 2 0 =
     Inr (Some \<lparr> body_a = 2, body_b = 0, contact_point = Vector2D 5 10, normal = Vector2D (- 1) 0,
                 penetration = 10, collision_type = ''circle-circle'', metadata = [] \<rparr>) \<and>
   get_index ring_box scene_quadtree quadtree_two 2 = - 1 \<and>
   retrieve ring_box scene_quadtree quadtree_two [] 2 = []"
proof (intro conjI)
  show "quad_insert 6 ring_box scene_quadtree (QuadTree_init (0, 0, 100, 100) 1 5 0) 0
     = Some quadtree_one"
    by (rule scene_quadtree_first)
  show "quad_insert 6 ring_box scene_quadtree quadtree_one 1 = Some quadtree_two"
    by (rule scene_quadtree_second)
  show "get_bounding_box ring_box (scene_quadtree 0) = (Vector2D 5 5, Vector2D 15 15)"
    by simp
  show "get_bounding_box ring_box (scene_quadtree 2) = (Vector2D 5 (- 15), Vector2D 55 35)"
    by simp
  have "check_collision scene_quadtree 2 0 = circle_circle_collision scene_quadtree 2 0"
    by (simp add: check_collision_def type_name_def)
  then show "check_collision scene_quadtree 2 0 =
     Inr (Some \<lparr> body_a = 2, body_b = 0, contact_point = Vector2D 5 10, normal = Vector2D (- 1) 0,
                 penetration = 10, collision_type = ''circle-circle'', metadata = [] \<rparr>)"
    by (simp only: scene_quadtree_contact)
  show "get_index ring_box scene_quadtree quadtree_two 2 = - 1"
    by (simp add: quadtree_two_def scene_quadtree_index)
  show "retrieve ring_box scene_quadtree quadtree_two [] 2 = []"
    by (rule scene_quadtree_retrieve)
qed

end
